(* ===== verification/Lad_Base.thy ===== *)
theory Lad_Base
  imports Main "HOL-Library.Multiset" "HOL-Library.AList" "HOL-Library.Char_ord" "HOL-Library.List_Lexorder"
begin

text \<open>
  Prelude of the development: the fact collections of the components, and the generic lemmas on
  lists, association lists and characters that several of them share.
\<close>

named_theorems go_strings \<open>evaluation rules of the Go string functions\<close>
named_theorems os_defs \<open>definitions of the operating-system calls\<close>
named_theorems ascii_simps \<open>characterisations of byte classes\<close>

section \<open>Bytes\<close>

text \<open>A Go string is a sequence of bytes; so is a HOL \<^typ>\<open>string\<close>, a list of 8-bit characters.\<close>

abbreviation code :: "char \<Rightarrow> nat" where
  "code c \<equiv> of_char c"

definition ascii :: "char \<Rightarrow> bool" where
  "ascii c \<longleftrightarrow> code c < 128"

definition is_digit_c :: "char \<Rightarrow> bool" where
  "is_digit_c c \<longleftrightarrow> 48 \<le> code c \<and> code c \<le> 57"

definition is_lower_c :: "char \<Rightarrow> bool" where
  "is_lower_c c \<longleftrightarrow> 97 \<le> code c \<and> code c \<le> 122"

definition is_upper_c :: "char \<Rightarrow> bool" where
  "is_upper_c c \<longleftrightarrow> 65 \<le> code c \<and> code c \<le> 90"

definition is_letter_c :: "char \<Rightarrow> bool" where
  "is_letter_c c \<longleftrightarrow> is_lower_c c \<or> is_upper_c c"

definition is_space_c :: "char \<Rightarrow> bool" where
  "is_space_c c \<longleftrightarrow> code c \<in> {9, 10, 11, 12, 13, 32}"

definition digit_c :: "nat \<Rightarrow> char" where
  "digit_c d = char_of (48 + d)"

abbreviation all_ascii :: "string \<Rightarrow> bool" where
  "all_ascii s \<equiv> list_all ascii s"

lemmas class_defs = ascii_def is_digit_c_def is_lower_c_def is_upper_c_def is_letter_c_def
  is_space_c_def

lemma code_char_of [simp]: "n < 256 \<Longrightarrow> code (char_of n) = n"
  by simp

lemma code_less_256 [simp]: "code c < 256"
  by (metis mod_less_divisor of_char_mod_256 zero_less_numeral)

lemma code_inj: "code c = code d \<Longrightarrow> c = d"
  by (metis char_of_char)

lemma code_digit_c [simp]: "d < 10 \<Longrightarrow> code (digit_c d) = 48 + d"
  by (simp add: digit_c_def)

lemma is_digit_digit_c [simp]: "d < 10 \<Longrightarrow> is_digit_c (digit_c d)"
  by (simp add: is_digit_c_def)

lemma digit_c_chars [simp]:
  "digit_c 0 = CHR ''0''" "digit_c 1 = CHR ''1''" "digit_c (Suc 0) = CHR ''1''"
  "digit_c 2 = CHR ''2''" "digit_c 3 = CHR ''3''" "digit_c 4 = CHR ''4''" "digit_c 5 = CHR ''5''"
  "digit_c 6 = CHR ''6''" "digit_c 7 = CHR ''7''" "digit_c 8 = CHR ''8''" "digit_c 9 = CHR ''9''"
  by (rule of_char_eqI [where ?'a = nat], simp add: digit_c_def)+

lemma is_digit_ascii:
 "is_digit_c c \<Longrightarrow> ascii c"
  and is_letter_ascii: "is_letter_c c \<Longrightarrow> ascii c"
  and is_lower_ascii: "is_lower_c c \<Longrightarrow> ascii c"
  and is_space_ascii: "is_space_c c \<Longrightarrow> ascii c"
  by (auto simp: class_defs)

lemma digit_not_space: "is_digit_c c \<Longrightarrow> \<not> is_space_c c"
  and letter_not_space: "is_letter_c c \<Longrightarrow> \<not> is_space_c c"
  by (auto simp: class_defs)

section \<open>Lists\<close>

lemma dropWhile_none: "(xs = [] \<or> \<not> P (hd xs)) \<Longrightarrow> dropWhile P xs = xs"
  by (cases xs) auto

lemma hd_dropWhile_not: "dropWhile P xs \<noteq> [] \<Longrightarrow> \<not> P (hd (dropWhile P xs))"
  by (induction xs) auto

lemma list_all_take: "list_all P xs \<Longrightarrow> list_all P (take n xs)"
  by (auto simp: list_all_iff dest: in_set_takeD)

lemma list_all_dropWhile: "list_all P xs \<Longrightarrow> list_all P (dropWhile Q xs)"
  by (auto simp: list_all_iff dest: set_dropWhileD)

lemma sort_key_mset_unique:
  assumes "mset xs = mset ys" and "inj_on f (set xs)"
  shows "sort_key f xs = sort_key f ys"
proof (rule sort_key_inj_key_eq)
  show "mset xs = mset (sort_key f ys)" using assms(1) by simp
  show "inj_on f (set xs)" by (rule assms(2))
  show "sorted (map f (sort_key f ys))" by simp
qed

section \<open>Maps\<close>

text \<open>
  Go iterates over a map in an order of its own choice. An operation that does so takes the order
  as an argument: a list that names every key once.
\<close>

definition iteration_of :: "('k \<Rightarrow> 'v option) \<Rightarrow> 'k list \<Rightarrow> bool" where
  "iteration_of m ks \<longleftrightarrow> distinct ks \<and> set ks = dom m"

definition map_values :: "('k \<Rightarrow> 'v option) \<Rightarrow> 'k list \<Rightarrow> 'v list" where
  "map_values m ks = List.map_filter m ks"

lemma map_values_simps [simp]:
  "map_values m [] = []"
  "map_values m (k # ks) = (case m k of None \<Rightarrow> map_values m ks | Some v \<Rightarrow> v # map_values m ks)"
  by (auto simp: map_values_def map_filter_simps split: option.splits)

lemma in_map_values: "v \<in> set (map_values m ks) \<longleftrightarrow> (\<exists>k \<in> set ks. m k = Some v)"
  by (induction ks) (auto split: option.splits)

lemma set_map_values: "set ks = dom m \<Longrightarrow> set (map_values m ks) = Map.ran m"
  by (rule set_eqI) (auto simp: in_map_values Map.ran_def)

lemma iteration_mset: "iteration_of m ks \<Longrightarrow> iteration_of m js \<Longrightarrow> mset (map_values m ks) = mset (map_values m js)"
proof -
  assume "iteration_of m ks" "iteration_of m js"
  then have "mset ks = mset js"
    using set_eq_iff_mset_eq_distinct [of ks js] by (simp add: iteration_of_def)
  moreover have "mset (map_values m xs) = image_mset (\<lambda>k. the (m k)) (filter_mset (\<lambda>k. m k \<noteq> None) (mset xs))" for xs
    by (induction xs) (auto split: option.splits)
  ultimately show ?thesis by simp
qed

lemma iteration_exists: "finite (dom m) \<Longrightarrow> \<exists>ks. iteration_of m ks"
  using finite_distinct_list unfolding iteration_of_def by metis

section \<open>Association lists\<close>

lemma map_of_AList_update [simp]: "map_of (AList.update k v al) = (map_of al)(k \<mapsto> v)"
  by (rule ext) (simp add: update_conv)

lemma map_of_AList_delete [simp]: "map_of (AList.delete k al) = (map_of al)(k := None)"
  by (rule ext) (simp add: delete_conv)

lemma distinct_delete_keys: "distinct (map fst al) \<Longrightarrow> distinct (map fst (AList.delete k al))"
  by (simp add: distinct_delete)

lemma AList_delete_absent: "k \<notin> fst ` set al \<Longrightarrow> AList.delete k al = al"
  by (induction al) (auto simp: AList.delete_eq)

end
