(* ===== verification/Go_Strings.thy ===== *)
theory Go_Strings
  imports Lad_Base "HOL-Library.Sublist"
begin

text \<open>
  The parts of Go's \<open>strings\<close>, \<open>strconv\<close>, \<open>unicode/utf8\<close> and \<open>path/filepath\<close> packages that the
  program calls, on byte strings. Text is decoded into runes exactly as \<open>range\<close> over a string does,
  an invalid byte being the rune U+FFFD of width one. The Unicode tables for runes above ASCII
  (which runes are letters or digits, and the lower-case mapping) are a parameter, the record
  \<open>unicode\<close>; white space is the fixed list of \<open>unicode.IsSpace\<close>.
\<close>

section \<open>UTF-8 and runes\<close>

record unicode =
  uni_letter :: "nat \<Rightarrow> bool"
  uni_digit :: "nat \<Rightarrow> bool"
  uni_lower :: "nat \<Rightarrow> nat"

text \<open>An instance for examples: no rune above ASCII is a letter or a digit.\<close>

definition demo_u :: unicode where
  "demo_u = \<lparr>uni_letter = (\<lambda>_. False), uni_digit = (\<lambda>_. False), uni_lower = id\<rparr>"

definition rune_error :: nat where
  "rune_error = 0xFFFD"

definition cont_byte :: "char \<Rightarrow> bool" where
  "cont_byte c \<longleftrightarrow> 128 \<le> code c \<and> code c \<le> 191"

definition second_ok :: "nat \<Rightarrow> char \<Rightarrow> bool" where
  "second_ok x b \<longleftrightarrow>
     (if x = 0xE0 then 0xA0 \<le> code b \<and> code b \<le> 0xBF
      else if x = 0xED then 0x80 \<le> code b \<and> code b \<le> 0x9F
      else if x = 0xF0 then 0x90 \<le> code b \<and> code b \<le> 0xBF
      else if x = 0xF4 then 0x80 \<le> code b \<and> code b \<le> 0x8F
      else cont_byte b)"

text \<open>\<open>utf8.DecodeRuneInString\<close>: the first rune and its width in bytes.\<close>

definition decode_rune :: "char \<Rightarrow> string \<Rightarrow> nat \<times> nat" where
  "decode_rune a s =
     (let x = code a; bad = (rune_error, 1) in
      if x < 0x80 then (x, 1)
      else if 0xC2 \<le> x \<and> x \<le> 0xDF then
        (case s of
           b # _ \<Rightarrow> if cont_byte b then ((x - 0xC0) * 64 + (code b - 0x80), 2) else bad
         | _ \<Rightarrow> bad)
      else if 0xE0 \<le> x \<and> x \<le> 0xEF then
        (case s of
           b # c # _ \<Rightarrow>
             if second_ok x b \<and> cont_byte c
             then ((x - 0xE0) * 4096 + (code b - 0x80) * 64 + (code c - 0x80), 3) else bad
         | _ \<Rightarrow> bad)
      else if 0xF0 \<le> x \<and> x \<le> 0xF4 then
        (case s of
           b # c # d # _ \<Rightarrow>
             if second_ok x b \<and> cont_byte c \<and> cont_byte d
             then ((x - 0xF0) * 262144 + (code b - 0x80) * 4096 + (code c - 0x80) * 64
                    + (code d - 0x80), 4) else bad
         | _ \<Rightarrow> bad)
      else bad)"

text \<open>The runes of a string, each with the bytes it was read from.\<close>

fun tokens :: "string \<Rightarrow> (nat \<times> string) list" where
  "tokens [] = []"
| "tokens (a # s) =
     (let (r, w) = decode_rune a s
      in (r, a # take (w - 1) s) # tokens (drop (w - 1) s))"

definition runes :: "string \<Rightarrow> nat list" where
  "runes s = map fst (tokens s)"

text \<open>\<open>utf8.AppendRune\<close>, which \<open>strings.Builder.WriteRune\<close> uses.\<close>

definition encode_rune :: "nat \<Rightarrow> string" where
  "encode_rune r =
     (if r < 0x80 then [char_of r]
      else if r < 0x800 then [char_of (0xC0 + r div 64), char_of (0x80 + r mod 64)]
      else if (0xD800 \<le> r \<and> r \<le> 0xDFFF) \<or> 0x10FFFF < r
      then [char_of (0xEF::nat), char_of (0xBF::nat), char_of (0xBD::nat)]
      else if r < 0x10000
      then [char_of (0xE0 + r div 4096), char_of (0x80 + r div 64 mod 64),
            char_of (0x80 + r mod 64)]
      else [char_of (0xF0 + r div 262144), char_of (0x80 + r div 4096 mod 64),
            char_of (0x80 + r div 64 mod 64), char_of (0x80 + r mod 64)])"

definition rune_letter :: "unicode \<Rightarrow> nat \<Rightarrow> bool" where
  "rune_letter u r \<longleftrightarrow>
     (if r < 128 then (65 \<le> r \<and> r \<le> 90) \<or> (97 \<le> r \<and> r \<le> 122) else uni_letter u r)"

definition rune_digit :: "unicode \<Rightarrow> nat \<Rightarrow> bool" where
  "rune_digit u r \<longleftrightarrow> (if r < 128 then 48 \<le> r \<and> r \<le> 57 else uni_digit u r)"

definition rune_lower :: "unicode \<Rightarrow> nat \<Rightarrow> nat" where
  "rune_lower u r =
     (if 65 \<le> r \<and> r \<le> 90 then r + 32 else if r < 128 then r else uni_lower u r)"

definition rune_space :: "nat \<Rightarrow> bool" where
  "rune_space r \<longleftrightarrow>
     r \<in> {9, 10, 11, 12, 13, 32, 0x85, 0xA0, 0x1680, 0x2028, 0x2029, 0x202F, 0x205F, 0x3000}
     \<or> 0x2000 \<le> r \<and> r \<le> 0x200A"

declare tokens.simps(2) [simp del]

lemma tokens_concat: "concat (map snd (tokens s)) = s"
proof (induction s rule: tokens.induct)
  case 1
  then show ?case by simp
next
  case (2 a s)
  obtain r w where d: "decode_rune a s = (r, w)" by (cases "decode_rune a s")
  with 2 [OF d [symmetric]] show ?case by (simp add: tokens.simps(2))
qed

lemma decode_rune_ascii: "ascii a \<Longrightarrow> decode_rune a s = (code a, 1)"
  by (simp add: decode_rune_def ascii_def Let_def)

lemma tokens_ascii_Cons: "ascii a \<Longrightarrow> tokens (a # s) = (code a, [a]) # tokens s"
  by (simp add: tokens.simps(2) decode_rune_ascii)

lemma tokens_ascii: "all_ascii s \<Longrightarrow> tokens s = map (\<lambda>c. (code c, [c])) s"
  by (induction s) (simp_all add: tokens_ascii_Cons)

lemma tokens_ascii_append: "all_ascii s \<Longrightarrow> tokens (s @ t) = tokens s @ tokens t"
  by (induction s) (simp_all add: tokens_ascii_Cons)

lemma encode_rune_ascii: "ascii c \<Longrightarrow> encode_rune (code c) = [c]"
  by (simp add: encode_rune_def ascii_def)

section \<open>\<open>strings\<close>\<close>

definition to_lower :: "unicode \<Rightarrow> string \<Rightarrow> string" where
  "to_lower u s = concat (map (\<lambda>r. encode_rune (rune_lower u r)) (runes s))"

definition trim_space :: "string \<Rightarrow> string" where
  "trim_space s =
     (let sp = (\<lambda>t. rune_space (fst t))
      in concat (map snd (rev (dropWhile sp (rev (dropWhile sp (tokens s)))))))"

fun split_fields :: "(nat \<times> string) list \<Rightarrow> string \<Rightarrow> string list" where
  "split_fields [] cur = (if cur = [] then [] else [cur])"
| "split_fields ((r, b) # ts) cur =
     (if rune_space r then (if cur = [] then split_fields ts [] else cur # split_fields ts [])
      else split_fields ts (cur @ b))"

definition string_fields :: "string \<Rightarrow> string list" where
  "string_fields s = split_fields (tokens s) []"

definition has_prefix :: "string \<Rightarrow> string \<Rightarrow> bool" where
  "has_prefix s p \<longleftrightarrow> take (length p) s = p"

text \<open>\<open>strings.Index\<close>, with \<open>None\<close> for \<open>-1\<close>.\<close>

fun index_of :: "string \<Rightarrow> string \<Rightarrow> nat option" where
  "index_of [] sub = (if sub = [] then Some 0 else None)"
| "index_of (c # s) sub =
     (if has_prefix (c # s) sub then Some 0 else map_option Suc (index_of s sub))"

definition contains :: "string \<Rightarrow> string \<Rightarrow> bool" where
  "contains s sub \<longleftrightarrow> index_of s sub \<noteq> None"

text \<open>\<open>strings.LastIndex\<close> for a one-byte separator.\<close>

fun last_index :: "string \<Rightarrow> char \<Rightarrow> nat option" where
  "last_index [] c = None"
| "last_index (x # s) c =
     (case last_index s c of Some i \<Rightarrow> Some (Suc i) | None \<Rightarrow> if x = c then Some 0 else None)"

fun index_any :: "string \<Rightarrow> string \<Rightarrow> nat option" where
  "index_any [] cs = None"
| "index_any (x # s) cs = (if x \<in> set cs then Some 0 else map_option Suc (index_any s cs))"

fun split_on :: "char \<Rightarrow> string \<Rightarrow> string list" where
  "split_on c [] = [[]]"
| "split_on c (x # s) =
     (if x = c then [] # split_on c s
      else (case split_on c s of y # ys \<Rightarrow> (x # y) # ys | [] \<Rightarrow> [[x]]))"

fun join :: "string \<Rightarrow> string list \<Rightarrow> string" where
  "join sep [] = []"
| "join sep [x] = x"
| "join sep (x # y # ys) = x @ sep @ join sep (y # ys)"

definition replace_byte :: "char \<Rightarrow> char \<Rightarrow> string \<Rightarrow> string" where
  "replace_byte a b s = map (\<lambda>c. if c = a then b else c) s"

definition trim_right_byte :: "char \<Rightarrow> string \<Rightarrow> string" where
  "trim_right_byte c s = rev (dropWhile (\<lambda>x. x = c) (rev s))"

definition trim_byte :: "char \<Rightarrow> string \<Rightarrow> string" where
  "trim_byte c s = trim_right_byte c (dropWhile (\<lambda>x. x = c) s)"

section \<open>\<open>strconv\<close>\<close>

fun nat_dec :: "nat \<Rightarrow> string" where
  "nat_dec n = (if n < 10 then [digit_c n] else nat_dec (n div 10) @ [digit_c (n mod 10)])"

declare nat_dec.simps [simp del]

text \<open>\<open>strconv.Itoa\<close>, which is also what \<open>%d\<close> prints.\<close>

definition itoa :: "int \<Rightarrow> string" where
  "itoa i = (if i < 0 then ''-'' @ nat_dec (nat (- i)) else nat_dec (nat i))"

datatype num_err = ErrSyntax | ErrRange

fun parse_uint :: "string \<Rightarrow> nat \<Rightarrow> num_err + nat" where
  "parse_uint [] n = Inr n"
| "parse_uint (c # s) n =
     (if \<not> is_digit_c c then Inl ErrSyntax
      else if 18446744073709551615 < n * 10 + (code c - 48) then Inl ErrRange
      else parse_uint s (n * 10 + (code c - 48)))"

text \<open>
  \<open>strconv.Atoi\<close> for a 64-bit \<open>int\<close>: the value, and the error if there is one. The program often
  drops the error and keeps the value, which is 0 after a syntax error and the nearest limit
  after a range error.
\<close>

definition atoi :: "string \<Rightarrow> int \<times> num_err option" where
  "atoi s =
     (let neg = has_prefix s ''-'';
          t = (if neg \<or> has_prefix s ''+'' then tl s else s)
      in if t = [] then (0, Some ErrSyntax)
         else (case parse_uint t 0 of
             Inl ErrSyntax \<Rightarrow> (0, Some ErrSyntax)
           | Inl ErrRange \<Rightarrow> (if neg then - (2 ^ 63) else 2 ^ 63 - 1, Some ErrRange)
           | Inr n \<Rightarrow>
               if \<not> neg \<and> 2 ^ 63 \<le> n then (2 ^ 63 - 1, Some ErrRange)
               else if neg \<and> 2 ^ 63 < n then (- (2 ^ 63), Some ErrRange)
               else (if neg then - int n else int n, None)))"

section \<open>\<open>path/filepath\<close> (Unix)\<close>

fun clean_comps :: "bool \<Rightarrow> string list \<Rightarrow> string list \<Rightarrow> string list" where
  "clean_comps r [] st = rev st"
| "clean_comps r (x # xs) st =
     (if x = '''' \<or> x = ''.'' then clean_comps r xs st
      else if x = ''..'' then
        (case st of
           y # ys \<Rightarrow> if y \<noteq> ''..'' then clean_comps r xs ys else clean_comps r xs (''..'' # st)
         | [] \<Rightarrow> if r then clean_comps r xs [] else clean_comps r xs [''..''])
      else clean_comps r xs (x # st))"

definition clean_path :: "string \<Rightarrow> string" where
  "clean_path p =
     (let r = has_prefix p ''/'';
          q = (if r then ''/'' else '''') @ join ''/'' (clean_comps r (split_on CHR ''/'' p) [])
      in if q = '''' then ''.'' else q)"

definition join_path :: "string list \<Rightarrow> string" where
  "join_path elems =
     (let es = dropWhile (\<lambda>e. e = '''') elems
      in if es = [] then '''' else clean_path (join ''/'' es))"

definition base_name :: "string \<Rightarrow> string" where
  "base_name p = rev (takeWhile (\<lambda>c. c \<noteq> CHR ''/'') (rev p))"

definition dir_name :: "string \<Rightarrow> string" where
  "dir_name p = clean_path (rev (dropWhile (\<lambda>c. c \<noteq> CHR ''/'') (rev p)))"

definition path_ext :: "string \<Rightarrow> string" where
  "path_ext p =
     (let b = takeWhile (\<lambda>c. c \<noteq> CHR ''/'') (rev p)
      in if CHR ''.'' \<in> set b then CHR ''.'' # rev (takeWhile (\<lambda>c. c \<noteq> CHR ''.'') b) else '''')"

definition is_abs :: "string \<Rightarrow> bool" where
  "is_abs p \<longleftrightarrow> has_prefix p ''/''"

end
