(* ===== verification/Go_Strings_Facts.thy ===== *)
theory Go_Strings_Facts
  imports Go_Strings
begin

text \<open>
  Facts about the Go library functions that the component proofs use: decimal numbers print and
  parse back, the ASCII case of the rune functions is byte-wise, splitting and joining are inverse,
  and a directory joined with a plain name keeps that name as its last element.
\<close>

section \<open>Decimal numbers\<close>

lemma nat_dec_digits: "list_all is_digit_c (nat_dec n)"
proof (induction n rule: nat_dec.induct)
  case (1 n)
  then show ?case by (subst nat_dec.simps) (simp del: One_nat_def)
qed

lemma nat_dec_nonempty [simp]: "nat_dec n \<noteq> []"
  by (subst nat_dec.simps) simp

lemma parse_uint_append:
  "parse_uint s n = Inr m \<Longrightarrow> parse_uint (s @ t) n = parse_uint t m"
  by (induction s n rule: parse_uint.induct) (auto split: if_splits)

lemma parse_uint_nat_dec:
  "n \<le> 18446744073709551615 \<Longrightarrow> parse_uint (nat_dec n) 0 = Inr n"
proof (induction n rule: nat_dec.induct)
  case (1 n)
  show ?case
  proof (cases "n < 10")
    case True
    then show ?thesis by (subst nat_dec.simps) simp
  next
    case False
    with 1 have "parse_uint (nat_dec (n div 10)) 0 = Inr (n div 10)" by simp
    from parse_uint_append [OF this] False "1.prems" show ?thesis
      by (subst nat_dec.simps) simp
  qed
qed

lemma digit_not_sign: "is_digit_c c \<Longrightarrow> c \<noteq> CHR ''-'' \<and> c \<noteq> CHR ''+''"
  by (auto simp: is_digit_c_def)

lemma nat_dec_hd: "is_digit_c (hd (nat_dec n))"
  using nat_dec_digits [of n] nat_dec_nonempty [of n] by (cases "nat_dec n") auto

lemma nat_dec_not_sign: "\<not> has_prefix (nat_dec n) ''-''" "\<not> has_prefix (nat_dec n) ''+''"
  using nat_dec_hd [of n] nat_dec_nonempty [of n]
  by (cases "nat_dec n"; auto simp: has_prefix_def dest: digit_not_sign)+

lemma atoi_itoa: "- (2 ^ 63) \<le> i \<Longrightarrow> i < 2 ^ 63 \<Longrightarrow> atoi (itoa i) = (i, None)"
  using parse_uint_nat_dec [of "nat i"] parse_uint_nat_dec [of "nat (- i)"]
  by (auto simp: atoi_def itoa_def nat_dec_not_sign) (auto simp: has_prefix_def Let_def)

lemma nat_dec_inj: "nat_dec m = nat_dec n \<Longrightarrow> m = n"
proof (induction m arbitrary: n rule: nat_dec.induct)
  case (1 m)
  have len: "length (nat_dec k) = 1 \<longleftrightarrow> k < 10" for k
    by (subst nat_dec.simps) simp
  show ?case
  proof (cases "m < 10")
    case True
    with len "1.prems" have "n < 10" by metis
    with True "1.prems" have "digit_c m = digit_c n"
      by (simp add: nat_dec.simps [of m] nat_dec.simps [of n])
    with True \<open>n < 10\<close> show ?thesis by (metis add_left_cancel code_digit_c)
  next
    case False
    with len "1.prems" have n: "\<not> n < 10" by metis
    with False "1.prems" have "nat_dec (m div 10) = nat_dec (n div 10)"
      and "digit_c (m mod 10) = digit_c (n mod 10)"
      by (simp_all add: nat_dec.simps [of m] nat_dec.simps [of n])
    with "1.IH" [OF False] have "m div 10 = n div 10" and "m mod 10 = n mod 10"
      by (blast, metis add_left_cancel code_digit_c mod_less_divisor zero_less_numeral)
    then show ?thesis by (metis div_mult_mod_eq)
  qed
qed

lemma itoa_inj: "itoa i = itoa j \<Longrightarrow> i = j"
proof -
  assume eq: "itoa i = itoa j"
  have neg: "has_prefix (itoa k) ''-'' \<longleftrightarrow> k < 0" for k
    by (simp add: itoa_def nat_dec_not_sign) (simp add: has_prefix_def)
  from eq neg have "i < 0 \<longleftrightarrow> j < 0" by metis
  with eq show "i = j" by (auto simp: itoa_def dest!: nat_dec_inj split: if_splits)
qed

lemma itoa_nonempty [simp]: "itoa i \<noteq> []"
  by (simp add: itoa_def)

lemma itoa_chars: "c \<in> set (itoa i) \<Longrightarrow> is_digit_c c \<or> c = CHR ''-''"
  using nat_dec_digits [of "nat i"] nat_dec_digits [of "nat (- i)"]
  by (auto simp: itoa_def list_all_iff split: if_splits)

lemma itoa_nat_digits: "0 \<le> i \<Longrightarrow> list_all is_digit_c (itoa i)"
  by (simp add: itoa_def nat_dec_digits)

lemma itoa_ascii: "all_ascii (itoa i)"
  by (auto simp: list_all_iff ascii_def is_digit_c_def dest!: itoa_chars)

lemma parse_uint_chars: "parse_uint s n = Inr m \<Longrightarrow> list_all is_digit_c s"
  by (induction s n rule: parse_uint.induct) (auto split: if_splits)

section \<open>Runes of ASCII text\<close>

lemma rune_lower_ascii: "r < 128 \<Longrightarrow> rune_lower u r < 128"
  by (simp add: rune_lower_def)

definition lower_c :: "char \<Rightarrow> char" where
  "lower_c c = (if is_upper_c c then char_of (code c + 32) else c)"

lemma to_lower_ascii: "all_ascii s \<Longrightarrow> to_lower u s = map lower_c s"
proof (induction s)
  case Nil
  then show ?case by (simp add: to_lower_def runes_def)
next
  case (Cons c s)
  from Cons.prems have c: "ascii c" and s: "all_ascii s" by simp_all
  from c have "encode_rune (rune_lower u (code c)) = [lower_c c]"
    by (auto simp: encode_rune_def rune_lower_def lower_c_def is_upper_c_def ascii_def)
  with Cons.IH [OF s] c show ?case
    by (simp add: to_lower_def runes_def tokens_ascii_Cons)
qed

lemma lower_c_ascii: "ascii c \<Longrightarrow> ascii (lower_c c)"
  by (auto simp: lower_c_def ascii_def is_upper_c_def)

lemma lower_c_idem [simp]: "lower_c (lower_c c) = lower_c c"
  by (auto simp: lower_c_def is_upper_c_def)

lemma rune_space_ascii: "ascii c \<Longrightarrow> rune_space (code c) \<longleftrightarrow> is_space_c c"
  by (auto simp: rune_space_def is_space_c_def ascii_def)

lemma trim_space_ascii:
  "all_ascii s \<Longrightarrow> trim_space s = rev (dropWhile is_space_c (rev (dropWhile is_space_c s)))"
proof -
  assume s: "all_ascii s"
  let ?f = "\<lambda>c. (code c, [c])" and ?sp = "\<lambda>t::nat \<times> string. rune_space (fst t)"
  have dw: "dropWhile ?sp (map ?f t) = map ?f (dropWhile is_space_c t)" if "all_ascii t" for t
    using that by (induction t) (auto simp: rune_space_ascii)
  have "trim_space s = concat (map snd (rev (dropWhile ?sp (rev (map ?f (dropWhile is_space_c s))))))"
    using s by (simp add: trim_space_def Let_def tokens_ascii dw)
  also have "\<dots> = concat (map snd (map ?f (rev (dropWhile is_space_c (rev (dropWhile is_space_c s))))))"
    using dw [of "rev (dropWhile is_space_c s)"] s
    by (simp add: rev_map list_all_dropWhile list_all_rev del: map_map)
  also have "\<dots> = rev (dropWhile is_space_c (rev (dropWhile is_space_c s)))"
    by (simp only: map_map comp_def snd_conv concat_map_singleton map_ident)
  finally show ?thesis .
qed

lemma trim_space_none:
  "all_ascii s \<Longrightarrow> list_all (\<lambda>c. \<not> is_space_c c) s \<Longrightarrow> trim_space s = s"
proof -
  assume a: "all_ascii s" and n: "list_all (\<lambda>c. \<not> is_space_c c) s"
  then have "dropWhile is_space_c s = s" "dropWhile is_space_c (rev s) = rev s"
    by (auto simp: list_all_iff hd_rev intro!: dropWhile_none)
  with a show ?thesis by (simp add: trim_space_ascii)
qed

section \<open>Splitting and joining\<close>

lemma split_on_nonempty [simp]: "split_on c s \<noteq> []"
  by (induction s) (auto split: list.splits)

lemma join_Cons: "ys \<noteq> [] \<Longrightarrow> join sep (x # ys) = x @ sep @ join sep ys"
  by (cases ys) auto

lemma join_split_on: "join [c] (split_on c s) = s"
proof (induction s)
  case Nil
  then show ?case by simp
next
  case (Cons x s)
  obtain y ys where "split_on c s = y # ys" by (cases "split_on c s") auto
  with Cons show ?case by (cases ys) auto
qed

lemma split_on_no_sep: "c \<notin> set s \<Longrightarrow> split_on c s = [s]"
  by (induction s) auto

lemma split_on_append_sep: "c \<notin> set s \<Longrightarrow> split_on c (s @ c # t) = s # split_on c t"
  by (induction s) auto

lemma split_on_join:
  "xs \<noteq> [] \<Longrightarrow> list_all (\<lambda>x. c \<notin> set x) xs \<Longrightarrow> split_on c (join [c] xs) = xs"
proof (induction xs rule: induct_list012)
  case (3 x y zs)
  then show ?case by (simp add: split_on_append_sep)
qed (simp_all add: split_on_no_sep)

lemma split_on_append:
  "split_on c (s @ c # t) = split_on c s @ split_on c t"
proof (induction s)
  case Nil
  then show ?case by simp
next
  case (Cons x s)
  obtain y ys where "split_on c s = y # ys" by (cases "split_on c s") auto
  with Cons show ?case by auto
qed

lemma split_on_parts: "x \<in> set (split_on c s) \<Longrightarrow> c \<notin> set x"
proof (induction s arbitrary: x)
  case (Cons a s)
  then show ?case by (cases "split_on c s") (auto split: if_splits)
qed simp

lemma join_append:
  "xs \<noteq> [] \<Longrightarrow> ys \<noteq> [] \<Longrightarrow> join sep (xs @ ys) = join sep xs @ sep @ join sep ys"
proof (induction xs rule: induct_list012)
  case (2 x)
  then show ?case by (cases ys) auto
next
  case (3 x y zs)
  then show ?case by simp
qed simp

section \<open>Fields\<close>

definition plain_field :: "string \<Rightarrow> bool" where
  "plain_field s \<longleftrightarrow> s \<noteq> [] \<and> list_all (\<lambda>c. ascii c \<and> \<not> is_space_c c) s"

lemma split_fields_plain:
  "list_all (\<lambda>c. ascii c \<and> \<not> is_space_c c) s \<Longrightarrow>
   split_fields (tokens s @ ts) cur = split_fields ts (cur @ s)"
  by (induction s arbitrary: cur) (auto simp: tokens_ascii_Cons rune_space_ascii)

lemma fields_join:
  "list_all plain_field xs \<Longrightarrow> string_fields (join '' '' xs) = xs"
proof -
  have "split_fields (tokens (join '' '' xs)) [] = xs" if "list_all plain_field xs"
    using that
  proof (induction xs rule: induct_list012)
    case (2 x)
    then show ?case
      using split_fields_plain [of x "[]" "[]"] by (auto simp: plain_field_def)
  next
    case (3 x y zs)
    let ?r = "join '' '' (y # zs)"
    from 3 have x: "all_ascii x" "x \<noteq> []" "list_all (\<lambda>c. ascii c \<and> \<not> is_space_c c) x"
      by (auto simp: plain_field_def list_all_iff)
    have "tokens (join '' '' (x # y # zs)) = tokens x @ (32, '' '') # tokens ?r"
      using x by (simp add: tokens_ascii_append tokens_ascii_Cons ascii_def)
    with x 3 show ?case
      by (simp add: split_fields_plain rune_space_def)
  qed simp
  then show "list_all plain_field xs \<Longrightarrow> string_fields (join '' '' xs) = xs"
    by (simp add: string_fields_def)
qed

lemma split_fields_no_space:
  "f \<in> set (split_fields ts cur) \<Longrightarrow> list_all (\<lambda>c. ascii c) cur \<Longrightarrow>
   list_all (\<lambda>c. \<not> is_space_c c) cur \<Longrightarrow>
   \<forall>(r, b) \<in> set ts. \<exists>c. ascii c \<and> r = code c \<and> b = [c] \<Longrightarrow>
   plain_field f"
proof (induction ts cur rule: split_fields.induct)
  case (1 cur)
  then show ?case by (auto simp: plain_field_def list_all_iff split: if_splits)
next
  case (2 r b ts cur)
  from "2.prems"(4) obtain c where c: "ascii c" "r = code c" "b = [c]" by auto
  show ?case
  proof (cases "is_space_c c")
    case True
    with c have sp: "rune_space r" by (simp add: rune_space_ascii)
    with "2.prems"(1) consider "f = cur" "cur \<noteq> []" | "f \<in> set (split_fields ts [])"
      by (auto split: if_splits)
    then show ?thesis
    proof cases
      case 1
      with "2.prems"(2,3) show ?thesis by (simp add: plain_field_def list_all_iff)
    next
      case 2
      with "2.IH"(1,2) sp "2.prems"(4) show ?thesis by (cases "cur = []") simp_all
    qed
  next
    case False
    with c have sp: "\<not> rune_space r" by (simp add: rune_space_ascii)
    with "2.prems"(1) have "f \<in> set (split_fields ts (cur @ b))" by simp
    with "2.IH"(3) sp "2.prems"(2,3,4) c False show ?thesis by simp
  qed
qed

lemma fields_plain: "all_ascii s \<Longrightarrow> f \<in> set (string_fields s) \<Longrightarrow> plain_field f"
  unfolding string_fields_def
  by (rule split_fields_no_space [where ts = "tokens s" and cur = "[]"])
     (auto simp: tokens_ascii list_all_iff)

section \<open>Substrings\<close>

lemma has_prefix_iff: "has_prefix s p \<longleftrightarrow> (\<exists>t. s = p @ t)"
  by (auto simp: has_prefix_def) (metis append_take_drop_id)

lemma index_of_Some: "index_of s sub = Some i \<Longrightarrow> \<exists>t. s = take i s @ sub @ t \<and> i \<le> length s"
  by (induction s arbitrary: i) (auto simp: has_prefix_iff split: if_splits)

lemma index_of_None: "index_of s sub = None \<longleftrightarrow> (\<nexists>u t. s = u @ sub @ t)"
proof (induction s)
  case Nil
  then show ?case by auto
next
  case (Cons c s)
  have "(\<exists>u t. c # s = u @ sub @ t) \<longleftrightarrow> has_prefix (c # s) sub \<or> (\<exists>u t. s = u @ sub @ t)"
    by (auto simp: has_prefix_iff) (metis append_eq_Cons_conv append_Cons)+
  with Cons show ?case by auto
qed

lemma contains_iff: "contains s sub \<longleftrightarrow> (\<exists>u t. s = u @ sub @ t)"
  using index_of_None [of s sub] by (auto simp: contains_def)

lemma last_index_None: "last_index s c = None \<longleftrightarrow> c \<notin> set s"
  by (induction s) (auto split: option.splits)

lemma last_index_append: "c \<notin> set t \<Longrightarrow> last_index (s @ c # t) c = Some (length s)"
  by (induction s) (auto simp: last_index_None split: option.splits)

section \<open>Paths\<close>

definition plain_name :: "string \<Rightarrow> bool" where
  "plain_name n \<longleftrightarrow> n \<noteq> '''' \<and> n \<noteq> ''.'' \<and> n \<noteq> ''..'' \<and> CHR ''/'' \<notin> set n"

lemma clean_comps_snoc:
  "plain_name n \<Longrightarrow> clean_comps r (xs @ [n]) st = clean_comps r xs st @ [n]"
  by (induction r xs st rule: clean_comps.induct) (auto simp: plain_name_def split: list.splits)

lemma clean_path_snoc:
  assumes "plain_name n"
  shows "\<exists>q. clean_path (d @ ''/'' @ n) = q @ n \<and> (q = [] \<or> last q = CHR ''/'')"
proof -
  let ?r = "has_prefix (d @ ''/'' @ n) ''/''" and ?c = "\<lambda>r. clean_comps r (split_on CHR ''/'' d) []"
  have n: "n \<noteq> []" "CHR ''/'' \<notin> set n" using assms by (auto simp: plain_name_def)
  have split: "split_on CHR ''/'' (d @ ''/'' @ n) = split_on CHR ''/'' d @ [n]"
    using n by (simp add: split_on_append split_on_no_sep)
  have eq: "clean_path (d @ ''/'' @ n)
      = (if ?r then ''/'' else '''') @ join ''/'' (?c ?r @ [n])"
    unfolding clean_path_def split Let_def
    using n by (cases "?c ?r") (auto simp: clean_comps_snoc [OF assms] join_append join_Cons)
  show ?thesis
  proof (cases "?c ?r = []")
    case True
    with eq show ?thesis by (cases ?r) (auto intro: exI [of _ "''/''"])
  next
    case False
    with eq show ?thesis
      by (intro exI [of _ "(if ?r then ''/'' else '''') @ join ''/'' (?c ?r) @ ''/''"])
         (simp add: join_append)
  qed
qed

lemma base_name_append:
  assumes n: "CHR ''/'' \<notin> set n" and q: "q = [] \<or> last q = CHR ''/''"
  shows "base_name (q @ n) = n"
proof -
  have tw: "takeWhile (\<lambda>c. c \<noteq> CHR ''/'') (rev n @ t) = rev n @ takeWhile (\<lambda>c. c \<noteq> CHR ''/'') t" for t
    using n by (intro takeWhile_append2) auto
  have "takeWhile (\<lambda>c. c \<noteq> CHR ''/'') (rev q) = []"
    using q by (cases q rule: rev_cases) auto
  then show ?thesis by (simp add: base_name_def tw)
qed

lemma base_name_join: "plain_name n \<Longrightarrow> base_name (join_path [d, n]) = n"
proof -
  assume n: "plain_name n"
  show ?thesis
  proof (cases "d = ''''")
    case True
    have "clean_path n = n"
      using n by (auto simp: clean_path_def plain_name_def split_on_no_sep has_prefix_iff)
    with True n show ?thesis
      using base_name_append [of n "[]"] by (auto simp: join_path_def plain_name_def)
  next
    case False
    then have "join_path [d, n] = clean_path (d @ ''/'' @ n)" by (simp add: join_path_def)
    moreover obtain q where "clean_path (d @ ''/'' @ n) = q @ n" "q = [] \<or> last q = CHR ''/''"
      using clean_path_snoc [OF n, of d] by blast
    ultimately show ?thesis using base_name_append n by (auto simp: plain_name_def)
  qed
qed

lemma join_path_inj: "plain_name m \<Longrightarrow> plain_name n \<Longrightarrow> join_path [d, m] = join_path [d, n] \<Longrightarrow> m = n"
  by (metis base_name_join)

end
