(* ===== verification/Os_World.thy ===== *)
theory Os_World
  imports Go_Strings_Facts
begin

text \<open>
  The operating system as the program sees it. The state is the record \<open>world\<close>: the files, the
  commands that were run, the TCP addresses that are bound and the lines printed. Everything the
  program does not decide is the parameter \<open>os_env\<close>: environment variables, the clock, which
  calls fail, and what external commands answer and do to the files. Each of them is a function of
  \<open>tick\<close>, the number of calls made so far, so a theorem over every \<open>os_env\<close> holds for faults and
  answers that change over time. A call that the system refuses leaves the files alone; a write may
  also be \<open>Torn\<close>, failing after some bytes, and so may the listing of a directory, after some names.
\<close>

datatype goos = Linux | Darwin

datatype node = FileNode nat string | DirNode nat | SockNode nat

type_synonym fs = "(string \<times> node) list"

datatype os_err = ENotExist | EOther

datatype fs_op = OpRead | OpWrite | OpAppend | OpRemove | OpRemoveAll | OpMkdir | OpReadDir | OpChmod | OpStat | OpListen

datatype fault = Fine | Refused | Torn nat

record os_env =
  platform :: goos
  env_var :: "string \<Rightarrow> string"
  fault_at :: "nat \<Rightarrow> fs_op \<Rightarrow> string \<Rightarrow> fault"
  shell :: "nat \<Rightarrow> string list \<Rightarrow> string \<Rightarrow> fs \<Rightarrow> bool \<times> string \<times> fs"
  look_path :: "nat \<Rightarrow> string \<Rightarrow> string option"
  proc_file :: "nat \<Rightarrow> string \<Rightarrow> string option"
  bind_refused :: "nat \<Rightarrow> string \<Rightarrow> int \<Rightarrow> bool"
  ephemeral :: "nat \<Rightarrow> string \<Rightarrow> int"
  map_order :: "nat \<Rightarrow> int list \<Rightarrow> int list"
  clock :: "nat \<Rightarrow> int"
  unicode_tables :: unicode

record world =
  files :: fs
  tick :: nat
  ran :: "(string list \<times> string) list"
  bound :: "(string \<times> int) list"
  printed :: "string list"

abbreviation ticked :: "world \<Rightarrow> world" where
  "ticked w \<equiv> w\<lparr>tick := Suc (tick w)\<rparr>"

abbreviation node_at :: "world \<Rightarrow> string \<Rightarrow> node option" where
  "node_at w p \<equiv> map_of (files w) p"

text \<open>The permission bits the program uses, written in octal in the source.\<close>

abbreviation mode_755 :: nat where "mode_755 \<equiv> 493"
abbreviation mode_700 :: nat where "mode_700 \<equiv> 448"
abbreviation mode_644 :: nat where "mode_644 \<equiv> 420"
abbreviation mode_600 :: nat where "mode_600 \<equiv> 384"

section \<open>File calls\<close>

definition read_file :: "os_env \<Rightarrow> string \<Rightarrow> world \<Rightarrow> (os_err + string) \<times> world" where
  "read_file e p w =
     (case fault_at e (tick w) OpRead p of
        Fine \<Rightarrow> (case node_at w p of
            Some (FileNode m c) \<Rightarrow> Inr c
          | Some _ \<Rightarrow> Inl EOther
          | None \<Rightarrow> Inl ENotExist)
      | _ \<Rightarrow> Inl EOther,
      ticked w)"

text \<open>
  \<open>os.WriteFile\<close>: the mode counts only when the file is created, for which its directory must exist.
  What a failed write leaves is a beginning of the new content.
\<close>

definition is_dir :: "world \<Rightarrow> string \<Rightarrow> bool" where
  "is_dir w p \<longleftrightarrow> (case node_at w p of Some (DirNode _) \<Rightarrow> True | _ \<Rightarrow> False)"

definition has_parent :: "world \<Rightarrow> string \<Rightarrow> bool" where
  "has_parent w p \<longleftrightarrow> list_ex (\<lambda>d. is_dir w d \<and> join_path [d, base_name p] = p) (map fst (files w))"

definition put_file :: "string \<Rightarrow> string \<Rightarrow> nat \<Rightarrow> world \<Rightarrow> os_err option \<times> world" where
  "put_file p c mode w =
     (case node_at w p of
        Some (FileNode m _) \<Rightarrow> (None, w\<lparr>files := AList.update p (FileNode m c) (files w)\<rparr>)
      | None \<Rightarrow>
          if has_parent w p then (None, w\<lparr>files := AList.update p (FileNode mode c) (files w)\<rparr>)
          else (Some ENotExist, w)
      | Some _ \<Rightarrow> (Some EOther, w))"

definition write_file :: "os_env \<Rightarrow> string \<Rightarrow> string \<Rightarrow> nat \<Rightarrow> world \<Rightarrow> os_err option \<times> world" where
  "write_file e p c mode w =
     (case fault_at e (tick w) OpWrite p of
        Fine \<Rightarrow> put_file p c mode (ticked w)
      | Refused \<Rightarrow> (Some EOther, ticked w)
      | Torn n \<Rightarrow> (Some EOther, snd (put_file p (take n c) mode (ticked w))))"

text \<open>Opening with \<open>O_APPEND|O_CREATE\<close> and writing at the end.\<close>

definition append_file :: "os_env \<Rightarrow> string \<Rightarrow> string \<Rightarrow> nat \<Rightarrow> world \<Rightarrow> os_err option \<times> world" where
  "append_file e p c mode w =
     (let old = (case node_at w p of Some (FileNode m d) \<Rightarrow> d | _ \<Rightarrow> '''') in
      case fault_at e (tick w) OpAppend p of
        Fine \<Rightarrow> put_file p (old @ c) mode (ticked w)
      | Refused \<Rightarrow> (Some EOther, ticked w)
      | Torn n \<Rightarrow> (Some EOther, snd (put_file p (old @ take n c) mode (ticked w))))"

definition is_empty_dir :: "fs \<Rightarrow> string \<Rightarrow> bool" where
  "is_empty_dir f p \<longleftrightarrow> \<not> list_ex (\<lambda>(k, _). has_prefix k (p @ ''/'')) f"

definition remove_file :: "os_env \<Rightarrow> string \<Rightarrow> world \<Rightarrow> os_err option \<times> world" where
  "remove_file e p w =
     (case fault_at e (tick w) OpRemove p of
        Fine \<Rightarrow> (case node_at w p of
            None \<Rightarrow> (Some ENotExist, ticked w)
          | Some (DirNode m) \<Rightarrow>
              if is_empty_dir (files w) p
              then (None, (ticked w)\<lparr>files := AList.delete p (files w)\<rparr>) else (Some EOther, ticked w)
          | Some _ \<Rightarrow> (None, (ticked w)\<lparr>files := AList.delete p (files w)\<rparr>))
      | _ \<Rightarrow> (Some EOther, ticked w))"

definition remove_all :: "os_env \<Rightarrow> string \<Rightarrow> world \<Rightarrow> os_err option \<times> world" where
  "remove_all e p w =
     (case fault_at e (tick w) OpRemoveAll p of
        Fine \<Rightarrow> (None, (ticked w)\<lparr>files :=
            filter (\<lambda>(k, _). \<not> (k = p \<or> has_prefix k (p @ ''/''))) (files w)\<rparr>)
      | _ \<Rightarrow> (Some EOther, ticked w))"

definition stat_path :: "os_env \<Rightarrow> string \<Rightarrow> world \<Rightarrow> os_err option \<times> world" where
  "stat_path e p w =
     (case fault_at e (tick w) OpStat p of
        Fine \<Rightarrow> (case node_at w p of None \<Rightarrow> Some ENotExist | Some _ \<Rightarrow> None)
      | _ \<Rightarrow> Some EOther,
      ticked w)"

fun set_mode :: "nat \<Rightarrow> node \<Rightarrow> node" where
  "set_mode m (FileNode _ c) = FileNode m c"
| "set_mode m (DirNode _) = DirNode m"
| "set_mode m (SockNode _) = SockNode m"

definition chmod_path :: "os_env \<Rightarrow> string \<Rightarrow> nat \<Rightarrow> world \<Rightarrow> os_err option \<times> world" where
  "chmod_path e p m w =
     (case fault_at e (tick w) OpChmod p of
        Fine \<Rightarrow> (case node_at w p of
            None \<Rightarrow> (Some ENotExist, ticked w)
          | Some n \<Rightarrow> (None, (ticked w)\<lparr>files := AList.update p (set_mode m n) (files w)\<rparr>))
      | _ \<Rightarrow> (Some EOther, ticked w))"

text \<open>\<open>os.MkdirAll\<close>: every missing component, from the root down, with the given mode.\<close>

definition ancestors :: "string \<Rightarrow> string list" where
  "ancestors p = map (\<lambda>i. take i p) (filter (\<lambda>i. p ! i = CHR ''/'') [1..<length p])"

fun mkdir_each :: "os_env \<Rightarrow> nat \<Rightarrow> string list \<Rightarrow> world \<Rightarrow> os_err option \<times> world" where
  "mkdir_each e mode [] w = (None, w)"
| "mkdir_each e mode (p # ps) w =
     (case node_at w p of
        Some (DirNode m) \<Rightarrow> mkdir_each e mode ps w
      | Some _ \<Rightarrow> (Some EOther, w)
      | None \<Rightarrow>
          (case fault_at e (tick w) OpMkdir p of
             Fine \<Rightarrow> mkdir_each e mode ps
               ((ticked w)\<lparr>files := AList.update p (DirNode mode) (files w)\<rparr>)
           | _ \<Rightarrow> (Some EOther, ticked w)))"

definition mkdir_all :: "os_env \<Rightarrow> string \<Rightarrow> nat \<Rightarrow> world \<Rightarrow> os_err option \<times> world" where
  "mkdir_all e p mode w = mkdir_each e mode (ancestors p @ [p]) w"

text \<open>
  \<open>os.ReadDir\<close>: the names in a directory, sorted as Go sorts them, byte by byte, and an error; beside
  the error there may be the names read before it.
\<close>

definition dir_names :: "fs \<Rightarrow> string \<Rightarrow> string list" where
  "dir_names f d =
     sort (map base_name (filter (\<lambda>k. base_name k \<noteq> '''' \<and> join_path [d, base_name k] = k)
       (map fst f)))"

definition read_dir :: "os_env \<Rightarrow> string \<Rightarrow> world \<Rightarrow> (string list \<times> os_err option) \<times> world" where
  "read_dir e d w =
     (case fault_at e (tick w) OpReadDir d of
        Fine \<Rightarrow> (case node_at w d of
            Some (DirNode m) \<Rightarrow> (dir_names (files w) d, None)
          | Some _ \<Rightarrow> ([], Some EOther)
          | None \<Rightarrow> ([], Some ENotExist))
      | Refused \<Rightarrow> ([], Some EOther)
      | Torn n \<Rightarrow> (if is_dir w d then dir_names (take n (files w)) d else [], Some EOther),
      ticked w)"

section \<open>Commands, output and environment\<close>

text \<open>\<open>exec.Command(argv).Run()\<close> with text on standard input: success, and the combined output.\<close>

definition run_cmd :: "os_env \<Rightarrow> string list \<Rightarrow> string \<Rightarrow> world \<Rightarrow> (bool \<times> string) \<times> world" where
  "run_cmd e argv stdin w =
     (case shell e (tick w) argv stdin (files w) of
        (ok, out, f) \<Rightarrow> ((ok, out), (ticked w)\<lparr>files := f, ran := ran w @ [(argv, stdin)]\<rparr>))"

text \<open>Files under \<open>/proc\<close> are answers of the kernel, not stored files.\<close>

definition read_proc :: "os_env \<Rightarrow> string \<Rightarrow> world \<Rightarrow> string option \<times> world" where
  "read_proc e p w = (proc_file e (tick w) p, ticked w)"

definition find_exe :: "os_env \<Rightarrow> string \<Rightarrow> world \<Rightarrow> string option \<times> world" where
  "find_exe e name w = (look_path e (tick w) name, ticked w)"

text \<open>
  The keys of a map with integer keys in the order Go ranges over them, which is any permutation:
  the environment proposes one, and what is no permutation is not taken.
\<close>

definition range_keys :: "os_env \<Rightarrow> world \<Rightarrow> int list \<Rightarrow> int list" where
  "range_keys e w ks =
     (let o1 = map_order e (tick w) ks in if mset o1 = mset ks then o1 else ks)"

definition say :: "string \<Rightarrow> world \<Rightarrow> world" where
  "say s w = w\<lparr>printed := printed w @ [s]\<rparr>"

definition time_now :: "os_env \<Rightarrow> world \<Rightarrow> int \<times> world" where
  "time_now e w = (clock e (tick w), ticked w)"

text \<open>\<open>os.UserHomeDir\<close> and \<open>os.UserConfigDir\<close>, \<open>None\<close> for an error.\<close>

definition user_home_dir :: "os_env \<Rightarrow> string option" where
  "user_home_dir e = (let h = env_var e ''HOME'' in if h = '''' then None else Some h)"

definition user_config_dir :: "os_env \<Rightarrow> string option" where
  "user_config_dir e =
     (case platform e of
        Darwin \<Rightarrow>
          (let h = env_var e ''HOME''
           in if h = '''' then None else Some (h @ ''/Library/Application Support''))
      | Linux \<Rightarrow>
          (let d = env_var e ''XDG_CONFIG_HOME'' in
           if d = '''' then
             (let h = env_var e ''HOME'' in if h = '''' then None else Some (h @ ''/.config''))
           else if \<not> is_abs d then None
           else Some d))"

text \<open>An environment where every call succeeds and commands leave the files alone, for examples.\<close>

definition calm_env :: "goos \<Rightarrow> os_env" where
  "calm_env g =
     \<lparr>platform = g, env_var = (\<lambda>v. if v = ''HOME'' then ''/h'' else ''''), fault_at = (\<lambda>_ _ _. Fine),
      shell = (\<lambda>_ _ _ f. (True, '''', f)), look_path = (\<lambda>_ _. None), proc_file = (\<lambda>_ _. None),
      bind_refused = (\<lambda>_ _ _. False), ephemeral = (\<lambda>_ _. 40000), map_order = (\<lambda>_. id),
      clock = int,
      unicode_tables = demo_u\<rparr>"

definition dir_world :: "string \<Rightarrow> world" where
  "dir_world d = \<lparr>files = [(d, DirNode mode_755)], tick = 0, ran = [], bound = [], printed = []\<rparr>"

section \<open>What the calls do to the state\<close>

abbreviation distinct_paths :: "world \<Rightarrow> bool" where
  "distinct_paths w \<equiv> distinct (map fst (files w))"

text \<open>
  Calls that read: they change neither the bound addresses nor the output, and no file either, if
  the commands that are run change none.
\<close>

definition shell_quiet :: "os_env \<Rightarrow> bool" where
  "shell_quiet e \<longleftrightarrow> (\<forall>t a i f. snd (snd (shell e t a i f)) = f)"

definition quietly :: "os_env \<Rightarrow> world \<Rightarrow> world \<Rightarrow> bool" where
  "quietly e w w' \<longleftrightarrow> bound w' = bound w \<and> printed w' = printed w \<and> (shell_quiet e \<longrightarrow> files w' = files w)"

lemma quietly_refl [simp]: "quietly e w w" "quietly e w (ticked w)"
  by (simp_all add: quietly_def)

lemma quietly_trans: "quietly e w w1 \<Longrightarrow> quietly e w1 w2 \<Longrightarrow> quietly e w w2"
  by (simp add: quietly_def)

lemma run_cmd_quietly: "run_cmd e argv i w = (r, w') \<Longrightarrow> quietly e w w'"
proof -
  assume r: "run_cmd e argv i w = (r, w')"
  obtain ok out f where s: "shell e (tick w) argv i (files w) = (ok, out, f)"
    by (cases "shell e (tick w) argv i (files w)") auto
  then have "shell_quiet e \<Longrightarrow> f = files w" unfolding shell_quiet_def by (metis snd_conv)
  with r s show ?thesis by (auto simp: run_cmd_def quietly_def)
qed

lemma mset_range_keys: "mset (range_keys e w ks) = mset ks"
  by (simp add: range_keys_def Let_def)

lemma set_range_keys [simp]: "set (range_keys e w ks) = set ks"
  using mset_range_keys by (rule mset_eq_setD)

lemma distinct_range_keys [simp]: "distinct (range_keys e w ks) \<longleftrightarrow> distinct ks"
  using mset_range_keys by (rule mset_eq_imp_distinct_iff)

lemma tick_self [simp]: "\<exists>k. w = w\<lparr>tick := k\<rparr>"
  by (rule exI [of _ "tick w"]) simp

lemma put_file_None:
  "put_file p c mode w = (None, w') \<Longrightarrow>
   \<exists>m. w' = w\<lparr>files := AList.update p (FileNode m c) (files w)\<rparr>
     \<and> (case node_at w p of None \<Rightarrow> m = mode | Some n \<Rightarrow> \<exists>c'. n = FileNode m c')"
  by (auto simp: put_file_def split: option.splits node.splits if_splits)

lemma write_file_None:
  "write_file e p c mode w = (None, w') \<Longrightarrow>
   \<exists>m. w' = (ticked w)\<lparr>files := AList.update p (FileNode m c) (files w)\<rparr>"
  by (auto simp: write_file_def split: fault.splits dest!: put_file_None)

lemma write_file_frame: "q \<noteq> p \<Longrightarrow> node_at (snd (write_file e p c mode w)) q = node_at w q"
  by (auto simp: write_file_def put_file_def split: fault.splits option.splits node.splits if_splits)

lemma remove_file_frame: "q \<noteq> p \<Longrightarrow> node_at (snd (remove_file e p w)) q = node_at w q"
  by (auto simp: remove_file_def split: fault.splits option.splits node.splits)

lemma remove_file_None:
  "remove_file e p w = (None, w') \<Longrightarrow> node_at w' p = None"
  by (auto simp: remove_file_def split: fault.splits option.splits node.splits if_splits)

lemma remove_file_ENotExist:
  "remove_file e p w = (Some ENotExist, w') \<Longrightarrow> w' = ticked w \<and> node_at w p = None"
  by (auto simp: remove_file_def split: fault.splits option.splits node.splits if_splits)

lemma read_file_world [simp]: "snd (read_file e p w) = ticked w"
  by (simp add: read_file_def)

lemma read_dir_world [simp]: "snd (read_dir e d w) = ticked w"
  by (simp add: read_dir_def)

lemma mkdir_each_other:
  "mkdir_each e mode ps w = (r, w') \<Longrightarrow>
   bound w' = bound w \<and> ran w' = ran w \<and> printed w' = printed w"
  by (induction e mode ps w rule: mkdir_each.induct)
     (auto split: option.splits node.splits fault.splits)

lemma mkdir_each_keeps:
  "mkdir_each e mode ps w = (r, w') \<Longrightarrow> node_at w q \<noteq> None \<Longrightarrow> node_at w' q = node_at w q"
proof (induction e mode ps w rule: mkdir_each.induct)
  case (2 e mode p ps w)
  then show ?case
    by (cases "q = p") (auto split: option.splits node.splits fault.splits)
qed auto

lemma mkdir_each_file:
  "mkdir_each e mode ps w = (r, w') \<Longrightarrow>
   node_at w' q = Some (FileNode m c) \<longleftrightarrow> node_at w q = Some (FileNode m c)"
proof (induction e mode ps w rule: mkdir_each.induct)
  case (2 e mode p ps w)
  then show ?case
    by (cases "q = p") (auto split: option.splits node.splits fault.splits)
qed auto

lemma mkdir_each_dirs:
  "mkdir_each e mode ps w = (None, w') \<Longrightarrow> p \<in> set ps \<Longrightarrow> \<exists>m. node_at w' p = Some (DirNode m)"
proof (induction e mode ps w rule: mkdir_each.induct)
  case (2 e mode p' ps w)
  from "2.prems"(1) consider
      (there) m where "node_at w p' = Some (DirNode m)" "mkdir_each e mode ps w = (None, w')"
    | (made) "node_at w p' = None" "fault_at e (tick w) OpMkdir p' = Fine"
        "mkdir_each e mode ps ((ticked w)\<lparr>files := AList.update p' (DirNode mode) (files w)\<rparr>) = (None, w')"
    by (auto split: option.splits node.splits fault.splits)
  then show ?case
  proof cases
    case there
    then have "node_at w' p' = Some (DirNode m)" using mkdir_each_keeps [OF there(2), of p'] by simp
    with there "2.IH"(2) [OF there(1) refl there(2)] "2.prems"(2) show ?thesis by auto
  next
    case made
    then have "node_at w' p' = Some (DirNode mode)" using mkdir_each_keeps [OF made(3), of p'] by simp
    with made "2.IH"(1) [OF made(1) made(2) made(3)] "2.prems"(2) show ?thesis by auto
  qed
qed simp

lemma mkdir_all_dir: "mkdir_all e p mode w = (None, w') \<Longrightarrow> \<exists>m. node_at w' p = Some (DirNode m)"
  unfolding mkdir_all_def by (erule mkdir_each_dirs) simp

lemma mkdir_all_file:
  "mkdir_all e p mode w = (r, w') \<Longrightarrow>
   node_at w' q = Some (FileNode m c) \<longleftrightarrow> node_at w q = Some (FileNode m c)"
  unfolding mkdir_all_def by (rule mkdir_each_file)

lemma mkdir_each_distinct: "mkdir_each e mode ps w = (r, w') \<Longrightarrow> distinct_paths w \<Longrightarrow> distinct_paths w'"
  by (induction e mode ps w rule: mkdir_each.induct)
     (auto simp: distinct_update split: option.splits node.splits fault.splits)

lemma mkdir_all_other:
  "mkdir_all e p mode w = (r, w') \<Longrightarrow>
   bound w' = bound w \<and> ran w' = ran w \<and> printed w' = printed w \<and> (distinct_paths w \<longrightarrow> distinct_paths w')"
  unfolding mkdir_all_def using mkdir_each_other mkdir_each_distinct by blast

lemma mkdir_all_keeps: "mkdir_all e p mode w = (r, w') \<Longrightarrow> node_at w q \<noteq> None \<Longrightarrow> node_at w' q = node_at w q"
  unfolding mkdir_all_def by (rule mkdir_each_keeps)

definition dir_ready :: "world \<Rightarrow> string \<Rightarrow> bool" where
  "dir_ready w d \<longleftrightarrow>
     list_all (\<lambda>p. case node_at w p of Some (DirNode _) \<Rightarrow> True | _ \<Rightarrow> False) (ancestors d @ [d])"

lemma mkdir_all_ready: "dir_ready w d \<Longrightarrow> mkdir_all e d mode w = (None, w)"
proof -
  have "list_all (\<lambda>p. case node_at w p of Some (DirNode _) \<Rightarrow> True | _ \<Rightarrow> False) ps \<Longrightarrow>
      mkdir_each e mode ps w = (None, w)" for ps
    by (induction ps) (auto split: option.splits node.splits)
  then show "dir_ready w d \<Longrightarrow> ?thesis" by (simp add: dir_ready_def mkdir_all_def)
qed

definition all_fine :: "os_env \<Rightarrow> bool" where
  "all_fine e \<longleftrightarrow> (\<forall>t op p. fault_at e t op p = Fine)"

definition may_hold_file :: "world \<Rightarrow> string \<Rightarrow> bool" where
  "may_hold_file w p \<longleftrightarrow> (case node_at w p of None \<Rightarrow> True | Some (FileNode _ _) \<Rightarrow> True | _ \<Rightarrow> False)"

lemma is_dir_tick [simp]: "is_dir (w\<lparr>tick := k\<rparr>) d = is_dir w d"
  by (simp add: is_dir_def)

lemma has_parent_tick [simp]: "has_parent (w\<lparr>tick := k\<rparr>) p = has_parent w p"
  by (simp add: has_parent_def is_dir_def)

lemma write_file_fine:
  "all_fine e \<Longrightarrow> may_hold_file w p \<Longrightarrow> has_parent w p \<Longrightarrow>
   \<exists>k. write_file e p c mode w = (None, (ticked w)\<lparr>files := AList.update p (FileNode k c) (files w)\<rparr>)"
  by (auto simp: all_fine_def may_hold_file_def write_file_def put_file_def split: option.splits node.splits if_splits)

lemma has_parent_in: "is_dir w d \<Longrightarrow> plain_name n \<Longrightarrow> has_parent w (join_path [d, n])"
proof -
  assume d: "is_dir w d" and n: "plain_name n"
  then have "map_of (files w) d \<noteq> None" by (auto simp: is_dir_def split: option.splits)
  then have "d \<in> set (map fst (files w))" by (simp add: map_of_eq_None_iff)
  then show ?thesis unfolding has_parent_def list_ex_iff using d n by (auto simp: base_name_join)
qed

lemma is_dir_update: "is_dir w d \<Longrightarrow> may_hold_file w p \<Longrightarrow> files w' = AList.update p x (files w) \<Longrightarrow> is_dir w' d"
  by (auto simp: is_dir_def may_hold_file_def split: option.splits node.splits if_splits)

lemma is_dir_remove: "is_dir w d \<Longrightarrow> may_hold_file w p \<Longrightarrow> is_dir (snd (remove_file e p w)) d"
  by (auto simp: is_dir_def may_hold_file_def remove_file_def delete_conv'
      split: fault.splits option.splits node.splits if_splits)

lemma all_fine_reads: "all_fine e \<Longrightarrow> fault_at e t op p = Fine"
  by (simp add: all_fine_def)

lemma calm_fine: "all_fine (calm_env g)"
  by (simp add: all_fine_def calm_env_def)

lemma set_dir_names:
  "plain_name n \<Longrightarrow> n \<in> set (dir_names f d) \<longleftrightarrow> join_path [d, n] \<in> fst ` set f"
proof -
  assume n: "plain_name n"
  show ?thesis
  proof
    assume "n \<in> set (dir_names f d)"
    then have "\<exists>k \<in> fst ` set f. n = base_name k \<and> join_path [d, base_name k] = k"
      unfolding dir_names_def set_sort by (simp only: set_map set_filter) blast
    then obtain k where "k \<in> fst ` set f" "n = base_name k" "join_path [d, base_name k] = k" by blast
    then show "join_path [d, n] \<in> fst ` set f" by (simp only:)
  next
    assume k: "join_path [d, n] \<in> fst ` set f"
    have b: "base_name (join_path [d, n]) = n" using n by (rule base_name_join)
    have "n \<noteq> ''''" using n by (simp add: plain_name_def)
    with k b have "join_path [d, n] \<in> set (filter (\<lambda>k. base_name k \<noteq> '''' \<and>
        join_path [d, base_name k] = k) (map fst f))" by auto
    then have "base_name (join_path [d, n]) \<in> set (dir_names f d)"
      unfolding dir_names_def set_sort list.set_map [of base_name] by (rule imageI)
    with b show "n \<in> set (dir_names f d)" by simp
  qed
qed

end
