(* ===== verification/Setup_Lines.thy ===== *)
theory Setup_Lines
  imports Os_World
begin

text \<open>
  The line editing that \<open>setup_linux.go\<close> and \<open>setup_darwin.go\<close> share, and how they run commands and
  print. A file is edited as the list of its lines; a line is found by comparing trimmed texts.
\<close>

abbreviation newline :: string where "newline \<equiv> [CHR 0x0A]"

definition lines_of :: "string \<Rightarrow> string list" where
  "lines_of data = split_on CHR 0x0A data"

definition same_line :: "string \<Rightarrow> string \<Rightarrow> bool" where
  "same_line l line \<longleftrightarrow> trim_space l = trim_space line"

definition has_line :: "string \<Rightarrow> string \<Rightarrow> bool" where
  "has_line data line \<longleftrightarrow> list_ex (\<lambda>l. same_line l line) (lines_of data)"

definition drop_lines :: "string \<Rightarrow> string \<Rightarrow> string" where
  "drop_lines data line = join newline (filter (\<lambda>l. \<not> same_line l line) (lines_of data))"

text \<open>A command whose result the code ignores, several of them, and \<open>fmt.Println\<close>.\<close>

definition run_only :: "os_env \<Rightarrow> string list \<Rightarrow> world \<Rightarrow> world" where
  "run_only e argv w = snd (run_cmd e argv '''' w)"

fun run_each :: "os_env \<Rightarrow> string list list \<Rightarrow> world \<Rightarrow> world" where
  "run_each e [] w = w"
| "run_each e (argv # argvs) w = run_each e argvs (run_only e argv w)"

definition say_line :: "string \<Rightarrow> world \<Rightarrow> world" where
  "say_line s w = say (s @ newline) w"

fun say_lines :: "string list \<Rightarrow> world \<Rightarrow> world" where
  "say_lines [] w = w"
| "say_lines (s # ss) w = say_lines ss (say_line s w)"

text \<open>An error of the setup: one of the system's, a command that failed with its output, or a message.\<close>

datatype setup_error = SetupOs os_err | SetupCommand string string | SetupMessage string

definition check_cmd :: "os_env \<Rightarrow> string \<Rightarrow> string list \<Rightarrow> string \<Rightarrow> world \<Rightarrow> setup_error option \<times> world" where
  "check_cmd e what argv stdin w =
     (case run_cmd e argv stdin w of
        ((ok, out), w1) \<Rightarrow> (if ok then None else Some (SetupCommand what out), w1))"

section \<open>Lines\<close>

text \<open>What is appended for a line: a newline before it and one after it.\<close>

definition add_line :: "string \<Rightarrow> string \<Rightarrow> string" where
  "add_line data line = data @ newline @ line @ newline"

lemma lines_of_one: "CHR 0x0A \<notin> set l \<Longrightarrow> lines_of l = [l]"
  by (simp add: lines_of_def split_on_no_sep)

lemma lines_of_added:
  "CHR 0x0A \<notin> set l \<Longrightarrow> lines_of (add_line data l) = lines_of data @ [l, '''']"
  using split_on_append [of "CHR 0x0A" data "l @ newline"] split_on_append_sep [of "CHR 0x0A" l "''''"]
  by (simp add: lines_of_def add_line_def)

lemma has_line_added: "CHR 0x0A \<notin> set l \<Longrightarrow> has_line (add_line data l) l"
  by (simp add: has_line_def lines_of_added same_line_def)

lemma lines_of_drop:
  "filter (\<lambda>l. \<not> same_line l line) (lines_of data) \<noteq> [] \<Longrightarrow>
   lines_of (drop_lines data line) = filter (\<lambda>l. \<not> same_line l line) (lines_of data)"
  unfolding drop_lines_def lines_of_def
  by (rule split_on_join) (auto simp: list_all_iff dest: split_on_parts)

lemma lines_of_drop_none:
  "filter (\<lambda>l. \<not> same_line l line) (lines_of data) = [] \<Longrightarrow> lines_of (drop_lines data line) = ['''']"
  by (simp add: drop_lines_def lines_of_def)

lemma no_line_dropped: "trim_space line \<noteq> '''' \<Longrightarrow> \<not> has_line (drop_lines data line) line"
proof -
  assume t: "trim_space line \<noteq> ''''"
  have "trim_space '''' = ''''" by (simp add: trim_space_ascii)
  then show ?thesis
    using t lines_of_drop [of line data] lines_of_drop_none [of line data]
    by (cases "filter (\<lambda>l. \<not> same_line l line) (lines_of data) = []")
      (auto simp: has_line_def list_ex_iff same_line_def)
qed

text \<open>The content of a file: its lines but for the empty ones, which the edits do not keep track of.\<close>

definition content_of :: "string \<Rightarrow> string list" where
  "content_of data = filter (\<lambda>l. l \<noteq> '''') (lines_of data)"

lemma trim_empty [simp]: "trim_space '''' = ''''"
  by (simp add: trim_space_ascii)

lemma content_added:
  "CHR 0x0A \<notin> set l \<Longrightarrow> l \<noteq> '''' \<Longrightarrow> content_of (add_line data l) = content_of data @ [l]"
  by (simp add: content_of_def lines_of_added)

lemma content_dropped:
  "content_of (drop_lines data line) = filter (\<lambda>l. \<not> same_line l line) (content_of data)"
proof (cases "filter (\<lambda>l. \<not> same_line l line) (lines_of data) = []")
  case True
  then have "\<forall>l \<in> set (lines_of data). same_line l line" by (auto simp: filter_empty_conv)
  then have "filter (\<lambda>l. \<not> same_line l line) (content_of data) = []" by (auto simp: content_of_def filter_empty_conv)
  then show ?thesis by (simp add: content_of_def lines_of_drop_none [OF True])
next
  case False
  have "filter (\<lambda>l. l \<noteq> '''') (filter (\<lambda>l. \<not> same_line l line) (lines_of data))
      = filter (\<lambda>l. \<not> same_line l line) (filter (\<lambda>l. l \<noteq> '''') (lines_of data))"
    by (simp add: conj_commute)
  then show ?thesis by (simp add: content_of_def lines_of_drop [OF False])
qed

lemma has_line_content: "trim_space line \<noteq> '''' \<Longrightarrow> has_line data line \<longleftrightarrow> (\<exists>l \<in> set (content_of data). same_line l line)"
  by (auto simp: has_line_def content_of_def list_ex_iff same_line_def)

text \<open>Removing a line that was not there leaves the text as it was.\<close>

lemma drop_lines_absent: "\<not> has_line data line \<Longrightarrow> drop_lines data line = data"
proof -
  assume "\<not> has_line data line"
  then have "filter (\<lambda>l. \<not> same_line l line) (lines_of data) = lines_of data"
    by (auto simp: has_line_def list_ex_iff filter_id_conv)
  then show ?thesis by (simp add: drop_lines_def lines_of_def join_split_on)
qed

text \<open>Adding a line that was not there and removing it leaves the text with one newline more.\<close>

lemma drop_lines_added:
  assumes "\<not> has_line data line" "CHR 0x0A \<notin> set line" "trim_space line \<noteq> ''''"
  shows "drop_lines (add_line data line) line = data @ newline"
proof -
  have "trim_space '''' = ''''" by (simp add: trim_space_ascii)
  then have "filter (\<lambda>l. \<not> same_line l line) (lines_of (add_line data line)) = lines_of data @ ['''']"
    using assms by (auto simp: lines_of_added has_line_def list_ex_iff same_line_def filter_id_conv)
  then have "drop_lines (add_line data line) line = join newline (lines_of data @ [''''])"
    by (simp add: drop_lines_def)
  also have "\<dots> = data @ newline"
    using join_append [of "lines_of data" "['''']" newline] by (simp add: lines_of_def join_split_on)
  finally show ?thesis .
qed

end
