(* ===== verification/Go_Net.thy ===== *)
theory Go_Net
  imports Go_Strings_Facts
begin

text \<open>
  \<open>net.ParseIP\<close>, as the program uses it: only to tell whether a text is a well-formed IPv4 or IPv6
  address. The definitions follow \<open>net/netip\<close>'s parser (dotted decimal without leading zeros, or
  colon-separated hex groups with at most one \<open>::\<close> and an optional dotted tail; a zone makes
  \<open>ParseIP\<close> fail).
\<close>

fun v4_fields :: "string \<Rightarrow> nat \<Rightarrow> nat \<Rightarrow> nat \<Rightarrow> bool" where
  "v4_fields [] val digs pos = (pos = 3)"
| "v4_fields (c # s) val digs pos =
     (if is_digit_c c then
        (if digs = 1 \<and> val = 0 then False
         else let v = val * 10 + (code c - 48)
              in v \<le> 255 \<and> v4_fields s v (digs + 1) pos)
      else if c = CHR ''.'' then
        (if digs = 0 \<or> s = [] then False
         else if pos = 3 then False
         else v4_fields s 0 0 (pos + 1))
      else False)"

definition is_hex_c :: "char \<Rightarrow> bool" where
  "is_hex_c c \<longleftrightarrow>
     is_digit_c c \<or> 97 \<le> code c \<and> code c \<le> 102 \<or> 65 \<le> code c \<and> code c \<le> 70"

text \<open>The end of the parse: the whole text is used, and \<open>::\<close> stands for at least one group.\<close>

definition v6_finish :: "string \<Rightarrow> nat \<Rightarrow> bool \<Rightarrow> bool" where
  "v6_finish s i ell \<longleftrightarrow> s = [] \<and> (if i < 16 then ell else \<not> ell)"

function v6_loop :: "string \<Rightarrow> nat \<Rightarrow> bool \<Rightarrow> bool" where
  "v6_loop s i ell =
     (if 16 \<le> i then v6_finish s i ell
      else
        let off = length (takeWhile is_hex_c s); rest = drop off s in
        if off = 0 \<or> 4 < off then False
        else if rest = [] then v6_finish [] (i + 2) ell
        else if hd rest = CHR ''.'' then
          (if (\<not> ell \<and> i \<noteq> 12) \<or> 16 < i + 4 then False
           else v4_fields s 0 0 0 \<and> v6_finish [] (i + 4) ell)
        else if hd rest \<noteq> CHR '':'' \<or> tl rest = [] then False
        else if hd (tl rest) = CHR '':'' then
          (if ell then False
           else if tl (tl rest) = [] then v6_finish [] (i + 2) True
           else v6_loop (tl (tl rest)) (i + 2) True)
        else v6_loop (tl rest) (i + 2) ell)"
  by pat_completeness auto
termination
  by (relation "measure (\<lambda>(s, i, ell). 16 - i)") auto

declare v6_loop.simps [simp del]

definition parse_v6 :: "string \<Rightarrow> bool" where
  "parse_v6 s \<longleftrightarrow>
     (if CHR ''%'' \<in> set s then False
      else if has_prefix s ''::'' then drop 2 s = [] \<or> v6_loop (drop 2 s) 0 True
      else v6_loop s 0 False)"

text \<open>\<open>net.ParseIP(s) != nil\<close>.\<close>

definition parse_ip_ok :: "string \<Rightarrow> bool" where
  "parse_ip_ok s \<longleftrightarrow>
     (case find (\<lambda>c. c = CHR ''.'' \<or> c = CHR '':'' \<or> c = CHR ''%'') s of
        None \<Rightarrow> False
      | Some c \<Rightarrow>
          if c = CHR ''.'' then v4_fields s 0 0 0
          else if c = CHR '':'' then parse_v6 s
          else False)"

section \<open>An accepted text has only address characters\<close>

definition ip_char :: "char \<Rightarrow> bool" where
  "ip_char c \<longleftrightarrow> is_hex_c c \<or> c = CHR ''.'' \<or> c = CHR '':''"

lemma v4_fields_chars: "v4_fields s v d p \<Longrightarrow> list_all ip_char s"
  by (induction s v d p rule: v4_fields.induct)
     (auto simp: ip_char_def is_hex_c_def Let_def split: if_splits)

lemma hex_prefix_chars: "list_all ip_char (takeWhile is_hex_c s)"
  by (auto simp: list_all_iff ip_char_def dest: set_takeWhileD)

lemma v6_loop_chars: "v6_loop s i ell \<Longrightarrow> list_all ip_char s"
proof (induction s i ell rule: v6_loop.induct)
  case (1 s i ell)
  let ?off = "length (takeWhile is_hex_c s)"
  let ?rest = "drop ?off s"
  have s: "s = takeWhile is_hex_c s @ ?rest"
    by (metis takeWhile_eq_take append_take_drop_id)
  have cons: "?rest \<noteq> [] \<Longrightarrow> ?rest = hd ?rest # tl ?rest"
    and cons2: "tl ?rest \<noteq> [] \<Longrightarrow> tl ?rest = hd (tl ?rest) # tl (tl ?rest)" by simp_all
  have colon: "ip_char (CHR '':'')" by (simp add: ip_char_def)
  show ?case
  proof (cases "16 \<le> i \<or> ?rest = []")
    case True
    with "1.prems" s hex_prefix_chars [of s] show ?thesis
      by (auto simp: v6_loop.simps [of s] v6_finish_def)
  next
    case False
    show ?thesis
    proof (cases "hd ?rest = CHR ''.''")
      case True
      with False "1.prems" have "v4_fields s 0 0 0"
        by (auto simp: v6_loop.simps [of s] Let_def split: if_splits)
      then show ?thesis by (rule v4_fields_chars)
    next
      case no_dot: False
      with False "1.prems" have c: "hd ?rest = CHR '':''" "tl ?rest \<noteq> []"
        by (auto simp: v6_loop.simps [of s] Let_def split: if_splits)
      have "list_all ip_char (tl ?rest)"
      proof (cases "hd (tl ?rest) = CHR '':''")
        case True
        with False no_dot c "1.prems" have "tl (tl ?rest) = [] \<or> v6_loop (tl (tl ?rest)) (i + 2) True"
          by (auto simp: v6_loop.simps [of s] Let_def split: if_splits)
        with "1.IH"(1) [OF _ refl refl] False no_dot c True "1.prems"
        have "list_all ip_char (tl (tl ?rest))"
          by (auto simp: v6_loop.simps [of s] Let_def split: if_splits)
        with True cons2 [OF c(2)] colon show ?thesis by (metis list.pred_inject(2))
      next
        case no_colon: False
        with "1.IH"(2) [OF _ refl refl] False no_dot c "1.prems" show ?thesis
          by (auto simp: v6_loop.simps [of s] Let_def split: if_splits)
      qed
      with c(1) colon False cons have "list_all ip_char ?rest" by (metis list.pred_inject(2))
      with s hex_prefix_chars [of s] show ?thesis by (metis list_all_append)
    qed
  qed
qed

lemma parse_ip_ok_chars: "parse_ip_ok s \<Longrightarrow> s \<noteq> [] \<and> list_all ip_char s"
proof -
  assume ok: "parse_ip_ok s"
  then have "s \<noteq> []" by (auto simp: parse_ip_ok_def)
  moreover from ok consider "v4_fields s 0 0 0" | "parse_v6 s"
    by (auto simp: parse_ip_ok_def split: option.splits if_splits)
  then have "list_all ip_char s"
  proof cases
    case 1
    then show ?thesis by (rule v4_fields_chars)
  next
    case 2
    have "list_all ip_char ''::''" by (simp add: ip_char_def)
    with 2 show ?thesis
      by (auto simp: parse_v6_def has_prefix_iff dest!: v6_loop_chars split: if_splits)
  qed
  ultimately show ?thesis by blast
qed

lemma ip_char_ascii: "ip_char c \<Longrightarrow> ascii c \<and> \<not> is_space_c c"
  by (auto simp: ip_char_def is_hex_c_def class_defs)

section \<open>Printed addresses are accepted\<close>

lemma v4_fields_nat_dec:
  "n \<le> 255 \<Longrightarrow> v4_fields (nat_dec n @ t) 0 0 p = v4_fields t n (length (nat_dec n)) p"
proof (induction n arbitrary: t rule: nat_dec.induct)
  case (1 n)
  show ?case
  proof (cases "n < 10")
    case True
    then show ?thesis by (simp add: nat_dec.simps [of n])
  next
    case False
    then have nz: "n div 10 \<noteq> 0" by simp
    have v: "n div 10 * 10 + n mod 10 = n" by simp
    from False "1.prems" "1.IH" [OF False, of "digit_c (n mod 10) # t"]
    have "v4_fields (nat_dec (n div 10) @ digit_c (n mod 10) # t) 0 0 p
        = v4_fields (digit_c (n mod 10) # t) (n div 10) (length (nat_dec (n div 10))) p" by simp
    also have "\<dots> = v4_fields t n (Suc (length (nat_dec (n div 10)))) p"
      using nz v "1.prems" by (simp add: Let_def)
    finally show ?thesis using False by (simp add: nat_dec.simps [of n])
  qed
qed

lemma nat_dec_length_pos: "0 < length (nat_dec n)"
  by simp

lemma find_append_none: "find P (xs @ ys) = (case find P xs of None \<Rightarrow> find P ys | Some x \<Rightarrow> Some x)"
  by (induction xs) auto

lemma find_digits_none:
  "list_all is_digit_c s \<Longrightarrow> find (\<lambda>c. c = CHR ''.'' \<or> c = CHR '':'' \<or> c = CHR ''%'') s = None"
  by (auto simp: find_None_iff list_all_iff is_digit_c_def)

lemma parse_ip_ok_dotted:
  assumes "a \<le> 255" "b \<le> 255" "c \<le> 255" "d \<le> 255"
  shows "parse_ip_ok (nat_dec a @ ''.'' @ nat_dec b @ ''.'' @ nat_dec c @ ''.'' @ nat_dec d)"
proof -
  have dot: "\<not> is_digit_c (CHR ''.'')" by (simp add: is_digit_c_def)
  have "v4_fields (nat_dec a @ ''.'' @ nat_dec b @ ''.'' @ nat_dec c @ ''.'' @ nat_dec d) 0 0 0"
    using assms v4_fields_nat_dec [of d "[]" 3] by (simp add: v4_fields_nat_dec dot numeral_3_eq_3)
  then show ?thesis
    by (simp add: parse_ip_ok_def find_append_none find_digits_none nat_dec_digits)
qed

end
