(* ===== verification/Go_Regexp.thy ===== *)
theory Go_Regexp
  imports Go_Strings_Facts
begin

text \<open>
  The fragment of Go's \<open>regexp\<close> package that the program's patterns use: byte classes, sequence,
  greedy repetition, the word boundary \<open>\b\<close>, and the text anchors \<open>^\<close> and \<open>$\<close>. A match state is the
  byte before the position (\<open>None\<close> at the start of the text) and the rest of the text;
  \<open>rmatch\<close> lists the states after a match, in the order a leftmost-first engine prefers them.
  The patterns contain ASCII only, so matching bytes and matching runes agree.
\<close>

datatype re =
    Cls "char \<Rightarrow> bool"
  | Seq re re
  | Star re
  | Bnd
  | Bol
  | Eol

type_synonym mstate = "char option \<times> string"

definition word_c :: "char \<Rightarrow> bool" where
  "word_c c \<longleftrightarrow> is_letter_c c \<or> is_digit_c c \<or> c = CHR ''_''"

definition at_boundary :: "mstate \<Rightarrow> bool" where
  "at_boundary st \<longleftrightarrow>
     (case fst st of None \<Rightarrow> False | Some c \<Rightarrow> word_c c)
       \<noteq> (case snd st of [] \<Rightarrow> False | c # _ \<Rightarrow> word_c c)"

fun star_run :: "(mstate \<Rightarrow> mstate list) \<Rightarrow> nat \<Rightarrow> mstate \<Rightarrow> mstate list" where
  "star_run f 0 st = [st]"
| "star_run f (Suc n) st =
     concat (map (star_run f n) (filter (\<lambda>t. length (snd t) < length (snd st)) (f st))) @ [st]"

fun rmatch :: "re \<Rightarrow> mstate \<Rightarrow> mstate list" where
  "rmatch (Cls P) st =
     (case snd st of [] \<Rightarrow> [] | c # s \<Rightarrow> if P c then [(Some c, s)] else [])"
| "rmatch (Seq a b) st = concat (map (rmatch b) (rmatch a st))"
| "rmatch (Star a) st = star_run (rmatch a) (length (snd st)) st"
| "rmatch Bnd st = (if at_boundary st then [st] else [])"
| "rmatch Bol st = (if fst st = None then [st] else [])"
| "rmatch Eol st = (if snd st = [] then [st] else [])"

text \<open>\<open>MatchString\<close>: a match at some position.\<close>

fun re_search :: "re \<Rightarrow> char option \<Rightarrow> string \<Rightarrow> bool" where
  "re_search r p [] = (rmatch r (p, []) \<noteq> [])"
| "re_search r p (c # s) = (rmatch r (p, c # s) \<noteq> [] \<or> re_search r (Some c) s)"

definition match_string :: "re \<Rightarrow> string \<Rightarrow> bool" where
  "match_string r s = re_search r None s"

text \<open>
  \<open>FindStringSubmatch\<close> for a pattern \<open>pre(grp)post\<close> with one group: the text of the group in the
  leftmost match, \<open>None\<close> when there is no match.
\<close>

definition sub_at :: "re \<Rightarrow> re \<Rightarrow> re \<Rightarrow> mstate \<Rightarrow> string list" where
  "sub_at pre grp post st =
     concat (map (\<lambda>a. concat (map (\<lambda>b. map (\<lambda>_. take (length (snd a) - length (snd b)) (snd a))
       (rmatch post b)) (rmatch grp a))) (rmatch pre st))"

fun find_sub_from :: "re \<Rightarrow> re \<Rightarrow> re \<Rightarrow> char option \<Rightarrow> string \<Rightarrow> string option" where
  "find_sub_from pre grp post p [] =
     (case sub_at pre grp post (p, []) of m # _ \<Rightarrow> Some m | [] \<Rightarrow> None)"
| "find_sub_from pre grp post p (c # s) =
     (case sub_at pre grp post (p, c # s) of
        m # _ \<Rightarrow> Some m
      | [] \<Rightarrow> find_sub_from pre grp post (Some c) s)"

definition find_sub :: "re \<Rightarrow> re \<Rightarrow> re \<Rightarrow> string \<Rightarrow> string option" where
  "find_sub pre grp post s = find_sub_from pre grp post None s"

text \<open>Pattern builders: \<open>r+\<close> and a literal text before a pattern.\<close>

abbreviation Plus :: "re \<Rightarrow> re" where
  "Plus r \<equiv> Seq r (Star r)"

fun lit_then :: "string \<Rightarrow> re \<Rightarrow> re" where
  "lit_then [] r = r"
| "lit_then (c # s) r = Seq (Cls (\<lambda>x. x = c)) (lit_then s r)"

section \<open>What the operators match\<close>

definition prev_after :: "char option \<Rightarrow> string \<Rightarrow> char option" where
  "prev_after p u = (if u = [] then p else Some (last u))"

lemma prev_after_Nil [simp]: "prev_after p [] = p"
  and prev_after_Cons [simp]: "prev_after p (c # u) = prev_after (Some c) u"
  by (simp_all add: prev_after_def)

lemma star_run_cls:
  "length s \<le> n \<Longrightarrow>
   set (star_run (rmatch (Cls P)) n (p, s)) = {(prev_after p u, v) |u v. s = u @ v \<and> list_all P u}"
proof (induction n arbitrary: p s)
  case 0
  then show ?case by auto
next
  case (Suc n)
  show ?case
  proof (cases s)
    case Nil
    then show ?thesis by auto
  next
    case (Cons c s')
    then have IH: "set (star_run (rmatch (Cls P)) n (Some c, s'))
        = {(prev_after (Some c) u, v) |u v. s' = u @ v \<and> list_all P u}"
      using Suc.IH [of s' "Some c"] Suc.prems Cons by (simp del: rmatch.simps)
    have st: "rmatch (Cls P) (p, c # s') = (if P c then [(Some c, s')] else [])" by simp
    have split: "(\<exists>u v. st = (prev_after p u, v) \<and> c # s' = u @ v \<and> list_all P u)
        \<longleftrightarrow> st = (p, c # s') \<or>
          P c \<and> (\<exists>u v. st = (prev_after (Some c) u, v) \<and> s' = u @ v \<and> list_all P u)" for st
      by (auto simp: Cons_eq_append_conv)
    show ?thesis
      using IH split Cons by (auto simp: st simp del: rmatch.simps split: if_splits)
  qed
qed

lemma rmatch_star_cls:
  "set (rmatch (Star (Cls P)) (p, s)) = {(prev_after p u, v) |u v. s = u @ v \<and> list_all P u}"
  by (simp only: rmatch.simps snd_conv star_run_cls [OF order_refl])

lemma rmatch_cls_iff: "st' \<in> set (rmatch (Cls P) (p, s)) \<longleftrightarrow> (\<exists>c t. s = c # t \<and> P c \<and> st' = (Some c, t))"
  by (cases s) auto

lemma rmatch_nonempty: "rmatch r st \<noteq> [] \<longleftrightarrow> (\<exists>st'. st' \<in> set (rmatch r st))"
  by (cases "rmatch r st") auto

lemma re_search_iff:
  "re_search r p s \<longleftrightarrow> (\<exists>u v. s = u @ v \<and> rmatch r (prev_after p u, v) \<noteq> [])"
proof (induction s arbitrary: p)
  case Nil
  then show ?case by auto
next
  case (Cons c s)
  show ?case
  proof
    assume "re_search r p (c # s)"
    then consider "rmatch r (p, c # s) \<noteq> []" | "re_search r (Some c) s" by auto
    then show "\<exists>u v. c # s = u @ v \<and> rmatch r (prev_after p u, v) \<noteq> []"
    proof cases
      case 1
      then show ?thesis by (intro exI [of _ "[]"] exI [of _ "c # s"]) simp
    next
      case 2
      then obtain u v where "s = u @ v" "rmatch r (prev_after (Some c) u, v) \<noteq> []"
        using Cons.IH by blast
      then show ?thesis by (intro exI [of _ "c # u"] exI [of _ v]) simp
    qed
  next
    assume "\<exists>u v. c # s = u @ v \<and> rmatch r (prev_after p u, v) \<noteq> []"
    then obtain u v where uv: "c # s = u @ v" "rmatch r (prev_after p u, v) \<noteq> []" by blast
    show "re_search r p (c # s)"
    proof (cases u)
      case Nil
      with uv have "rmatch r (p, c # s) \<noteq> []" by simp
      then show ?thesis by simp
    next
      case (Cons d u')
      with uv Cons.IH [of "Some c"] show ?thesis by auto
    qed
  qed
qed

lemma rmatch_lit_then:
  "rmatch (lit_then u r) (p, s) =
     (if has_prefix s u then rmatch r (prev_after p u, drop (length u) s) else [])"
proof (induction u arbitrary: p s)
  case Nil
  then show ?case by (simp add: has_prefix_def)
next
  case (Cons c u)
  show ?case
  proof (cases s)
    case Nil
    then show ?thesis by (simp add: has_prefix_def)
  next
    case (Cons d s')
    with Cons.IH show ?thesis by (auto simp: has_prefix_def)
  qed
qed

text \<open>The same, as membership facts: what the proofs about concrete patterns rewrite with.\<close>

lemma mem_Cls: "st' \<in> set (rmatch (Cls P) st) \<longleftrightarrow> (\<exists>c t. snd st = c # t \<and> P c \<and> st' = (Some c, t))"
  by (cases "snd st") auto

lemma mem_Seq: "st' \<in> set (rmatch (Seq a b) st) \<longleftrightarrow> (\<exists>t. t \<in> set (rmatch a st) \<and> st' \<in> set (rmatch b t))"
  by auto

lemma mem_Star_Cls:
  "st' \<in> set (rmatch (Star (Cls P)) st) \<longleftrightarrow>
   (\<exists>u v. snd st = u @ v \<and> list_all P u \<and> st' = (prev_after (fst st) u, v))"
  using rmatch_star_cls [of P "fst st" "snd st"] by (cases st) (auto simp del: rmatch.simps)

lemma mem_anchors:
  "st' \<in> set (rmatch Bnd st) \<longleftrightarrow> at_boundary st \<and> st' = st"
  "st' \<in> set (rmatch Bol st) \<longleftrightarrow> fst st = None \<and> st' = st"
  "st' \<in> set (rmatch Eol st) \<longleftrightarrow> snd st = [] \<and> st' = st"
  by auto

lemmas re_mem = mem_Cls mem_Seq mem_Star_Cls mem_anchors

lemma mem_sub_at:
  "d \<in> set (sub_at pre grp post st) \<longleftrightarrow>
   (\<exists>a b. a \<in> set (rmatch pre st) \<and> b \<in> set (rmatch grp a) \<and> rmatch post b \<noteq> []
     \<and> d = take (length (snd a) - length (snd b)) (snd a))"
  unfolding sub_at_def
  by (auto simp: image_constant_conv simp del: rmatch.simps split: if_split_asm if_split) force+

text \<open>
  A search with a group, when at every position all matches capture the same text: it finds the
  capture of the leftmost position that has one.
\<close>

lemma find_sub_from_Some:
  "find_sub_from pre grp post p s = Some d \<Longrightarrow>
   \<exists>u v. s = u @ v \<and> d \<in> set (sub_at pre grp post (prev_after p u, v))"
proof (induction s arbitrary: p)
  case Nil
  then show ?case by (auto split: list.splits)
next
  case (Cons c s)
  show ?case
  proof (cases "sub_at pre grp post (p, c # s)")
    case Nil
    with Cons.prems have "find_sub_from pre grp post (Some c) s = Some d" by simp
    then obtain u v where "s = u @ v" "d \<in> set (sub_at pre grp post (prev_after (Some c) u, v))"
      using Cons.IH by blast
    then show ?thesis by (intro exI [of _ "c # u"] exI [of _ v]) simp
  next
    case (Cons m ms)
    with Cons.prems show ?thesis by (intro exI [of _ "[]"] exI [of _ "c # s"]) simp
  qed
qed

lemma find_sub_from_None:
  "find_sub_from pre grp post p s = None \<longleftrightarrow>
   (\<forall>u v. s = u @ v \<longrightarrow> sub_at pre grp post (prev_after p u, v) = [])"
proof (induction s arbitrary: p)
  case Nil
  then show ?case by (auto split: list.splits)
next
  case (Cons c s)
  have "(\<forall>u v. c # s = u @ v \<longrightarrow> sub_at pre grp post (prev_after p u, v) = []) \<longleftrightarrow>
      sub_at pre grp post (p, c # s) = [] \<and>
      (\<forall>u v. s = u @ v \<longrightarrow> sub_at pre grp post (prev_after (Some c) u, v) = [])"
  proof (intro iffI conjI allI impI)
    assume all: "\<forall>u v. c # s = u @ v \<longrightarrow> sub_at pre grp post (prev_after p u, v) = []"
    show "sub_at pre grp post (p, c # s) = []" using all [rule_format, of "[]" "c # s"] by simp
    show "sub_at pre grp post (prev_after (Some c) u, v) = []" if "s = u @ v" for u v
      using all [rule_format, of "c # u" v] that by simp
  next
    fix u v
    assume "sub_at pre grp post (p, c # s) = [] \<and>
      (\<forall>u v. s = u @ v \<longrightarrow> sub_at pre grp post (prev_after (Some c) u, v) = [])" "c # s = u @ v"
    then show "sub_at pre grp post (prev_after p u, v) = []" by (cases u) auto
  qed
  with Cons.IH show ?case by (auto split: list.splits)
qed

lemma find_sub_from_skip:
  "(\<And>u w. t = u @ w \<Longrightarrow> w \<noteq> [] \<Longrightarrow> sub_at pre grp post (prev_after p u, w @ v) = []) \<Longrightarrow>
   find_sub_from pre grp post p (t @ v) = find_sub_from pre grp post (prev_after p t) v"
proof (induction t arbitrary: p)
  case Nil
  then show ?case by simp
next
  case (Cons c t)
  have "sub_at pre grp post (p, (c # t) @ v) = []" using Cons.prems [of "[]" "c # t"] by simp
  moreover have "find_sub_from pre grp post (Some c) (t @ v)
      = find_sub_from pre grp post (prev_after (Some c) t) v"
  proof (rule Cons.IH)
    fix u w assume "t = u @ w" "w \<noteq> []"
    then show "sub_at pre grp post (prev_after (Some c) u, w @ v) = []"
      using Cons.prems [of "c # u" w] by simp
  qed
  ultimately show ?case by simp
qed

lemma find_sub_from_here:
  "sub_at pre grp post (p, s) \<noteq> [] \<Longrightarrow> set (sub_at pre grp post (p, s)) \<subseteq> {d} \<Longrightarrow>
   find_sub_from pre grp post p s = Some d"
  by (cases s; cases "sub_at pre grp post (p, s)") auto

end
