(* ===== verification/Dnsmasq_Manager.thy ===== *)
theory Dnsmasq_Manager
  imports Os_World Go_Net Go_Regexp
begin

text \<open>
  \<open>internal/dnsmasq/manager.go\<close> with \<open>manager_linux.go\<close> and \<open>manager_darwin.go\<close>: one state file per
  port, and the \<open>hosts\<close> file that dnsmasq reads, rebuilt from all of them by every change.
  This theory holds the operations; \<open>Dnsmasq_View\<close> has their abstract view and its laws,
  \<open>Dnsmasq_Laws\<close> what one operation promises, \<open>Dnsmasq_Hosts\<close> that nothing but well-formed entries
  gets into the hosts file, and \<open>Dnsmasq_Clear\<close> the removal of everything.
\<close>

record manager =
  dns_dir :: string

datatype dns_error = InvalidIp string | InvalidHostname string | DnsOs os_err | ReloadFailed

definition new_manager :: "string \<Rightarrow> manager" where
  "new_manager dir = \<lparr>dns_dir = dir\<rparr>"

definition alnum_c :: "char \<Rightarrow> bool" where
  "alnum_c c \<longleftrightarrow> is_letter_c c \<or> is_digit_c c"

definition host_c :: "char \<Rightarrow> bool" where
  "host_c c \<longleftrightarrow> alnum_c c \<or> c = CHR ''.'' \<or> c = CHR ''-''"

text \<open>\<open>^[a-zA-Z0-9][a-zA-Z0-9.\-]*$\<close>\<close>

definition valid_hostname_re :: re where
  "valid_hostname_re = Seq Bol (Seq (Cls alnum_c) (Seq (Star (Cls host_c)) Eol))"

definition valid_hostname :: "string \<Rightarrow> bool" where
  "valid_hostname s = match_string valid_hostname_re s"

definition hosts_path :: "manager \<Rightarrow> string" where
  "hosts_path m = join_path [dns_dir m, ''hosts'']"

definition conf_name :: "int \<Rightarrow> string" where
  "conf_name port = ''port-'' @ itoa port @ ''.conf''"

definition conf_path :: "manager \<Rightarrow> int \<Rightarrow> string" where
  "conf_path m port = join_path [dns_dir m, conf_name port]"

definition is_conf_name :: "string \<Rightarrow> bool" where
  "is_conf_name n \<longleftrightarrow> has_prefix n ''port-'' \<and> path_ext n = ''.conf''"

text \<open>The loop of \<open>writeHostsFile\<close> over the directory entries.\<close>

fun collect_lines :: "os_env \<Rightarrow> manager \<Rightarrow> string list \<Rightarrow> world \<Rightarrow> string list \<times> world" where
  "collect_lines e m [] w = ([], w)"
| "collect_lines e m (n # ns) w =
     (if \<not> is_conf_name n then collect_lines e m ns w
      else
        (case read_file e (join_path [dns_dir m, n]) w of
           (Inl er, w1) \<Rightarrow> collect_lines e m ns w1
         | (Inr data, w1) \<Rightarrow>
             (let line = trim_space data in
              case collect_lines e m ns w1 of
                (ls, w2) \<Rightarrow> (if line \<noteq> '''' then line # ls else ls, w2))))"

definition write_hosts_file :: "os_env \<Rightarrow> manager \<Rightarrow> world \<Rightarrow> os_err option \<times> world" where
  "write_hosts_file e m w =
     (case read_dir e (dns_dir m) w of
        ((entries, _), w1) \<Rightarrow>
           (case collect_lines e m entries w1 of
             (lines, w2) \<Rightarrow>
               (let content = join [CHR 0x0A] lines @ (if 0 < length lines then [CHR 0x0A] else [])
                in write_file e (hosts_path m) content mode_644 w2)))"

definition systemctl_reload :: "string list" where
  "systemctl_reload = [''sudo'', ''systemctl'', ''reload'', ''dnsmasq'']"

definition pkill_hup :: "string list" where
  "pkill_hup = [''pkill'', ''-HUP'', ''dnsmasq'']"

definition reload_argv :: "goos \<Rightarrow> string list" where
  "reload_argv g =
     (case g of Linux \<Rightarrow> systemctl_reload | Darwin \<Rightarrow> pkill_hup)"

definition reload :: "os_env \<Rightarrow> world \<Rightarrow> dns_error option \<times> world" where
  "reload e w =
     (case run_cmd e (reload_argv (platform e)) '''' w of
        ((ok, _), w1) \<Rightarrow> (if ok then None else Some ReloadFailed, w1))"

definition sync_and_reload :: "os_env \<Rightarrow> manager \<Rightarrow> world \<Rightarrow> dns_error option \<times> world" where
  "sync_and_reload e m w =
     (case write_hosts_file e m w of
        (Some er, w1) \<Rightarrow> (Some (DnsOs er), w1)
      | (None, w1) \<Rightarrow> reload e w1)"

definition dns_line :: "string \<Rightarrow> string \<Rightarrow> string" where
  "dns_line ip name = ip @ [CHR 0x09] @ name"

definition dns_add :: "os_env \<Rightarrow> manager \<Rightarrow> int \<Rightarrow> string \<Rightarrow> string \<Rightarrow> world \<Rightarrow> dns_error option \<times> world" where
  "dns_add e m port name0 ip0 w =
     (let ip = trim_space ip0; name = trim_space name0 in
      if \<not> parse_ip_ok ip then (Some (InvalidIp ip), w)
      else if \<not> valid_hostname name then (Some (InvalidHostname name), w)
      else
        (case mkdir_all e (dns_dir m) mode_755 w of
           (Some er, w1) \<Rightarrow> (Some (DnsOs er), w1)
         | (None, w1) \<Rightarrow>
             (let content = dns_line ip name @ [CHR 0x0A] in
              case write_file e (conf_path m port) content mode_644 w1 of
                (Some er, w2) \<Rightarrow> (Some (DnsOs er), w2)
              | (None, w2) \<Rightarrow> sync_and_reload e m w2)))"

definition dns_remove :: "os_env \<Rightarrow> manager \<Rightarrow> int \<Rightarrow> world \<Rightarrow> dns_error option \<times> world" where
  "dns_remove e m port w =
     (case remove_file e (conf_path m port) w of
        (Some EOther, w1) \<Rightarrow> (Some (DnsOs EOther), w1)
      | (_, w1) \<Rightarrow> sync_and_reload e m w1)"

fun remove_confs :: "os_env \<Rightarrow> manager \<Rightarrow> string list \<Rightarrow> world \<Rightarrow> world" where
  "remove_confs e m [] w = w"
| "remove_confs e m (n # ns) w =
     (if is_conf_name n
      then remove_confs e m ns (snd (remove_file e (join_path [dns_dir m, n]) w))
      else remove_confs e m ns w)"

definition dns_remove_all :: "os_env \<Rightarrow> manager \<Rightarrow> world \<Rightarrow> dns_error option \<times> world" where
  "dns_remove_all e m w =
     (case read_dir e (dns_dir m) w of
        ((_, Some ENotExist), w1) \<Rightarrow> (None, w1)
      | ((_, Some er), w1) \<Rightarrow> (Some (DnsOs er), w1)
      | ((entries, None), w1) \<Rightarrow> sync_and_reload e m (remove_confs e m entries w1))"

end
