(* ===== verification/Key_Store.thy ===== *)
theory Key_Store
  imports Lad_Base
begin

text \<open>
  The interface of a store of values by key: \<open>put\<close>, \<open>del\<close>, and what a reader sees. The daemon uses
  two of them beside its own map, the IPC state store, whose operations always succeed, and the
  resolver's entries, whose operations may fail. The lemmas inside the locales are for such a
  client: a store kept in step with a map shows that map.
\<close>

locale fallible_store =
  fixes put :: "'k \<Rightarrow> 'v \<Rightarrow> 's \<Rightarrow> bool \<times> 's"
    and del :: "'k \<Rightarrow> 's \<Rightarrow> bool \<times> 's"
    and look :: "'s \<Rightarrow> 'k \<Rightarrow> 'x option"
    and shown :: "'v \<Rightarrow> 'x"
    and wf :: "'s \<Rightarrow> bool"
  assumes put_ok: "wf s \<Longrightarrow> put k v s = (True, s') \<Longrightarrow> look s' = (look s)(k \<mapsto> shown v) \<and> wf s'"
    and del_ok: "wf s \<Longrightarrow> del k s = (True, s') \<Longrightarrow> look s' = (look s)(k := None) \<and> wf s'"
begin

lemma put_mirrors:
  "wf s \<Longrightarrow> look s = (\<lambda>q. map_option (\<lambda>x. shown (f x)) (m q)) \<Longrightarrow> put k (f x) s = (True, s') \<Longrightarrow>
   look s' = (\<lambda>q. map_option (\<lambda>x. shown (f x)) ((m(k \<mapsto> x)) q)) \<and> wf s'"
  using put_ok by fastforce

lemma del_mirrors:
  "wf s \<Longrightarrow> look s = (\<lambda>q. map_option (\<lambda>x. shown (f x)) (m q)) \<Longrightarrow> del k s = (True, s') \<Longrightarrow>
   look s' = (\<lambda>q. map_option (\<lambda>x. shown (f x)) ((m(k := None)) q)) \<and> wf s'"
  using del_ok by fastforce

lemma put_del_undo:
  "wf s \<Longrightarrow> look s k = None \<Longrightarrow> put k v s = (True, s1) \<Longrightarrow> del k s1 = (True, s2) \<Longrightarrow> look s2 = look s"
  using put_ok [of s k v s1] del_ok [of s1 k s2] by (auto simp: fun_upd_idem)

lemma put_del_other:
  "wf s \<Longrightarrow> put k v s = (True, s1) \<Longrightarrow> q \<noteq> k \<Longrightarrow> look s1 q = look s q"
  using put_ok [of s k v s1] by simp

end

locale key_store =
  fixes put :: "'k \<Rightarrow> 'v \<Rightarrow> 's \<Rightarrow> 's"
    and del :: "'k \<Rightarrow> 's \<Rightarrow> 's"
    and look :: "'s \<Rightarrow> 'k \<Rightarrow> 'v option"
    and wf :: "'s \<Rightarrow> bool"
  assumes look_put: "wf s \<Longrightarrow> look (put k v s) = (look s)(k \<mapsto> v)"
    and look_del: "wf s \<Longrightarrow> look (del k s) = (look s)(k := None)"
    and wf_put: "wf s \<Longrightarrow> wf (put k v s)"
    and wf_del: "wf s \<Longrightarrow> wf (del k s)"

sublocale key_store \<subseteq> total: fallible_store "\<lambda>k v s. (True, put k v s)" "\<lambda>k s. (True, del k s)" look id wf
  by unfold_locales (auto simp: look_put look_del wf_put wf_del)

context key_store
begin

lemma mirror_put:
  "wf s \<Longrightarrow> look s = (\<lambda>q. map_option f (m q)) \<Longrightarrow>
   look (put k (f x) s) = (\<lambda>q. map_option f ((m(k \<mapsto> x)) q))"
  using total.put_mirrors [of s f m k x] by simp

lemma mirror_del:
  "wf s \<Longrightarrow> look s = (\<lambda>q. map_option f (m q)) \<Longrightarrow>
   look (del k s) = (\<lambda>q. map_option f ((m(k := None)) q))"
  using total.del_mirrors [of s f m k] by simp

lemma del_put: "wf s \<Longrightarrow> look s k = None \<Longrightarrow> look (del k (put k v s)) = look s"
  using total.put_del_undo by blast

end

end
