(* ===== verification/Dnsmasq_View.thy ===== *)
theory Dnsmasq_View
  imports Dnsmasq_Manager Key_Store
begin

text \<open>
  The abstract view of a manager: the map \<open>dns_entry\<close> from state-file names to lines. A change that
  succeeds changes one entry and leaves \<open>hosts\<close> equal to the rendered view, so the manager is a
  \<open>fallible_store\<close> of lines by port.
\<close>

section \<open>What the validators accept\<close>

lemma valid_hostname_iff:
  "valid_hostname s \<longleftrightarrow> s \<noteq> [] \<and> alnum_c (hd s) \<and> list_all host_c s"
proof -
  have "valid_hostname s \<longleftrightarrow> (\<exists>u v. s = u @ v \<and> (\<exists>st. st \<in> set (rmatch valid_hostname_re (prev_after None u, v))))"
    by (simp add: valid_hostname_def match_string_def re_search_iff rmatch_nonempty)
  also have "\<dots> \<longleftrightarrow> (\<exists>c t. s = c # t \<and> alnum_c c \<and> list_all host_c t)"
    unfolding valid_hostname_re_def re_mem
    by (auto simp: prev_after_def split: if_splits)
  finally show ?thesis
    by (cases s) (auto simp: host_c_def)
qed

lemma host_c_plain: "host_c c \<Longrightarrow> ascii c \<and> \<not> is_space_c c \<and> c \<noteq> CHR 0x0A \<and> c \<noteq> CHR 0x09"
  by (auto simp: host_c_def alnum_c_def class_defs)

lemma ip_char_plain: "ip_char c \<Longrightarrow> ascii c \<and> \<not> is_space_c c \<and> c \<noteq> CHR 0x0A \<and> c \<noteq> CHR 0x09"
  by (auto simp: ip_char_def is_hex_c_def class_defs)

text \<open>A line the manager may write: an address and a host name, with a tab between them.\<close>

definition entry_line :: "string \<Rightarrow> bool" where
  "entry_line l \<longleftrightarrow> (\<exists>ip name. l = dns_line ip name \<and> parse_ip_ok ip \<and> valid_hostname name)"

lemma entry_line_trim: "entry_line l \<Longrightarrow> trim_space (l @ [CHR 0x0A]) = l"
  and entry_line_no_newline: "entry_line l \<Longrightarrow> CHR 0x0A \<notin> set l"
  and entry_line_nonempty: "entry_line l \<Longrightarrow> l \<noteq> ''''"
  and entry_line_plain: "entry_line l \<Longrightarrow> all_ascii l \<and> \<not> is_space_c (hd l)"
proof -
  assume "entry_line l"
  then obtain ip name where l: "l = dns_line ip name" and ok: "parse_ip_ok ip" "valid_hostname name"
    by (auto simp: entry_line_def)
  have ip: "ip \<noteq> []" "list_all ip_char ip" using parse_ip_ok_chars [OF ok(1)] by auto
  have n: "name \<noteq> []" "list_all host_c name" using ok(2) by (auto simp: valid_hostname_iff)
  have asc: "all_ascii (l @ [CHR 0x0A])"
    using ip n ip_char_plain host_c_plain by (auto simp: l dns_line_def list_all_iff) (auto simp: ascii_def)
  have hd: "\<not> is_space_c (hd l)" using ip ip_char_plain by (cases ip) (auto simp: l dns_line_def)
  then show "all_ascii l \<and> \<not> is_space_c (hd l)" using asc by simp
  note hd
  moreover have "\<not> is_space_c (last l)"
    using n host_c_plain by (cases name rule: rev_cases) (auto simp: l dns_line_def)
  moreover have "l \<noteq> []" by (simp add: l dns_line_def)
  moreover have nl: "is_space_c (CHR 0x0A)" by (simp add: is_space_c_def)
  ultimately show "trim_space (l @ [CHR 0x0A]) = l"
    unfolding trim_space_ascii [OF asc]
    using last_in_set [of l] by (auto simp: dropWhile_none hd_rev dropWhile_append)
  show "CHR 0x0A \<notin> set l"
    using ip n ip_char_plain host_c_plain by (auto simp: l dns_line_def list_all_iff)
  show "l \<noteq> ''''" by (simp add: l dns_line_def)
qed

section \<open>The view of the state files\<close>

definition dns_entry :: "fs \<Rightarrow> manager \<Rightarrow> string \<Rightarrow> string option" where
  "dns_entry f m n =
     (if plain_name n \<and> is_conf_name n then
        (case map_of f (join_path [dns_dir m, n]) of
           Some (FileNode _ c) \<Rightarrow> (let line = trim_space c in if line = '''' then None else Some line)
         | _ \<Rightarrow> None)
      else None)"

definition dns_names :: "fs \<Rightarrow> manager \<Rightarrow> string list" where
  "dns_names f m = (case map_of f (dns_dir m) of Some (DirNode _) \<Rightarrow> dir_names f (dns_dir m) | _ \<Rightarrow> [])"

definition entry_lines :: "fs \<Rightarrow> manager \<Rightarrow> string list" where
  "entry_lines f m = List.map_filter (dns_entry f m) (dns_names f m)"

definition hosts_text :: "fs \<Rightarrow> manager \<Rightarrow> string" where
  "hosts_text f m =
     join [CHR 0x0A] (entry_lines f m) @ (if entry_lines f m \<noteq> [] then [CHR 0x0A] else [])"

definition hosts_synced :: "manager \<Rightarrow> world \<Rightarrow> bool" where
  "hosts_synced m w \<longleftrightarrow> (\<exists>mode. node_at w (hosts_path m) = Some (FileNode mode (hosts_text (files w) m)))"

text \<open>The state files can be read, and reloading the resolver leaves the files alone.\<close>

definition reads_fine :: "os_env \<Rightarrow> bool" where
  "reads_fine e \<longleftrightarrow> (\<forall>t p. fault_at e t OpRead p = Fine \<and> fault_at e t OpReadDir p = Fine)"

definition reload_quiet :: "os_env \<Rightarrow> bool" where
  "reload_quiet e \<longleftrightarrow> (\<forall>t f. snd (snd (shell e t (reload_argv (platform e)) '''' f)) = f)"

lemma conf_name_plain: "plain_name (conf_name p)"
  by (auto simp: plain_name_def conf_name_def is_digit_c_def dest: itoa_chars)

lemma itoa_no_dot: "CHR ''.'' \<notin> set (itoa p)"
  by (auto simp: is_digit_c_def dest: itoa_chars)

lemma path_ext_append: "CHR ''/'' \<notin> set t \<Longrightarrow> CHR ''.'' \<notin> set t \<Longrightarrow> path_ext (s @ ''.'' @ t) = ''.'' @ t"
proof -
  assume t: "CHR ''/'' \<notin> set t" "CHR ''.'' \<notin> set t"
  let ?b = "takeWhile (\<lambda>c. c \<noteq> CHR ''/'') (rev s)"
  have "takeWhile (\<lambda>c. c \<noteq> CHR ''/'') (rev t @ CHR ''.'' # rev s) = rev t @ CHR ''.'' # ?b"
    using t by (subst takeWhile_append2) auto
  moreover have "takeWhile (\<lambda>c. c \<noteq> CHR ''.'') (rev t @ CHR ''.'' # ?b) = rev t"
    using t by (subst takeWhile_append2) auto
  ultimately show ?thesis by (simp add: path_ext_def)
qed

lemma conf_name_is_conf: "is_conf_name (conf_name p)"
  using path_ext_append [of "''conf''" "''port-'' @ itoa p"]
  by (simp add: is_conf_name_def conf_name_def has_prefix_def)

lemma conf_name_inj: "conf_name p = conf_name q \<Longrightarrow> p = q"
  by (simp add: conf_name_def itoa_inj)

lemma conf_path_inj: "conf_path m p = conf_path m q \<Longrightarrow> p = q"
  unfolding conf_path_def using join_path_inj conf_name_plain conf_name_inj by metis

lemma hosts_plain: "plain_name ''hosts''" "\<not> is_conf_name ''hosts''"
  by (simp_all add: plain_name_def is_conf_name_def has_prefix_def)

lemma conf_path_not_hosts: "conf_path m p \<noteq> hosts_path m"
  unfolding conf_path_def hosts_path_def
  using join_path_inj [OF conf_name_plain hosts_plain(1)] conf_name_is_conf hosts_plain(2) by metis

text \<open>Only the state file of its port gives an entry its line.\<close>

lemma dns_entry_update:
  "dns_entry (AList.update (conf_path m p) (FileNode k c) f) m
     = (dns_entry f m)(conf_name p := (if trim_space c = '''' then None else Some (trim_space c)))"
proof
  fix n
  show "dns_entry (AList.update (conf_path m p) (FileNode k c) f) m n
     = ((dns_entry f m)(conf_name p := (if trim_space c = '''' then None else Some (trim_space c)))) n"
    using join_path_inj [of n "conf_name p" "dns_dir m"] conf_name_plain [of p] conf_name_is_conf [of p]
    by (auto simp: dns_entry_def conf_path_def Let_def)
qed

lemma dns_entry_gone:
  "map_of f (conf_path m p) = None \<Longrightarrow> dns_entry f m (conf_name p) = None"
  by (simp add: dns_entry_def conf_path_def)

lemma dns_entry_cong:
  "(\<And>n. plain_name n \<Longrightarrow> is_conf_name n \<Longrightarrow> n \<noteq> k \<Longrightarrow>
     map_of g (join_path [dns_dir m, n]) = map_of f (join_path [dns_dir m, n])) \<Longrightarrow>
   n \<noteq> k \<Longrightarrow> dns_entry g m n = dns_entry f m n"
  by (simp add: dns_entry_def)

lemma conf_plain: "is_conf_name n \<Longrightarrow> CHR ''/'' \<notin> set n \<Longrightarrow> plain_name n"
  by (auto simp: is_conf_name_def plain_name_def has_prefix_def)

lemma collect_lines_render:
  assumes "reads_fine e" and "\<forall>n \<in> set ns. CHR ''/'' \<notin> set n"
  shows "\<exists>k. collect_lines e m ns w = (List.map_filter (dns_entry (files w) m) ns, w\<lparr>tick := k\<rparr>)"
  using assms(2)
proof (induction ns arbitrary: w)
  case Nil
  show ?case by (simp add: map_filter_simps tick_self)
next
  case (Cons n ns)
  have IH: "\<exists>k. collect_lines e m ns v = (List.map_filter (dns_entry (files v) m) ns, v\<lparr>tick := k\<rparr>)" for v
    using Cons by simp
  show ?case
  proof (cases "is_conf_name n")
    case False
    then have "dns_entry (files w) m n = None" by (simp add: dns_entry_def)
    with IH [of w] False show ?thesis by (simp add: map_filter_simps)
  next
    case True
    with Cons.prems have pl: "plain_name n" by (simp add: conf_plain)
    have rf: "fault_at e (tick w) OpRead p = Fine" for p using assms(1) by (simp add: reads_fine_def)
    have en: "dns_entry (files w) m n = (case node_at w (join_path [dns_dir m, n]) of
        Some (FileNode _ c) \<Rightarrow> (if trim_space c = '''' then None else Some (trim_space c)) | _ \<Rightarrow> None)"
      using True pl by (simp add: dns_entry_def Let_def cong: option.case_cong node.case_cong)
    obtain k where "collect_lines e m ns (ticked w) = (List.map_filter (dns_entry (files w) m) ns, w\<lparr>tick := k\<rparr>)"
      using IH [of "ticked w"] by auto
    then have "collect_lines e m (n # ns) w = (List.map_filter (dns_entry (files w) m) (n # ns), w\<lparr>tick := k\<rparr>)"
      using True by (auto simp: map_filter_simps en read_file_def rf Let_def split: option.splits node.splits)
    then show ?thesis ..
  qed
qed

lemma dir_names_no_slash: "n \<in> set (dir_names f d) \<Longrightarrow> CHR ''/'' \<notin> set n"
  by (auto simp: dir_names_def base_name_def dest: set_takeWhileD)

lemma read_dir_no_slash: "n \<in> set (fst (fst (read_dir e d w))) \<Longrightarrow> CHR ''/'' \<notin> set n"
  by (auto simp: read_dir_def dir_names_no_slash split: fault.splits option.splits node.splits if_splits)

lemma collect_entry_lines:
  assumes "reads_fine e"
  shows "\<exists>k. (case read_dir e (dns_dir m) w of ((ns, _), w1) \<Rightarrow> collect_lines e m ns w1)
      = (entry_lines (files w) m, w\<lparr>tick := k\<rparr>)"
proof -
  have ns: "fst (fst (read_dir e (dns_dir m) w)) = dns_names (files w) m"
    using assms by (auto simp: read_dir_def reads_fine_def dns_names_def split: option.splits node.splits)
  have "\<forall>n \<in> set (dns_names (files w) m). CHR ''/'' \<notin> set n"
    by (auto simp: dns_names_def dir_names_no_slash split: option.splits node.splits)
  from collect_lines_render [OF assms this, of m "ticked w"] show ?thesis
    by (auto simp: prod.case_eq_if ns entry_lines_def)
qed

section \<open>The hosts file is the rendered view\<close>

lemma dir_names_distinct: "distinct (map fst f) \<Longrightarrow> distinct (dir_names f d)"
proof -
  assume d: "distinct (map fst f)"
  let ?ks = "filter (\<lambda>k. base_name k \<noteq> '''' \<and> join_path [d, base_name k] = k) (map fst f)"
  have "inj_on base_name (set ?ks)"
  proof (rule inj_onI)
    have k: "join_path [d, base_name z] = z" if "z \<in> set ?ks" for z
      using that unfolding set_filter by blast
    fix x y assume "x \<in> set ?ks" "y \<in> set ?ks" and eq: "base_name x = base_name y"
    with k [of x] k [of y] show "x = y" by metis
  qed
  with distinct_filter [OF d] have "distinct (map base_name ?ks)" unfolding distinct_map [of base_name] by blast
  then show ?thesis unfolding dir_names_def by simp
qed

lemma dns_entry_listed: "dns_entry f m n \<noteq> None \<Longrightarrow> n \<in> set (dir_names f (dns_dir m))"
proof -
  assume s: "dns_entry f m n \<noteq> None"
  then have p: "plain_name n" "map_of f (join_path [dns_dir m, n]) \<noteq> None"
    by (auto simp: dns_entry_def split: if_splits option.splits)
  then show ?thesis by (simp add: set_dir_names map_of_eq_None_iff)
qed

text \<open>When the directory exists, the lines are those of the entries, in the order of their names.\<close>

lemma entry_lines_view:
  assumes "distinct (map fst f)" and "map_of f (dns_dir m) = Some (DirNode k)"
  shows "entry_lines f m = map (\<lambda>n. the (dns_entry f m n)) (sorted_list_of_set (dom (dns_entry f m)))"
proof -
  let ?ns = "filter (\<lambda>n. dns_entry f m n \<noteq> None) (dir_names f (dns_dir m))"
  have "sorted ?ns" by (simp add: dir_names_def sorted_wrt_filter)
  moreover have "distinct ?ns" using dir_names_distinct [OF assms(1)] by simp
  moreover have "set ?ns = dom (dns_entry f m)" using dns_entry_listed by (fastforce simp: dom_def)
  ultimately have "sorted_list_of_set (dom (dns_entry f m)) = ?ns"
    by (metis sorted_list_of_set.idem_if_sorted_distinct)
  then show ?thesis
    using assms(2) by (simp add: entry_lines_def dns_names_def map_filter_def)
qed

definition dns_wf :: "os_env \<Rightarrow> manager \<Rightarrow> world \<Rightarrow> bool" where
  "dns_wf e m w \<longleftrightarrow> reads_fine e \<and> reload_quiet e \<and> distinct_paths w
     \<and> \<not> is_conf_name (base_name (dns_dir m)) \<and> (\<exists>k. node_at w (dns_dir m) = Some (DirNode k))"

lemma conf_path_not_dir: "\<not> is_conf_name (base_name (dns_dir m)) \<Longrightarrow> conf_path m port \<noteq> dns_dir m"
  unfolding conf_path_def using base_name_join [OF conf_name_plain] conf_name_is_conf by metis

lemma hosts_text_cong:
  "distinct (map fst f) \<Longrightarrow> distinct (map fst g) \<Longrightarrow> map_of f (dns_dir m) = Some (DirNode j) \<Longrightarrow>
   map_of g (dns_dir m) = Some (DirNode k) \<Longrightarrow> dns_entry f m = dns_entry g m \<Longrightarrow>
   hosts_text f m = hosts_text g m"
  by (simp add: hosts_text_def entry_lines_view)

lemma dns_entry_hosts_update:
  "dns_entry (AList.update (hosts_path m) x f) m = dns_entry f m"
proof
  fix n
  show "dns_entry (AList.update (hosts_path m) x f) m n = dns_entry f m n"
    using join_path_inj [of n "''hosts''" "dns_dir m"] hosts_plain
    by (auto simp: dns_entry_def hosts_path_def)
qed

lemma write_file_result:
  assumes "write_file e p c mode w = (None, w')"
  shows "\<exists>k. w' = w\<lparr>tick := Suc (tick w), files := AList.update p (FileNode k c) (files w)\<rparr>
    \<and> (\<forall>j. node_at w p \<noteq> Some (DirNode j))"
  using assms by (auto simp: write_file_def put_file_def split: fault.splits option.splits node.splits if_splits)

lemma write_hosts_file_ok:
  assumes "reads_fine e" and "write_hosts_file e m w = (None, w')"
  shows "\<exists>j k. w' = w\<lparr>tick := j, files := AList.update (hosts_path m)
      (FileNode k (hosts_text (files w) m)) (files w)\<rparr> \<and> (\<forall>i. node_at w (hosts_path m) \<noteq> Some (DirNode i))"
proof -
  obtain k where "(case read_dir e (dns_dir m) w of ((ns, _), w1) \<Rightarrow> collect_lines e m ns w1)
      = (entry_lines (files w) m, w\<lparr>tick := k\<rparr>)"
    using collect_entry_lines [OF assms(1)] by blast
  then have "write_hosts_file e m w
      = write_file e (hosts_path m) (hosts_text (files w) m) mode_644 (w\<lparr>tick := k\<rparr>)"
    by (auto simp: write_hosts_file_def hosts_text_def split: prod.splits)
  with assms(2) have
    "write_file e (hosts_path m) (hosts_text (files w) m) mode_644 (w\<lparr>tick := k\<rparr>) = (None, w')" by simp
  from write_file_result [OF this] show ?thesis by (auto; blast)
qed

lemma reload_ok:
  "reload_quiet e \<Longrightarrow> reload e w = (r, w') \<Longrightarrow>
   r \<in> {None, Some ReloadFailed} \<and> w' = w\<lparr>tick := Suc (tick w),
     ran := ran w @ [(reload_argv (platform e), '''')]\<rparr>"
proof -
  assume q: "reload_quiet e" and r: "reload e w = (r, w')"
  obtain ok out f where sh: "shell e (tick w) (reload_argv (platform e)) '''' (files w) = (ok, out, f)"
    by (cases "shell e (tick w) (reload_argv (platform e)) '''' (files w)") auto
  then have "f = files w" using q unfolding reload_quiet_def by (metis snd_conv)
  with r sh show ?thesis by (auto simp: reload_def run_cmd_def split: if_splits)
qed

text \<open>
  What every change ends with: whether or not dnsmasq could be signalled, the view is kept and
  \<open>hosts\<close> shows it.
\<close>

lemma sync_and_reload_ok:
  assumes "dns_wf e m w" and "sync_and_reload e m w = (r, w')" and "r \<in> {None, Some ReloadFailed}"
  shows "dns_wf e m w'" and "dns_entry (files w') m = dns_entry (files w) m" and "hosts_synced m w'"
    and "bound w' = bound w" and "printed w' = printed w"
proof -
  have re: "reads_fine e" "reload_quiet e" using assms(1) by (simp_all add: dns_wf_def)
  from assms(2,3) obtain w1 where s: "write_hosts_file e m w = (None, w1)" "reload e w1 = (r, w')"
    by (auto simp: sync_and_reload_def split: prod.splits option.splits)
  obtain j k where w1: "w1 = w\<lparr>tick := j, files := AList.update (hosts_path m)
      (FileNode k (hosts_text (files w) m)) (files w)\<rparr>"
    and nd: "\<forall>i. node_at w (hosts_path m) \<noteq> Some (DirNode i)"
    using write_hosts_file_ok [OF re(1) s(1)] by blast
  have w': "files w' = files w1" "bound w' = bound w1" "printed w' = printed w1"
    using reload_ok [OF re(2) s(2)] by simp_all
  obtain i where dir: "node_at w (dns_dir m) = Some (DirNode i)" using assms(1) by (auto simp: dns_wf_def)
  with nd have ne: "hosts_path m \<noteq> dns_dir m" by auto
  then have dir': "map_of (files w1) (dns_dir m) = Some (DirNode i)" using dir by (simp add: w1)
  have dst: "distinct_paths w" "distinct_paths w1"
    using assms(1) by (simp_all add: dns_wf_def w1 distinct_update)
  show "dns_wf e m w'" using assms(1) dir' dst by (auto simp: dns_wf_def w')
  show eq: "dns_entry (files w') m = dns_entry (files w) m" by (simp add: w' w1 dns_entry_hosts_update)
  have "hosts_text (files w') m = hosts_text (files w) m"
    using dst dir dir' eq by (intro hosts_text_cong) (auto simp: w')
  then show "hosts_synced m w'" unfolding hosts_synced_def w'(1) by (simp add: w1)
  show "bound w' = bound w" "printed w' = printed w" by (simp_all add: w' w1)
qed

section \<open>Changes of one entry\<close>

text \<open>A change has been applied when it returns no error, and also when only the reload failed.\<close>

definition applied :: "dns_error option \<Rightarrow> bool" where
  "applied r \<longleftrightarrow> r = None \<or> r = Some ReloadFailed"

lemma applied_in: "applied r \<longleftrightarrow> r \<in> {None, Some ReloadFailed}"
  by (auto simp: applied_def)

lemma dns_add_applied:
  assumes env: "reads_fine e" "reload_quiet e" "distinct_paths w" "\<not> is_conf_name (base_name (dns_dir m))"
    and add: "dns_add e m port name ip w = (r, w')" "applied r"
  shows "dns_wf e m w'"
    and "dns_entry (files w') m
      = (dns_entry (files w) m)(conf_name port \<mapsto> dns_line (trim_space ip) (trim_space name))"
    and "hosts_synced m w'" and "bound w' = bound w" and "printed w' = printed w"
    and "parse_ip_ok (trim_space ip)" and "valid_hostname (trim_space name)"
proof -
  let ?l = "dns_line (trim_space ip) (trim_space name)"
  from add obtain w1 w2 where
    ok: "parse_ip_ok (trim_space ip)" "valid_hostname (trim_space name)"
    and w1: "mkdir_all e (dns_dir m) mode_755 w = (None, w1)"
    and w2: "write_file e (conf_path m port) (?l @ [CHR 0x0A]) mode_644 w1 = (None, w2)"
    and w': "sync_and_reload e m w2 = (r, w')"
    by (auto simp: dns_add_def Let_def applied_def split: if_splits prod.splits option.splits)
  show "parse_ip_ok (trim_space ip)" "valid_hostname (trim_space name)" by (fact ok)+
  obtain i where dir: "node_at w1 (dns_dir m) = Some (DirNode i)" using mkdir_all_dir [OF w1] by blast
  have same: "dns_entry (files w1) m = dns_entry (files w) m"
    unfolding dns_entry_def using mkdir_all_file [OF w1] mkdir_all_keeps [OF w1]
    by (auto split: option.splits node.splits intro!: ext)
  obtain k where w2': "w2 = w1\<lparr>tick := Suc (tick w1), files := AList.update (conf_path m port)
      (FileNode k (?l @ [CHR 0x0A])) (files w1)\<rparr>"
    and nd: "\<forall>j. node_at w1 (conf_path m port) \<noteq> Some (DirNode j)"
    using write_file_result [OF w2] by blast
  have el: "entry_line ?l" using ok by (auto simp: entry_line_def)
  have "dns_wf e m w2"
    using env mkdir_all_other [OF w1] dir nd by (auto simp: dns_wf_def w2' distinct_update)
  note sync = sync_and_reload_ok [OF this w' add(2) [unfolded applied_in]]
  show "dns_wf e m w'" "hosts_synced m w'" by (fact sync)+
  show "bound w' = bound w" "printed w' = printed w"
    using sync mkdir_all_other [OF w1] by (simp_all add: w2')
  show "dns_entry (files w') m = (dns_entry (files w) m)(conf_name port \<mapsto> ?l)"
    using entry_line_trim [OF el] entry_line_nonempty [OF el]
    by (simp add: sync(2) w2' dns_entry_update same)
qed

lemma remove_file_result:
  assumes "remove_file e p w = (r, w')" and "r = None \<or> r = Some ENotExist"
  shows "bound w' = bound w" and "printed w' = printed w" and "node_at w' p = None"
    and "q \<noteq> p \<Longrightarrow> node_at w' q = node_at w q" and "distinct_paths w \<Longrightarrow> distinct_paths w'"
  using assms
  by (auto simp: remove_file_def distinct_delete split: fault.splits option.splits node.splits if_splits)

lemma dns_remove_applied:
  assumes wf: "dns_wf e m w" and rem: "dns_remove e m port w = (r, w')" "applied r"
  shows "dns_wf e m w'"
    and "dns_entry (files w') m = (dns_entry (files w) m)(conf_name port := None)"
    and "hosts_synced m w'" and "bound w' = bound w" and "printed w' = printed w"
proof -
  from rem obtain r1 w1 where w1: "remove_file e (conf_path m port) w = (r1, w1)" "r1 = None \<or> r1 = Some ENotExist"
    and w': "sync_and_reload e m w1 = (r, w')"
    by (auto simp: dns_remove_def applied_def split: prod.splits option.splits os_err.splits)
  note rf = remove_file_result [OF w1]
  have "dns_wf e m w1"
    using wf rf(4) [of "dns_dir m"] rf(5) conf_path_not_dir [of m port] by (auto simp: dns_wf_def)
  note sync = sync_and_reload_ok [OF this w' rem(2) [unfolded applied_in]]
  show "dns_wf e m w'" "hosts_synced m w'" by (fact sync)+
  show "bound w' = bound w" "printed w' = printed w" using sync rf by simp_all
  have "dns_entry (files w1) m n = ((dns_entry (files w) m)(conf_name port := None)) n" for n
  proof (cases "n = conf_name port")
    case True
    then show ?thesis using rf(3) by (simp add: dns_entry_gone)
  next
    case False
    then show ?thesis
      using dns_entry_cong [of "conf_name port" "files w1" m "files w" n] rf(4)
        join_path_inj conf_name_plain unfolding conf_path_def by (metis fun_upd_other)
  qed
  then show "dns_entry (files w') m = (dns_entry (files w) m)(conf_name port := None)"
    unfolding sync(2) by blast
qed

section \<open>The manager is a store of lines by port\<close>

fun dns_put :: "int \<Rightarrow> string \<times> string \<Rightarrow> os_env \<times> manager \<times> world \<Rightarrow> bool \<times> os_env \<times> manager \<times> world" where
  "dns_put port (name, ip) (e, m, w) =
     (case dns_add e m port name ip w of (r, w') \<Rightarrow> (applied r, e, m, w'))"

fun dns_del :: "int \<Rightarrow> os_env \<times> manager \<times> world \<Rightarrow> bool \<times> os_env \<times> manager \<times> world" where
  "dns_del port (e, m, w) = (case dns_remove e m port w of (r, w') \<Rightarrow> (applied r, e, m, w'))"

fun dns_look :: "os_env \<times> manager \<times> world \<Rightarrow> int \<Rightarrow> string option" where
  "dns_look (e, m, w) port = dns_entry (files w) m (conf_name port)"

fun dns_shown :: "string \<times> string \<Rightarrow> string" where
  "dns_shown (name, ip) = dns_line (trim_space ip) (trim_space name)"

fun dns_state_wf :: "os_env \<times> manager \<times> world \<Rightarrow> bool" where
  "dns_state_wf (e, m, w) = dns_wf e m w"

interpretation lad_dns: fallible_store dns_put dns_del dns_look dns_shown dns_state_wf
proof
  fix s s' :: "os_env \<times> manager \<times> world" and k :: int and v :: "string \<times> string"
  obtain e m w name ip where s: "s = (e, m, w)" "v = (name, ip)" by (cases s; cases v) auto
  assume wf: "dns_state_wf s"
  then have env: "reads_fine e" "reload_quiet e" "distinct_paths w" "\<not> is_conf_name (base_name (dns_dir m))"
    by (auto simp: s dns_wf_def)
  show "dns_look s' = (dns_look s)(k \<mapsto> dns_shown v) \<and> dns_state_wf s'" if "dns_put k v s = (True, s')"
  proof -
    from that obtain r w' where "dns_add e m k name ip w = (r, w')" "applied r" "s' = (e, m, w')"
      by (auto simp: s split: prod.splits)
    with dns_add_applied [OF env this(1,2)] show ?thesis
      by (auto simp: s fun_eq_iff dest: conf_name_inj)
  qed
  show "dns_look s' = (dns_look s)(k := None) \<and> dns_state_wf s'" if "dns_del k s = (True, s')"
  proof -
    from that obtain r w' where "dns_remove e m k w = (r, w')" "applied r" "s' = (e, m, w')"
      by (auto simp: s split: prod.splits)
    with dns_remove_applied [OF wf [unfolded s dns_state_wf.simps] this(1,2)] show ?thesis
      by (auto simp: s fun_eq_iff dest: conf_name_inj)
  qed
qed

end
