(* ===== verification/Dnsmasq_Laws.thy ===== *)
theory Dnsmasq_Laws
  imports Dnsmasq_View
begin

text \<open>
  What \<open>Add\<close> and \<open>Remove\<close> promise: refusal of malformed input, publication, success when the system
  refuses nothing, the round trip, and what is left when only the reload fails.
\<close>

section \<open>What the resolver is told\<close>

text \<open>
  An address or a name that is not well formed, after trimming, is refused before anything is
  done: no file is written, no command runs, and the state is the one before the call.
\<close>

theorem dns_add_rejects:
  assumes "\<not> parse_ip_ok (trim_space ip) \<or> \<not> valid_hostname (trim_space name)"
  shows "snd (dns_add e m port name ip w) = w \<and>
    fst (dns_add e m port name ip w) \<in> {Some (InvalidIp (trim_space ip)), Some (InvalidHostname (trim_space name))}"
  using assms by (auto simp: dns_add_def Let_def)

lemma demo_hostname: "\<not> valid_hostname (trim_space (''good.test'' @ [CHR 0x0A] @ ''evil.test''))"
  by (simp add: valid_hostname_iff trim_space_ascii host_c_def alnum_c_def class_defs)

theorem dns_add_rejects_witness:
  "snd (dns_add (calm_env Linux) (new_manager ''/d'') 8002 (''good.test'' @ [CHR 0x0A] @ ''evil.test'')
      ''127.0.0.1'' (dir_world ''/d'')) = dir_world ''/d''"
  using dns_add_rejects demo_hostname by blast

text \<open>
  C16: an \<open>Add\<close> that succeeds publishes exactly its entry: the view of the state files changes for
  this port only, to the trimmed address and name, both of which are well formed, and the \<open>hosts\<close>
  file that dnsmasq reads is the rendered view. Reads of the state directory must not fail, since
  a state file that cannot be read is left out.
\<close>

theorem dns_add_publishes:
  assumes "reads_fine e" and "reload_quiet e" and "distinct_paths w"
    and "\<not> is_conf_name (base_name (dns_dir m))"
    and "dns_add e m port name ip w = (None, w')"
  shows "dns_entry (files w') m
      = (dns_entry (files w) m)(conf_name port \<mapsto> dns_line (trim_space ip) (trim_space name))
    \<and> hosts_synced m w' \<and> entry_line (dns_line (trim_space ip) (trim_space name))"
  using dns_add_applied [OF assms(1-5)] by (auto simp: applied_def entry_line_def)

definition demo_manager :: manager where
  "demo_manager = new_manager ''/d''"

lemma calm_reads: "reads_fine (calm_env g)" "reload_quiet (calm_env g)"
  by (simp_all add: reads_fine_def reload_quiet_def calm_env_def)

lemma demo_dns_dir: "\<not> is_conf_name (base_name (dns_dir demo_manager))"
  by (simp add: demo_manager_def new_manager_def base_name_def is_conf_name_def has_prefix_def)

definition reload_works :: "os_env \<Rightarrow> bool" where
  "reload_works e \<longleftrightarrow> (\<forall>t f. fst (shell e t (reload_argv (platform e)) '''' f))"

lemma sync_reaches_reload:
  assumes "all_fine e" "may_hold_file w (hosts_path m)" "is_dir w (dns_dir m)"
  shows "\<exists>w1. sync_and_reload e m w = reload e w1"
proof -
  have parent: "has_parent w (hosts_path m)"
    unfolding hosts_path_def using has_parent_in [OF assms(3) hosts_plain(1)] .
  have "reads_fine e" using assms(1) by (simp add: reads_fine_def all_fine_def)
  from collect_entry_lines [OF this, of m w] obtain k where
    "(case read_dir e (dns_dir m) w of ((ns, _), w1) \<Rightarrow> collect_lines e m ns w1)
      = (entry_lines (files w) m, w\<lparr>tick := k\<rparr>)" by blast
  then have eq: "write_hosts_file e m w
      = write_file e (hosts_path m) (hosts_text (files w) m) mode_644 (w\<lparr>tick := k\<rparr>)"
    by (auto simp: write_hosts_file_def hosts_text_def split: prod.splits)
  have "may_hold_file (w\<lparr>tick := k\<rparr>) (hosts_path m)" using assms(2) by (simp add: may_hold_file_def)
  then obtain w1 where "write_hosts_file e m w = (None, w1)"
    unfolding eq using write_file_fine [OF assms(1)] parent by (metis has_parent_tick)
  then show ?thesis by (auto simp: sync_and_reload_def)
qed

lemma add_reaches_reload:
  assumes "all_fine e" and "dir_ready w (dns_dir m)"
    and "may_hold_file w (conf_path m port)" and "may_hold_file w (hosts_path m)"
    and "parse_ip_ok (trim_space ip)" and "valid_hostname (trim_space name)"
  shows "\<exists>w1. dns_add e m port name ip w = reload e w1"
proof -
  let ?c = "dns_line (trim_space ip) (trim_space name) @ [CHR 0x0A]"
  have dir: "is_dir w (dns_dir m)" using assms(2) by (simp add: dir_ready_def is_dir_def)
  then have "has_parent w (conf_path m port)" unfolding conf_path_def using conf_name_plain by (rule has_parent_in)
  then obtain k where w2: "write_file e (conf_path m port) ?c mode_644 w
      = (None, (ticked w)\<lparr>files := AList.update (conf_path m port) (FileNode k ?c) (files w)\<rparr>)"
    using write_file_fine [OF assms(1,3)] by blast
  have "is_dir ((ticked w)\<lparr>files := AList.update (conf_path m port) (FileNode k ?c) (files w)\<rparr>) (dns_dir m)"
    by (rule is_dir_update [OF dir assms(3)]) simp
  moreover have "may_hold_file ((ticked w)\<lparr>files := AList.update (conf_path m port) (FileNode k ?c) (files w)\<rparr>) (hosts_path m)"
    using assms(4) conf_path_not_hosts [of m port] by (simp add: may_hold_file_def)
  ultimately show ?thesis using sync_reaches_reload [OF assms(1)] w2
    assms(5,6) by (auto simp: dns_add_def Let_def mkdir_all_ready [OF assms(2)])
qed

lemma reload_works_None: "reload_works e \<Longrightarrow> fst (reload e w) = None"
proof -
  assume "reload_works e"
  then have "fst (shell e (tick w) (reload_argv (platform e)) '''' (files w))"
    unfolding reload_works_def by blast
  then show ?thesis
    by (cases "shell e (tick w) (reload_argv (platform e)) '''' (files w)") (auto simp: reload_def run_cmd_def)
qed

lemma sync_and_reload_completes:
  "all_fine e \<Longrightarrow> reload_works e \<Longrightarrow> may_hold_file w (hosts_path m) \<Longrightarrow> is_dir w (dns_dir m) \<Longrightarrow>
   \<exists>w'. sync_and_reload e m w = (None, w')"
  using sync_reaches_reload reload_works_None by (metis prod.collapse)

lemma dns_add_runs:
  "all_fine e \<Longrightarrow> reload_works e \<Longrightarrow> dir_ready w (dns_dir m) \<Longrightarrow> may_hold_file w (conf_path m port) \<Longrightarrow>
   may_hold_file w (hosts_path m) \<Longrightarrow> parse_ip_ok (trim_space ip) \<Longrightarrow> valid_hostname (trim_space name) \<Longrightarrow>
   fst (dns_add e m port name ip w) = None"
  using add_reaches_reload reload_works_None by metis

text \<open>
  An \<open>Add\<close> of a well-formed address and name is not refused: when the system refuses none of
  the calls and dnsmasq can be signalled, it returns no error.
\<close>

theorem dns_add_completes:
  assumes "all_fine e" and "reload_works e" and "dir_ready w (dns_dir m)"
    and "may_hold_file w (conf_path m port)" and "may_hold_file w (hosts_path m)"
    and "parse_ip_ok (trim_space ip)" and "valid_hostname (trim_space name)"
  shows "fst (dns_add e m port name ip w) = None"
  by (rule dns_add_runs) (fact assms)+

lemma demo_paths: "conf_path demo_manager 8001 = ''/d/port-8001.conf''" "hosts_path demo_manager = ''/d/hosts''"
  by (simp_all add: conf_path_def hosts_path_def demo_manager_def new_manager_def conf_name_def itoa_def
      nat_dec.simps join_path_def clean_path_def has_prefix_def)

lemma demo_texts:
  "trim_space ''a.test'' = ''a.test''" "trim_space ''127.0.1.1'' = ''127.0.1.1''"
  "parse_ip_ok ''127.0.1.1''" "valid_hostname ''a.test''"
  by (simp_all add: trim_space_none ascii_def is_space_c_def valid_hostname_iff host_c_def alnum_c_def
      class_defs parse_ip_ok_def)

lemma demo_dns_ready:
  "dir_ready (dir_world ''/d'') (dns_dir demo_manager)" "reload_works (calm_env g)"
  "may_hold_file (dir_world ''/d'') (conf_path demo_manager 8001)"
  "may_hold_file (dir_world ''/d'') (hosts_path demo_manager)"
  by (simp_all only: demo_paths)
    (simp_all add: dir_ready_def dir_world_def ancestors_def demo_manager_def new_manager_def
      reload_works_def calm_env_def may_hold_file_def)

theorem dns_add_completes_witness:
  "fst (dns_add (calm_env Linux) demo_manager 8001 ''a.test'' ''127.0.1.1'' (dir_world ''/d'')) = None"
  using demo_texts by (intro dns_add_completes calm_fine demo_dns_ready) auto

definition demo_world :: world where
  "demo_world = snd (dns_add (calm_env Linux) demo_manager 8001 ''a.test'' ''127.0.1.1'' (dir_world ''/d''))"

lemma demo_add: "dns_add (calm_env Linux) demo_manager 8001 ''a.test'' ''127.0.1.1'' (dir_world ''/d'')
    = (None, demo_world)"
  using dns_add_runs [OF calm_fine demo_dns_ready(2,1,3,4), of "''127.0.1.1''" "''a.test''" Linux] demo_texts
  by (simp add: demo_world_def prod_eq_iff)

lemma demo_dns_wf: "dns_wf (calm_env g) demo_manager (dir_world ''/d'')"
  using calm_reads demo_dns_dir
  by (simp add: dns_wf_def) (simp add: dir_world_def demo_manager_def new_manager_def)

lemma demo_dns_empty: "dns_entry (files (dir_world ''/d'')) demo_manager n = None"
proof (cases "plain_name n")
  case True
  then have "n \<noteq> ''d'' \<Longrightarrow> join_path [''/d'', n] \<noteq> ''/d''"
    using base_name_join [OF True, of "''/d''"] by (auto simp: base_name_def)
  then show ?thesis
    by (cases "n = ''d''")
      (auto simp: dns_entry_def dir_world_def demo_manager_def new_manager_def is_conf_name_def has_prefix_def)
qed (simp add: dns_entry_def)

theorem dns_add_publishes_witness:
  "hosts_synced demo_manager demo_world
   \<and> dns_entry (files demo_world) demo_manager (conf_name 8001) = Some (dns_line ''127.0.1.1'' ''a.test'')"
  using dns_add_publishes [OF calm_reads _ demo_dns_dir demo_add] demo_dns_wf [of Linux]
  by (simp add: demo_texts dns_wf_def)

text \<open>
  C17: removing a port undoes adding it: from a state where \<open>hosts\<close> shows the view and the port has
  no entry, an applied \<open>Add\<close> and an applied \<open>Remove\<close> of that port leave the view, and so the
  content of \<open>hosts\<close>, as they were.
\<close>

theorem dns_add_remove_roundtrip:
  assumes "dns_wf e m w" and "hosts_synced m w" and "dns_entry (files w) m (conf_name port) = None"
    and "dns_add e m port name ip w = (r1, w1)" and "applied r1"
    and "dns_remove e m port w1 = (r2, w2)" and "applied r2"
  shows "dns_entry (files w2) m = dns_entry (files w) m
    \<and> (\<exists>j k c. node_at w (hosts_path m) = Some (FileNode j c) \<and> node_at w2 (hosts_path m) = Some (FileNode k c))"
proof
  have env: "reads_fine e" "reload_quiet e" "distinct_paths w" "\<not> is_conf_name (base_name (dns_dir m))"
    using assms(1) by (simp_all add: dns_wf_def)
  note a = dns_add_applied [OF env assms(4,5)]
  note r = dns_remove_applied [OF a(1) assms(6,7)]
  show same: "dns_entry (files w2) m = dns_entry (files w) m"
    by (simp add: r(2) a(2) fun_upd_idem assms(3))
  have "hosts_text (files w2) m = hosts_text (files w) m"
    using assms(1) r(1) same by (auto simp: dns_wf_def intro!: hosts_text_cong)
  with assms(2) r(3) show "\<exists>j k c. node_at w (hosts_path m) = Some (FileNode j c)
      \<and> node_at w2 (hosts_path m) = Some (FileNode k c)"
    by (auto simp: hosts_synced_def)
qed

definition synced_world :: world where
  "synced_world = (dir_world ''/d'')\<lparr>files := [(''/d'', DirNode mode_755), (''/d/hosts'', FileNode mode_644 '''')]\<rparr>"

lemma synced_world_empty: "dns_entry (files synced_world) demo_manager n = None"
proof -
  have "files synced_world = AList.update (hosts_path demo_manager) (FileNode mode_644 '''') (files (dir_world ''/d''))"
    by (simp add: synced_world_def dir_world_def demo_paths)
  then show ?thesis using demo_dns_empty by (simp add: dns_entry_hosts_update)
qed

lemma synced_world_wf: "dns_wf (calm_env g) demo_manager synced_world"
  using demo_dns_wf [of g] by (simp add: dns_wf_def synced_world_def dir_world_def demo_manager_def new_manager_def)

lemma synced_world_synced: "hosts_synced demo_manager synced_world"
proof -
  have "entry_lines (files synced_world) demo_manager = []"
    using synced_world_wf [of Linux] synced_world_empty by (auto simp: dns_wf_def entry_lines_view dom_def)
  then show ?thesis
    unfolding hosts_synced_def demo_paths by (simp add: hosts_text_def) (simp add: synced_world_def)
qed

lemma synced_world_ready:
  "dir_ready synced_world (dns_dir demo_manager)"
  "may_hold_file synced_world (conf_path demo_manager 8001)"
  "may_hold_file synced_world (hosts_path demo_manager)"
  by (simp_all only: demo_paths)
    (simp_all add: dir_ready_def synced_world_def dir_world_def ancestors_def demo_manager_def
      new_manager_def may_hold_file_def)

lemma remove_keeps_hosts:
  assumes "all_fine e" "reload_works e" "may_hold_file w (hosts_path m)" "may_hold_file w (conf_path m port)"
    and "is_dir w (dns_dir m)"
  shows "\<exists>w'. dns_remove e m port w = (None, w')"
proof -
  have "fst (remove_file e (conf_path m port) w) \<noteq> Some EOther"
    using assms(1,4) by (auto simp: remove_file_def all_fine_def may_hold_file_def split: option.splits node.splits)
  moreover have "may_hold_file (snd (remove_file e (conf_path m port) w)) (hosts_path m)"
    using assms(3) remove_file_frame conf_path_not_hosts [of m port] by (metis may_hold_file_def)
  ultimately show ?thesis
    using sync_and_reload_completes [OF assms(1,2)] is_dir_remove [OF assms(5,4), of e] unfolding dns_remove_def
    by (fastforce split: prod.splits option.splits os_err.splits)
qed

lemma synced_may_hold: "hosts_synced m w \<Longrightarrow> may_hold_file w (hosts_path m)"
  by (auto simp: hosts_synced_def may_hold_file_def)

lemma entry_may_hold: "dns_entry (files w) m (conf_name p) \<noteq> None \<Longrightarrow> may_hold_file w (conf_path m p)"
  by (auto simp: dns_entry_def conf_path_def may_hold_file_def split: if_splits option.splits node.splits)

theorem dns_add_remove_roundtrip_witness:
  "\<exists>w1 w2. dns_add (calm_env Linux) demo_manager 8001 ''a.test'' ''127.0.1.1'' synced_world = (None, w1)
     \<and> dns_remove (calm_env Linux) demo_manager 8001 w1 = (None, w2)
     \<and> dns_entry (files w2) demo_manager = dns_entry (files synced_world) demo_manager"
proof -
  obtain w1 where add: "dns_add (calm_env Linux) demo_manager 8001 ''a.test'' ''127.0.1.1'' synced_world = (None, w1)"
    using dns_add_runs [OF calm_fine demo_dns_ready(2) synced_world_ready, of "''127.0.1.1''" "''a.test''" Linux]
      demo_texts by (metis prod.collapse)
  have none: "applied None" by (simp add: applied_def)
  have env: "distinct_paths synced_world" using synced_world_wf [of Linux] by (simp add: dns_wf_def)
  note a = dns_add_applied [OF calm_reads env demo_dns_dir add none]
  have "may_hold_file w1 (conf_path demo_manager 8001)" by (rule entry_may_hold) (simp add: a(2))
  moreover have "is_dir w1 (dns_dir demo_manager)" using a(1) by (auto simp: dns_wf_def is_dir_def)
  ultimately obtain w2 where rem: "dns_remove (calm_env Linux) demo_manager 8001 w1 = (None, w2)"
    using remove_keeps_hosts [OF calm_fine demo_dns_ready(2) synced_may_hold [OF a(3)]] by blast
  have "dns_entry (files w2) demo_manager = dns_entry (files synced_world) demo_manager"
    using dns_add_remove_roundtrip [OF synced_world_wf synced_world_synced synced_world_empty add none rem none]
    by (rule conjunct1)
  with add rem show ?thesis by blast
qed

text \<open>
  C27: an \<open>Add\<close> that reports nothing but a failed reload has published its entry all the same:
  the state file is written and \<open>hosts\<close> shows it, so the name appears with the next reload, whoever
  causes it. The caller is told of a failure and has nothing that takes the entry out again.
\<close>

theorem dns_add_reload_failure_publishes:
  assumes "reads_fine e" and "reload_quiet e" and "distinct_paths w"
    and "\<not> is_conf_name (base_name (dns_dir m))"
    and "dns_add e m port name ip w = (Some ReloadFailed, w')"
  shows "dns_entry (files w') m (conf_name port) = Some (dns_line (trim_space ip) (trim_space name))
    \<and> hosts_synced m w'"
  using dns_add_applied [OF assms(1-5)] by (simp add: applied_def)

definition no_dnsmasq_env :: os_env where
  "no_dnsmasq_env = (calm_env Linux)\<lparr>shell := \<lambda>_ _ _ f. (False, '''', f)\<rparr>"

lemma no_dnsmasq:
  "reads_fine no_dnsmasq_env" "reload_quiet no_dnsmasq_env" "all_fine no_dnsmasq_env"
  "fst (reload no_dnsmasq_env w) = Some ReloadFailed"
  by (simp_all add: reads_fine_def reload_quiet_def all_fine_def no_dnsmasq_env_def calm_env_def
      reload_def run_cmd_def)

theorem dns_add_reload_failure_publishes_witness:
  "\<exists>w'. dns_add no_dnsmasq_env demo_manager 8001 ''a.test'' ''127.0.1.1'' synced_world = (Some ReloadFailed, w')
     \<and> hosts_synced demo_manager w'
     \<and> dns_entry (files w') demo_manager (conf_name 8001) = Some (dns_line ''127.0.1.1'' ''a.test'')"
proof -
  obtain w' where add: "dns_add no_dnsmasq_env demo_manager 8001 ''a.test'' ''127.0.1.1'' synced_world
      = (Some ReloadFailed, w')"
    using add_reaches_reload [OF no_dnsmasq(3) synced_world_ready, of "''127.0.1.1''" "''a.test''"]
      no_dnsmasq(4) demo_texts by (metis prod.collapse)
  have env: "distinct_paths synced_world" using synced_world_wf [of Linux] by (simp add: dns_wf_def)
  from dns_add_reload_failure_publishes [OF no_dnsmasq(1,2) env demo_dns_dir add] add demo_texts
  show ?thesis by auto
qed

end
