(* ===== verification/Dnsmasq_Hosts.thy ===== *)
theory Dnsmasq_Hosts
  imports Dnsmasq_Laws "HOL-Library.Sublist"
begin

text \<open>
  Whatever calls are made and whichever of them fail, also halfway, every line of the hosts file is
  an address, a tab and a host name, or a beginning of that.
\<close>

section \<open>No text reaches the hosts file but well-formed entries\<close>

text \<open>A beginning of an entry, which is what a write leaves that fails halfway.\<close>

definition entry_part :: "string \<Rightarrow> bool" where
  "entry_part l \<longleftrightarrow> (\<exists>l'. entry_line l' \<and> prefix l l')"

definition no_torn :: "os_env \<Rightarrow> bool" where
  "no_torn e \<longleftrightarrow> (\<forall>t op p n. fault_at e t op p \<noteq> Torn n)"

definition line_ok :: "os_env \<Rightarrow> string \<Rightarrow> bool" where
  "line_ok e l \<longleftrightarrow> (if no_torn e then entry_line l else entry_part l)"

text \<open>The content: whole lines, each ended, unless a write was torn.\<close>

definition hosts_lines :: "string list \<Rightarrow> string" where
  "hosts_lines ls = concat (map (\<lambda>l. l @ [CHR 0x0A]) ls)"

definition hosts_ok :: "os_env \<Rightarrow> string \<Rightarrow> bool" where
  "hosts_ok e c \<longleftrightarrow>
     (if no_torn e then \<exists>ls. list_all entry_line ls \<and> c = hosts_lines ls
      else list_all entry_part (split_on CHR 0x0A c))"

text \<open>What the directory holds of either kind.\<close>

definition dns_clean :: "os_env \<Rightarrow> manager \<Rightarrow> world \<Rightarrow> bool" where
  "dns_clean e m w \<longleftrightarrow> (\<forall>n l. dns_entry (files w) m n = Some l \<longrightarrow> line_ok e l)
     \<and> (\<forall>j c. node_at w (hosts_path m) = Some (FileNode j c) \<longrightarrow> hosts_ok e c)"

lemma entry_part_prefix: "entry_part l \<Longrightarrow> prefix l' l \<Longrightarrow> entry_part l'"
  unfolding entry_part_def using prefix_order.trans by blast

lemma entry_line_part: "entry_line l \<Longrightarrow> entry_part l"
  unfolding entry_part_def by blast

lemma entry_part_no_newline: "entry_part l \<Longrightarrow> CHR 0x0A \<notin> set l"
  unfolding entry_part_def using entry_line_no_newline set_mono_prefix by blast

lemma empty_part: "entry_part ''''"
proof -
  have "entry_line (dns_line ''127.0.1.1'' ''a.test'')" using demo_texts by (auto simp: entry_line_def)
  then show ?thesis using entry_part_prefix [OF entry_line_part] by simp
qed

lemma line_ok_part: "line_ok e l \<Longrightarrow> entry_part l"
  by (auto simp: line_ok_def entry_line_part split: if_splits)

lemma join_newlines: "join [CHR 0x0A] ls @ (if ls \<noteq> [] then [CHR 0x0A] else []) = hosts_lines ls"
  unfolding hosts_lines_def by (induction ls rule: induct_list012) auto

section \<open>What a torn write leaves\<close>

lemma split_on_hosts_lines: "list_all entry_part ls \<Longrightarrow> split_on CHR 0x0A (hosts_lines ls) = ls @ ['''']"
  unfolding hosts_lines_def by (induction ls) (auto simp: split_on_append_sep entry_part_no_newline)

text \<open>Cutting a text cuts one of its lines and drops those after it.\<close>

lemma split_on_take:
  "\<exists>ls l' l rest. split_on c (take n s) = ls @ [l'] \<and> split_on c s = ls @ l # rest \<and> prefix l' l"
proof (induction s arbitrary: n)
  case Nil
  show ?case by (intro exI [of _ "[]"]) simp
next
  case (Cons a s)
  obtain y ys where s: "split_on c s = y # ys" by (cases "split_on c s") auto
  show ?case
  proof (cases n)
    case 0
    then show ?thesis using s by (cases "a = c") (auto intro!: exI [of _ "[]"])
  next
    case (Suc k)
    obtain ls l' l rest where IH: "split_on c (take k s) = ls @ [l']" "split_on c s = ls @ l # rest" "prefix l' l"
      using Cons.IH [of k] by blast
    show ?thesis
    proof (cases "a = c")
      case True
      then show ?thesis using IH Suc by (intro exI [of _ "[] # ls"]) auto
    next
      case False
      show ?thesis
      proof (cases ls)
        case Nil
        then show ?thesis using IH Suc False
          by (intro exI [of _ "[]"] exI [of _ "a # l'"] exI [of _ "a # l"] exI [of _ rest]) simp
      next
        case (Cons z zs)
        then show ?thesis using IH Suc False by (intro exI [of _ "(a # z) # zs"]) auto
      qed
    qed
  qed
qed

lemma torn_lines: "list_all entry_part (split_on CHR 0x0A c) \<Longrightarrow> list_all entry_part (split_on CHR 0x0A (take n c))"
proof -
  assume c: "list_all entry_part (split_on CHR 0x0A c)"
  obtain ls l' l rest where "split_on CHR 0x0A (take n c) = ls @ [l']" "split_on CHR 0x0A c = ls @ l # rest" "prefix l' l"
    using split_on_take by blast
  with c show ?thesis by (auto intro: entry_part_prefix)
qed

lemma torn_entry: "entry_line l \<Longrightarrow> entry_part (trim_space (take n (l @ [CHR 0x0A])))"
proof -
  assume l: "entry_line l"
  show ?thesis
  proof (cases "n \<le> length l")
    case True
    let ?p = "take n l"
    have p: "all_ascii ?p" using entry_line_plain [OF l] by (auto simp: list_all_iff dest: in_set_takeD)
    have "dropWhile is_space_c ?p = ?p" using entry_line_plain [OF l] by (cases l; cases n) auto
    then have "trim_space ?p = rev (dropWhile is_space_c (rev ?p))" by (simp add: trim_space_ascii [OF p])
    moreover have "prefix (rev (dropWhile is_space_c (rev ?p))) ?p"
      using suffix_dropWhile [of is_space_c "rev ?p"] by (simp add: suffix_to_prefix)
    moreover have "prefix ?p l" by (rule take_is_prefix)
    ultimately show ?thesis using True entry_part_prefix [OF entry_line_part [OF l]] prefix_order.trans by (metis take_append diff_is_0_eq take0 append_Nil2)
  qed (simp add: entry_line_trim [OF l] entry_line_part [OF l])
qed

text \<open>A write leaves the file alone, or writes it whole, or leaves a beginning.\<close>

lemma write_file_leaves:
  assumes "write_file e p c mode w = (r, w')"
  obtains "files w' = files w" | k where "files w' = AList.update p (FileNode k c) (files w)"
    | k n where "\<not> no_torn e" "files w' = AList.update p (FileNode k (take n c)) (files w)"
proof -
  have "files w' = files w \<or> (\<exists>k. files w' = AList.update p (FileNode k c) (files w))
      \<or> (\<not> no_torn e \<and> (\<exists>k n. files w' = AList.update p (FileNode k (take n c)) (files w)))"
  proof (cases "fault_at e (tick w) OpWrite p")
    case Fine
    with assms show ?thesis
      by (auto simp: write_file_def put_file_def split: option.splits node.splits if_splits)
  next
    case Refused
    with assms show ?thesis by (auto simp: write_file_def)
  next
    case (Torn n)
    then have "\<not> no_torn e" by (auto simp: no_torn_def)
    with Torn assms show ?thesis
      by (auto simp: write_file_def put_file_def split: option.splits node.splits if_splits; blast)
  qed
  with that show thesis by blast
qed

section \<open>The calls\<close>

lemma collect_lines_sub:
  "collect_lines e m ns w = (ls, w') \<Longrightarrow> \<forall>n \<in> set ns. CHR ''/'' \<notin> set n \<Longrightarrow>
   files w' = files w \<and> set ls \<subseteq> Map.ran (dns_entry (files w) m)"
proof (induction ns arbitrary: w ls w')
  case (Cons n ns)
  obtain r w1 where rd: "read_file e (join_path [dns_dir m, n]) w = (r, w1)" by fastforce
  then have w1: "w1 = ticked w" using read_file_world by (metis snd_conv)
  obtain ls' w2 where cl: "collect_lines e m ns w1 = (ls', w2)" by fastforce
  have sl: "CHR ''/'' \<notin> set n" "\<forall>n \<in> set ns. CHR ''/'' \<notin> set n" using Cons.prems(2) by auto
  have IH: "files w2 = files w" "set ls' \<subseteq> Map.ran (dns_entry (files w) m)"
    using Cons.IH [OF cl sl(2)] by (simp_all add: w1)
  show ?case
  proof (cases "is_conf_name n")
    case False
    with Cons.prems(1) have "collect_lines e m ns w = (ls, w')" by simp
    then show ?thesis by (rule Cons.IH [OF _ sl(2)])
  next
    case True
    show ?thesis
    proof (cases r)
      case (Inl er)
      with Cons.prems(1) True rd cl have "ls = ls'" "w' = w2" by auto
      with IH show ?thesis by simp
    next
      case (Inr data)
      from rd Inr obtain k where "node_at w (join_path [dns_dir m, n]) = Some (FileNode k data)"
        by (auto simp: read_file_def split: fault.splits option.splits node.splits)
      then have "trim_space data \<noteq> '''' \<Longrightarrow> dns_entry (files w) m n = Some (trim_space data)"
        using True sl by (simp add: dns_entry_def conf_plain)
      then have "trim_space data \<noteq> '''' \<Longrightarrow> trim_space data \<in> Map.ran (dns_entry (files w) m)" by (rule ranI)
      moreover have "ls = (if trim_space data \<noteq> '''' then trim_space data # ls' else ls')" "w' = w2"
        using Cons.prems(1) True rd Inr cl by (auto simp: Let_def)
      ultimately show ?thesis using IH by simp
    qed
  qed
qed simp

lemma dns_clean_files: "dns_clean e m w \<Longrightarrow> files w' = files w \<Longrightarrow> dns_clean e m w'"
  by (simp add: dns_clean_def)

lemma dns_clean_hosts_update:
  "dns_clean e m w \<Longrightarrow> hosts_ok e c \<Longrightarrow> files w' = AList.update (hosts_path m) (FileNode k c) (files w) \<Longrightarrow>
   dns_clean e m w'"
  by (simp add: dns_clean_def dns_entry_hosts_update)

lemma dns_clean_conf_update:
  "dns_clean e m w \<Longrightarrow> trim_space c = '''' \<or> line_ok e (trim_space c) \<Longrightarrow>
   files w' = AList.update (conf_path m p) (FileNode k c) (files w) \<Longrightarrow> dns_clean e m w'"
  using conf_path_not_hosts [of m p] by (auto simp: dns_clean_def dns_entry_update split: if_splits)

lemma dns_clean_write_conf:
  assumes "dns_clean e m w" "entry_line l" "write_file e (conf_path m p) (l @ [CHR 0x0A]) mode w = (r, w')"
  shows "dns_clean e m w'"
  using assms(3)
proof (cases rule: write_file_leaves)
  case 1
  then show ?thesis by (rule dns_clean_files [OF assms(1)])
next
  case (2 k)
  have "line_ok e (trim_space (l @ [CHR 0x0A]))"
    using assms(2) by (simp add: entry_line_trim line_ok_def entry_line_part)
  with 2 show ?thesis using dns_clean_conf_update [OF assms(1)] by blast
next
  case (3 k n)
  have "line_ok e (trim_space (take n (l @ [CHR 0x0A])))"
    using torn_entry [OF assms(2)] 3(1) by (simp add: line_ok_def)
  with 3 show ?thesis using dns_clean_conf_update [OF assms(1)] by blast
qed

lemma dns_clean_write_hosts:
  assumes "dns_clean e m w" "list_all (line_ok e) ls"
    and "write_file e (hosts_path m) (hosts_lines ls) mode w = (r, w')"
  shows "dns_clean e m w'"
proof -
  have part: "list_all entry_part ls" using assms(2) by (auto simp: list_all_iff line_ok_part)
  have lines: "list_all entry_part (split_on CHR 0x0A (hosts_lines ls))"
    using part empty_part by (simp add: split_on_hosts_lines)
  have ok: "hosts_ok e (hosts_lines ls)" using assms(2) lines by (auto simp: hosts_ok_def line_ok_def [abs_def])
  from assms(3) show ?thesis
  proof (cases rule: write_file_leaves)
    case 1
    then show ?thesis by (rule dns_clean_files [OF assms(1)])
  next
    case (2 k)
    then show ?thesis by (rule dns_clean_hosts_update [OF assms(1) ok])
  next
    case (3 k n)
    have "hosts_ok e (take n (hosts_lines ls))" using torn_lines [OF lines] 3(1) by (simp add: hosts_ok_def)
    then show ?thesis using 3(2) by (rule dns_clean_hosts_update [OF assms(1)])
  qed
qed

lemma dns_clean_sync:
  assumes "reload_quiet e" "dns_clean e m w" "sync_and_reload e m w = (r, w')"
  shows "dns_clean e m w'"
proof -
  obtain r1 w1 where wh: "write_hosts_file e m w = (r1, w1)" by fastforce
  obtain ns er w2 where rd: "read_dir e (dns_dir m) w = ((ns, er), w2)" by (metis prod.collapse)
  obtain ls w3 where cl: "collect_lines e m ns w2 = (ls, w3)" by fastforce
  have w2: "w2 = ticked w" using rd read_dir_world by (metis snd_conv)
  have "\<forall>n \<in> set ns. CHR ''/'' \<notin> set n" using rd read_dir_no_slash by (metis fst_conv)
  from collect_lines_sub [OF cl this] have w3: "files w3 = files w"
    and ls: "set ls \<subseteq> Map.ran (dns_entry (files w) m)" by (simp_all add: w2)
  have ok: "list_all (line_ok e) ls"
    using ls assms(2) by (fastforce simp: list_all_iff dns_clean_def Map.ran_def)
  have "write_file e (hosts_path m) (hosts_lines ls) mode_644 w3 = (r1, w1)"
    using wh rd cl join_newlines [of ls] by (simp add: write_hosts_file_def)
  from dns_clean_write_hosts [OF dns_clean_files [OF assms(2) w3] ok this] have w1: "dns_clean e m w1" .
  show ?thesis
  proof (cases r1)
    case None
    then have "reload e w1 = (r, w')" using assms(3) wh by (simp add: sync_and_reload_def)
    from reload_ok [OF assms(1) this] have "files w' = files w1" by simp
    then show ?thesis by (rule dns_clean_files [OF w1])
  next
    case (Some er)
    then show ?thesis using assms(3) wh w1 by (simp add: sync_and_reload_def)
  qed
qed

lemma dns_clean_gone:
  assumes "dns_clean e m w" and "\<And>q. node_at w' q = node_at w q \<or> node_at w' q = None"
  shows "dns_clean e m w'"
  unfolding dns_clean_def
proof (intro conjI allI impI)
  fix n l assume "dns_entry (files w') m n = Some l"
  then have "dns_entry (files w) m n = Some l"
    using assms(2) [of "join_path [dns_dir m, n]"] by (auto simp: dns_entry_def split: if_splits)
  with assms(1) show "line_ok e l" by (auto simp: dns_clean_def)
next
  fix j c assume "node_at w' (hosts_path m) = Some (FileNode j c)"
  with assms show "hosts_ok e c" by (auto simp: dns_clean_def) (metis option.distinct(1))
qed

lemma remove_file_gone: "remove_file e p w = (r, w') \<Longrightarrow> node_at w' q = node_at w q \<or> node_at w' q = None"
  by (auto simp: remove_file_def split: fault.splits option.splits node.splits if_splits)

lemma dns_clean_add:
  assumes "reload_quiet e" "dns_clean e m w" "dns_add e m port name ip w = (r, w')"
  shows "dns_clean e m w'"
proof (cases "parse_ip_ok (trim_space ip) \<and> valid_hostname (trim_space name)")
  case False
  with assms(2,3) show ?thesis by (auto simp: dns_add_def Let_def split: if_splits)
next
  case True
  let ?l = "dns_line (trim_space ip) (trim_space name)"
  have el: "entry_line ?l" using True by (auto simp: entry_line_def)
  obtain r1 w1 where mk: "mkdir_all e (dns_dir m) mode_755 w = (r1, w1)" by fastforce
  have "dns_entry (files w1) m n = Some l \<Longrightarrow> dns_entry (files w) m n = Some l" for n l
    using mkdir_all_file [OF mk] by (auto simp: dns_entry_def split: if_splits option.splits node.splits)
  then have c1: "dns_clean e m w1" using assms(2) mkdir_all_file [OF mk] unfolding dns_clean_def by metis
  show ?thesis
  proof (cases r1)
    case (Some er)
    with assms(3) True mk c1 show ?thesis by (auto simp: dns_add_def Let_def)
  next
    case None
    obtain r2 w2 where wr: "write_file e (conf_path m port) (?l @ [CHR 0x0A]) mode_644 w1 = (r2, w2)" by fastforce
    note c2 = dns_clean_write_conf [OF c1 el wr]
    show ?thesis
      using assms(3) True mk None wr c2 dns_clean_sync [OF assms(1) c2]
      by (auto simp: dns_add_def Let_def split: option.splits)
  qed
qed

lemma dns_clean_remove:
  assumes "reload_quiet e" "dns_clean e m w" "dns_remove e m port w = (r, w')"
  shows "dns_clean e m w'"
proof -
  obtain r1 w1 where rm: "remove_file e (conf_path m port) w = (r1, w1)" by fastforce
  have "dns_clean e m w1" by (rule dns_clean_gone [OF assms(2) remove_file_gone [OF rm]])
  with assms(3) rm dns_clean_sync [OF assms(1)] show ?thesis
    by (auto simp: dns_remove_def split: option.splits os_err.splits)
qed

lemma remove_confs_gone:
  "node_at (remove_confs e m ns w) q = node_at w q \<or> node_at (remove_confs e m ns w) q = None"
proof (induction ns arbitrary: w)
  case (Cons n ns)
  show ?case
    using Cons [of w] Cons [of "snd (remove_file e (join_path [dns_dir m, n]) w)"]
      remove_file_gone [of e "join_path [dns_dir m, n]" w _ _ q, OF prod.collapse [symmetric]]
    by (metis remove_confs.simps(2))
qed simp

lemma dns_clean_remove_all:
  assumes "reload_quiet e" "dns_clean e m w" "dns_remove_all e m w = (r, w')"
  shows "dns_clean e m w'"
proof -
  obtain ns er w1 where rd: "read_dir e (dns_dir m) w = ((ns, er), w1)" by (metis prod.collapse)
  then have "w1 = ticked w" using read_dir_world by (metis snd_conv)
  then have c1: "dns_clean e m w1" using assms(2) by (simp add: dns_clean_def)
  have rc: "dns_clean e m (remove_confs e m ns w1)" by (rule dns_clean_gone [OF c1 remove_confs_gone])
  from assms(3) rd dns_clean_sync [OF assms(1) rc] c1 show ?thesis
    by (auto simp: dns_remove_all_def split: option.splits os_err.splits)
qed

datatype dns_call = CallAdd int string string | CallRemove int | CallRemoveAll

fun dns_call_step :: "os_env \<Rightarrow> manager \<Rightarrow> dns_call \<Rightarrow> world \<Rightarrow> world" where
  "dns_call_step e m (CallAdd port name ip) w = snd (dns_add e m port name ip w)"
| "dns_call_step e m (CallRemove port) w = snd (dns_remove e m port w)"
| "dns_call_step e m CallRemoveAll w = snd (dns_remove_all e m w)"

lemma dns_clean_call: "reload_quiet e \<Longrightarrow> dns_clean e m w \<Longrightarrow> dns_clean e m (dns_call_step e m c w)"
  by (cases c) (auto intro: dns_clean_add dns_clean_remove dns_clean_remove_all prod.collapse [symmetric])

lemma hosts_ok_lines:
  assumes "hosts_ok e c"
  shows "(\<forall>line \<in> set (split_on CHR 0x0A c). entry_part line)
    \<and> (no_torn e \<longrightarrow> (\<exists>ls. split_on CHR 0x0A c = ls @ [''''] \<and> (\<forall>line \<in> set ls. entry_line line)))"
proof (cases "no_torn e")
  case True
  then obtain ls where ls: "list_all entry_line ls" "c = hosts_lines ls" using assms by (auto simp: hosts_ok_def)
  then have "list_all entry_part ls" by (auto simp: list_all_iff entry_line_part)
  then have "split_on CHR 0x0A c = ls @ ['''']" "\<forall>line \<in> set ls. entry_part line"
    using ls(2) by (simp_all add: split_on_hosts_lines list_all_iff)
  with ls(1) show ?thesis using empty_part by (auto simp: list_all_iff)
qed (use assms in \<open>simp add: hosts_ok_def list_all_iff\<close>)

text \<open>
  C15: no text can be injected into the resolver's file. From a directory that holds such lines only,
  for example none, after any sequence of calls with any names and addresses whatever, and whichever
  file calls and reloads fail on the way, also halfway, every line of \<open>hosts\<close>, the last one included,
  is a well-formed address, one tab and a well-formed host name, or a beginning of that. When no write
  fails halfway, every line is whole and ended. (The command that reloads dnsmasq writes no file.)
\<close>

theorem hosts_never_injected:
  assumes "reload_quiet e" and "dns_clean e m w"
    and "node_at (fold (dns_call_step e m) calls w) (hosts_path m) = Some (FileNode k c)"
  shows "(\<forall>line \<in> set (split_on CHR 0x0A c). entry_part line)
    \<and> (no_torn e \<longrightarrow> (\<exists>ls. split_on CHR 0x0A c = ls @ [''''] \<and> (\<forall>line \<in> set ls. entry_line line)))"
proof -
  have "dns_clean e m (fold (dns_call_step e m) calls v)" if "dns_clean e m v" for v
    using that by (induction calls arbitrary: v) (auto intro: dns_clean_call assms(1))
  from this [OF assms(2)] have "hosts_ok e c" using assms(3) unfolding dns_clean_def by blast
  then show ?thesis by (rule hosts_ok_lines)
qed

text \<open>
  A concrete run: the published line of the example is such a line.
\<close>

lemma demo_synced: "hosts_synced demo_manager demo_world"
  using dns_add_applied(3) [OF calm_reads _ demo_dns_dir demo_add] demo_dns_wf [of Linux]
  by (simp add: dns_wf_def applied_def)

lemma demo_clean: "dns_clean e demo_manager (dir_world ''/d'')"
  using demo_dns_empty by (simp add: dns_clean_def demo_paths) (simp add: dir_world_def)

theorem hosts_never_injected_witness:
  "\<exists>k c. node_at (fold (dns_call_step (calm_env Linux) demo_manager) [CallAdd 8001 ''a.test'' ''127.0.1.1'']
       (dir_world ''/d'')) (hosts_path demo_manager) = Some (FileNode k c)
     \<and> (\<exists>ls. split_on CHR 0x0A c = ls @ [''''] \<and> (\<forall>line \<in> set ls. entry_line line))"
proof -
  obtain k c where f: "node_at demo_world (hosts_path demo_manager) = Some (FileNode k c)"
    using demo_synced by (auto simp: hosts_synced_def)
  have run: "fold (dns_call_step (calm_env Linux) demo_manager) [CallAdd 8001 ''a.test'' ''127.0.1.1''] (dir_world ''/d'')
      = demo_world" by (simp add: demo_world_def)
  have "no_torn (calm_env Linux)" by (simp add: no_torn_def calm_env_def)
  with hosts_never_injected [OF calm_reads(2) demo_clean f [folded run]] f run show ?thesis by auto
qed

end
