(* ===== verification/Dnsmasq_Clear.thy ===== *)
theory Dnsmasq_Clear
  imports Dnsmasq_Hosts
begin

text \<open>
  \<open>RemoveAll\<close>, and the frame of the manager: none of its calls touches a bound address.
\<close>

section \<open>Removing everything\<close>

lemma dns_entry_monotone:
  assumes "\<And>q. node_at w' q = node_at w q \<or> node_at w' q = None" and "dns_entry (files w) m n = None"
  shows "dns_entry (files w') m n = None"
proof (cases "node_at w' (join_path [dns_dir m, n]) = None")
  case True
  then show ?thesis by (simp add: dns_entry_def)
next
  case False
  with assms(1) [of "join_path [dns_dir m, n]"]
  have "node_at w' (join_path [dns_dir m, n]) = node_at w (join_path [dns_dir m, n])" by simp
  then have "dns_entry (files w') m n = dns_entry (files w) m n" by (simp add: dns_entry_def)
  with assms(2) show ?thesis by simp
qed

lemma remove_file_entry:
  "\<forall>t p. fault_at e t OpRemove p = Fine \<Longrightarrow>
   dns_entry (files (snd (remove_file e (join_path [dns_dir m, n]) w))) m n = None"
  by (auto simp: remove_file_def dns_entry_def split: option.splits node.splits)

lemma remove_confs_clears:
  assumes "\<forall>t p. fault_at e t OpRemove p = Fine"
  shows "n \<in> set ns \<Longrightarrow> dns_entry (files (remove_confs e m ns w)) m n = None"
proof (induction ns arbitrary: w)
  case (Cons a ns)
  show ?case
  proof (cases "n \<in> set ns")
    case True
    with Cons.IH show ?thesis by simp
  next
    case False
    with Cons.prems have a: "a = n" by simp
    show ?thesis
    proof (cases "is_conf_name n")
      case True
      have "dns_entry (files (remove_confs e m ns (snd (remove_file e (join_path [dns_dir m, n]) w)))) m n = None"
        by (rule dns_entry_monotone [OF remove_confs_gone remove_file_entry [OF assms]])
      with True a show ?thesis by simp
    qed (simp add: dns_entry_def)
  qed
qed simp

lemma remove_confs_frame:
  assumes "\<And>n. is_conf_name n \<Longrightarrow> plain_name n \<Longrightarrow> q \<noteq> join_path [dns_dir m, n]"
  shows "\<forall>n \<in> set ns. CHR ''/'' \<notin> set n \<Longrightarrow> node_at (remove_confs e m ns w) q = node_at w q"
  by (induction ns arbitrary: w) (simp_all add: remove_file_frame assms conf_plain)

lemma remove_file_distinct: "distinct_paths w \<Longrightarrow> distinct_paths (snd (remove_file e p w))"
  by (simp add: remove_file_def distinct_delete split: fault.splits option.splits node.splits)

lemma remove_confs_distinct: "distinct_paths w \<Longrightarrow> distinct_paths (remove_confs e m ns w)"
  by (induction ns arbitrary: w) (simp_all add: remove_file_distinct)

lemma sync_files:
  assumes "reload_quiet e" "sync_and_reload e m w = (r, w')" "q \<noteq> hosts_path m"
  shows "node_at w' q = node_at w q"
proof -
  obtain r1 w1 where wh: "write_hosts_file e m w = (r1, w1)" by fastforce
  obtain ns er w2 where rd: "read_dir e (dns_dir m) w = ((ns, er), w2)" by (metis surj_pair)
  obtain ls w3 where cl: "collect_lines e m ns w2 = (ls, w3)" by fastforce
  have "w2 = ticked w" using rd read_dir_world by (metis snd_conv)
  moreover have "\<forall>n \<in> set ns. CHR ''/'' \<notin> set n" using rd read_dir_no_slash by (metis fst_conv)
  ultimately have "files w3 = files w" using collect_lines_sub [OF cl] by simp
  moreover have "write_file e (hosts_path m) (join ''\<newline>'' ls @ (if ls \<noteq> [] then ''\<newline>'' else [])) mode_644 w3
      = (r1, w1)"
    using wh rd cl by (simp add: write_hosts_file_def)
  ultimately have "node_at w1 q = node_at w q"
    using write_file_frame [OF assms(3)] by (metis snd_conv)
  moreover have "files w' = files w1"
    using assms(2) wh reload_ok [OF assms(1), of w1 r w']
    by (auto simp: sync_and_reload_def split: option.splits)
  ultimately show ?thesis by simp
qed

lemma remove_confs_none:
  assumes "\<forall>t p. fault_at e t OpRemove p = Fine"
  shows "dns_entry (files (remove_confs e m (dir_names (files w) (dns_dir m)) (ticked w))) m n = None"
proof (cases "n \<in> set (dir_names (files w) (dns_dir m))")
  case True
  then show ?thesis by (rule remove_confs_clears [OF assms])
next
  case False
  then have "dns_entry (files (ticked w)) m n = None" using dns_entry_listed by fastforce
  then show ?thesis by (rule dns_entry_monotone [OF remove_confs_gone])
qed

text \<open>
  C26: \<open>RemoveAll\<close> empties the view and \<open>hosts\<close>, and leaves every other file of the directory, such
  as the startup configuration \<open>00-port.conf\<close>, as it was.
\<close>

theorem dns_remove_all_clears:
  assumes "dns_wf e m w" and "\<forall>t p. fault_at e t OpRemove p = Fine"
    and "dns_remove_all e m w = (r, w')" and "applied r"
  shows "(\<forall>n. dns_entry (files w') m n = None)
    \<and> (\<exists>k. node_at w' (hosts_path m) = Some (FileNode k ''''))
    \<and> (\<forall>n. plain_name n \<longrightarrow> \<not> is_conf_name n \<longrightarrow> n \<noteq> ''hosts'' \<longrightarrow>
        node_at w' (join_path [dns_dir m, n]) = node_at w (join_path [dns_dir m, n]))"
proof -
  have env: "reads_fine e" "reload_quiet e" using assms(1) by (simp_all add: dns_wf_def)
  obtain k where dir: "node_at w (dns_dir m) = Some (DirNode k)" using assms(1) by (auto simp: dns_wf_def)
  let ?ns = "dir_names (files w) (dns_dir m)" and ?rc = "\<lambda>ns. remove_confs e m ns (ticked w)"
  have "read_dir e (dns_dir m) w = ((?ns, None), ticked w)"
    using env(1) dir by (simp add: read_dir_def reads_fine_def)
  then have sync: "sync_and_reload e m (?rc ?ns) = (r, w')"
    using assms(3) by (simp add: dns_remove_all_def)
  have nd: "\<And>n. is_conf_name n \<Longrightarrow> plain_name n \<Longrightarrow> dns_dir m \<noteq> join_path [dns_dir m, n]"
    using assms(1) base_name_join unfolding dns_wf_def by metis
  have sl: "\<forall>n \<in> set ?ns. CHR ''/'' \<notin> set n" using dir_names_no_slash by blast
  have wf: "dns_wf e m (?rc ?ns)"
    using assms(1) dir remove_confs_frame [OF nd sl] by (auto simp: dns_wf_def remove_confs_distinct)
  note s = sync_and_reload_ok [OF wf sync assms(4) [unfolded applied_in]]
  have e: "\<forall>n. dns_entry (files w') m n = None" using remove_confs_none [OF assms(2)] by (simp add: s(2))
  have "entry_lines (files w') m = []"
    using s(1) e by (auto simp: dns_wf_def entry_lines_view dom_def)
  then have h: "\<exists>k. node_at w' (hosts_path m) = Some (FileNode k '''')"
    using s(3) by (simp add: hosts_synced_def hosts_text_def)
  have "node_at w' (join_path [dns_dir m, n]) = node_at w (join_path [dns_dir m, n])"
    if n: "plain_name n" "\<not> is_conf_name n" "n \<noteq> ''hosts''" for n
  proof -
    have ne: "join_path [dns_dir m, n] \<noteq> join_path [dns_dir m, c]" if "is_conf_name c" "plain_name c" for c
      using n that join_path_inj by metis
    have "join_path [dns_dir m, n] \<noteq> hosts_path m"
      unfolding hosts_path_def using n hosts_plain(1) join_path_inj by metis
    then have "node_at w' (join_path [dns_dir m, n]) = node_at (?rc ?ns) (join_path [dns_dir m, n])"
      by (rule sync_files [OF env(2) sync])
    also have "\<dots> = node_at w (join_path [dns_dir m, n])"
      using remove_confs_frame [OF ne sl] by simp
    finally show ?thesis .
  qed
  with e h show ?thesis by blast
qed

lemma calm_remove: "\<forall>t p. fault_at (calm_env g) t OpRemove p = Fine"
  by (simp add: calm_env_def)

theorem dns_remove_all_clears_witness:
  "\<exists>w'. dns_remove_all (calm_env Linux) demo_manager demo_world = (None, w')
     \<and> (\<forall>n. dns_entry (files w') demo_manager n = None)"
proof -
  have wf: "dns_wf (calm_env Linux) demo_manager demo_world"
    by (rule dns_add_applied(1) [OF calm_reads _ demo_dns_dir demo_add])
      (use demo_dns_wf [of Linux] in \<open>simp_all add: dns_wf_def applied_def\<close>)
  then obtain k where dir: "node_at demo_world (dns_dir demo_manager) = Some (DirNode k)"
    unfolding dns_wf_def by blast
  let ?rc = "remove_confs (calm_env Linux) demo_manager (dir_names (files demo_world) (dns_dir demo_manager)) (ticked demo_world)"
  have "may_hold_file ?rc (hosts_path demo_manager)"
    using synced_may_hold [OF demo_synced]
      remove_confs_gone [of "calm_env Linux" demo_manager "dir_names (files demo_world) (dns_dir demo_manager)"
        "ticked demo_world" "hosts_path demo_manager"]
    by (auto simp: may_hold_file_def)
  moreover have "is_dir ?rc (dns_dir demo_manager)"
  proof -
    have "dns_dir demo_manager \<noteq> join_path [dns_dir demo_manager, n]" if "is_conf_name n" "plain_name n" for n
      using that demo_dns_dir base_name_join by metis
    from remove_confs_frame [of "dns_dir demo_manager" demo_manager, OF this] dir_names_no_slash dir
    show ?thesis by (simp add: is_dir_def)
  qed
  ultimately obtain w' where "sync_and_reload (calm_env Linux) demo_manager ?rc = (None, w')"
    using sync_and_reload_completes [OF calm_fine demo_dns_ready(2)] by blast
  then have "dns_remove_all (calm_env Linux) demo_manager demo_world = (None, w')"
    using dir by (simp add: dns_remove_all_def read_dir_def) (simp add: calm_env_def)
  moreover from dns_remove_all_clears [OF wf calm_remove this] have "\<forall>n. dns_entry (files w') demo_manager n = None"
    by (simp add: applied_def)
  ultimately show ?thesis by blast
qed

section \<open>Calls of the manager leave the bound addresses alone\<close>

lemma write_file_bound: "bound (snd (write_file e p c mode w)) = bound w"
  by (simp add: write_file_def put_file_def split: fault.splits option.splits node.splits if_splits)

lemma remove_file_bound: "bound (snd (remove_file e p w)) = bound w"
  by (simp add: remove_file_def split: fault.splits option.splits node.splits)

lemma collect_lines_bound: "collect_lines e m ns w = (ls, w') \<Longrightarrow> bound w' = bound w"
proof (induction ns arbitrary: w ls w')
  case (Cons n ns)
  obtain r w1 where rd: "read_file e (join_path [dns_dir m, n]) w = (r, w1)" by fastforce
  then have "w1 = ticked w" using read_file_world by (metis snd_conv)
  moreover obtain ls1 w2 where "collect_lines e m ns w1 = (ls1, w2)" by fastforce
  ultimately show ?case using Cons rd by (auto simp: Let_def split: if_splits sum.splits)
qed simp

lemma sync_and_reload_bound: "bound (snd (sync_and_reload e m w)) = bound w"
proof -
  obtain ns er w1 where rd: "read_dir e (dns_dir m) w = ((ns, er), w1)" by (metis surj_pair)
  then have w1: "w1 = ticked w" using read_dir_world by (metis snd_conv)
  obtain ls w2 where cl: "collect_lines e m ns w1 = (ls, w2)" by fastforce
  have "bound (snd (write_hosts_file e m w)) = bound w"
    using rd cl collect_lines_bound [OF cl] by (simp add: write_hosts_file_def w1 write_file_bound)
  moreover have "bound (snd (reload e v)) = bound v" for v
    by (auto simp: reload_def run_cmd_def split: prod.splits)
  ultimately show ?thesis by (auto simp: sync_and_reload_def split: prod.splits option.splits)
qed

lemma dns_add_bound: "bound (snd (dns_add e m port name ip w)) = bound w"
proof -
  obtain r1 w1 where mk: "mkdir_all e (dns_dir m) mode_755 w = (r1, w1)" by fastforce
  obtain r2 w2 where wr: "write_file e (conf_path m port)
      (dns_line (trim_space ip) (trim_space name) @ [CHR 0x0A]) mode_644 w1 = (r2, w2)" by fastforce
  have "bound w1 = bound w" using mkdir_all_other [OF mk] by simp
  moreover have "bound w2 = bound w1" using write_file_bound wr by (metis snd_conv)
  ultimately show ?thesis
    using mk wr sync_and_reload_bound [of e m w2] by (auto simp: dns_add_def Let_def split: option.splits)
qed

lemma dns_remove_bound: "bound (snd (dns_remove e m port w)) = bound w"
proof -
  obtain r w1 where rm: "remove_file e (conf_path m port) w = (r, w1)" by fastforce
  then have "bound w1 = bound w" using remove_file_bound by (metis snd_conv)
  then show ?thesis
    using rm sync_and_reload_bound [of e m w1]
    by (auto simp: dns_remove_def split: option.splits os_err.splits)
qed

end
