(* ===== verification/Dnsmasq_Dirs.thy ===== *)
theory Dnsmasq_Dirs
  imports Dnsmasq_Clear
begin

text \<open>
  \<open>DropInDir\<close> of \<open>setup_linux.go\<close> and \<open>setup_darwin.go\<close>: the directory the manager writes to. On
  macOS it lies under the Homebrew prefix that is found.
\<close>

definition linux_drop_in_dir :: string where
  "linux_drop_in_dir = ''/etc/dnsmasq.d/local-auto-domain''"

definition brew_prefixes :: "string list" where
  "brew_prefixes = [''/opt/homebrew'', ''/usr/local'']"

fun find_prefix :: "os_env \<Rightarrow> string list \<Rightarrow> world \<Rightarrow> string option \<times> world" where
  "find_prefix e [] w = (None, w)"
| "find_prefix e (p # ps) w =
     (case stat_path e (join_path [p, ''bin/brew'']) w of
        (None, w1) \<Rightarrow> (Some p, w1)
      | (Some er, w1) \<Rightarrow> find_prefix e ps w1)"

definition brew_prefix :: "os_env \<Rightarrow> world \<Rightarrow> string \<times> world" where
  "brew_prefix e w =
     (case find_prefix e brew_prefixes w of
        (Some p, w1) \<Rightarrow> (p, w1)
      | (None, w1) \<Rightarrow> (''/usr/local'', w1))"

definition darwin_drop_in_dir :: "os_env \<Rightarrow> world \<Rightarrow> string \<times> world" where
  "darwin_drop_in_dir e w =
     (case find_prefix e brew_prefixes w of
        (Some p, w1) \<Rightarrow> (join_path [p, ''etc/dnsmasq.d/local-auto-domain''], w1)
      | (None, w1) \<Rightarrow> (''/usr/local/etc/dnsmasq.d/local-auto-domain'', w1))"

definition drop_in_dir :: "os_env \<Rightarrow> world \<Rightarrow> string \<times> world" where
  "drop_in_dir e w =
     (case platform e of Linux \<Rightarrow> (linux_drop_in_dir, w) | Darwin \<Rightarrow> darwin_drop_in_dir e w)"

text \<open>The two loops over the prefixes agree: the directory is the one under \<open>brewPrefix()\<close>.\<close>

lemma find_prefix_in: "find_prefix e ps v = (Some p, v') \<Longrightarrow> p \<in> set ps"
  by (induction ps arbitrary: v) (auto split: prod.splits option.splits)

lemma join_brew_prefix:
  "p \<in> set brew_prefixes
    \<Longrightarrow> join_path [p, ''etc/dnsmasq.d/local-auto-domain''] = p @ ''/etc/dnsmasq.d/local-auto-domain''"
  by (auto simp: brew_prefixes_def join_path_def clean_path_def has_prefix_def)

lemma darwin_drop_in_dir_prefix:
  "darwin_drop_in_dir e w =
     (fst (brew_prefix e w) @ ''/etc/dnsmasq.d/local-auto-domain'', snd (brew_prefix e w))"
proof -
  obtain r v where f: "find_prefix e brew_prefixes w = (r, v)" by fastforce
  show ?thesis
  proof (cases r)
    case None
    then show ?thesis by (simp add: darwin_drop_in_dir_def brew_prefix_def f)
  next
    case (Some p)
    then have "p \<in> set brew_prefixes" using f find_prefix_in by metis
    then show ?thesis by (simp add: darwin_drop_in_dir_def brew_prefix_def f Some join_brew_prefix)
  qed
qed

lemma base_drop_in: "base_name (p @ ''/etc/dnsmasq.d/local-auto-domain'') = ''local-auto-domain''"
  by (simp add: base_name_def)

lemma drop_in_dir_name: "\<not> is_conf_name (base_name (fst (drop_in_dir e w)))"
proof -
  have "base_name (fst (drop_in_dir e w)) = ''local-auto-domain''"
    using base_drop_in [of "[]"] base_drop_in
    by (cases "platform e") (simp_all add: drop_in_dir_def darwin_drop_in_dir_prefix linux_drop_in_dir_def)
  then show ?thesis by (simp add: is_conf_name_def has_prefix_def)
qed

end
