(* ===== verification/Setup_Linux.thy ===== *)
theory Setup_Linux
  imports Setup_Lines Dnsmasq_Dirs
begin

text \<open>
  \<open>internal/dnsmasq/setup_linux.go\<close>: \<open>Setup\<close> and \<open>Teardown\<close> of dnsmasq, of the split DNS over
  systemd-networkd, and of the sudoers rule. Commands, also the ones under \<open>sudo\<close>, are answers of the
  environment; where a warning ends with the text of an error, only its beginning is modelled.
\<close>

definition main_conf :: string where "main_conf = ''/etc/dnsmasq.conf''"
definition sudoers_path :: string where "sudoers_path = ''/etc/sudoers.d/local-auto-domain''"

abbreviation text_of :: "string list \<Rightarrow> string" where
  "text_of ls \<equiv> concat (map (\<lambda>l. l @ newline) ls)"

section \<open>Installing and configuring dnsmasq\<close>

definition package_managers :: "string list list" where
  "package_managers =
     [[''apt-get'', ''-y'', ''install'', ''dnsmasq''], [''dnf'', ''-y'', ''install'', ''dnsmasq''],
      [''pacman'', ''-S'', ''--noconfirm'', ''dnsmasq'']]"

fun install_with :: "os_env \<Rightarrow> string list list \<Rightarrow> world \<Rightarrow> setup_error option \<times> world" where
  "install_with e [] w =
     (Some (SetupMessage ''no supported package manager found; install dnsmasq manually''), w)"
| "install_with e (args # others) w =
     (case find_exe e (hd args) w of
        (None, w1) \<Rightarrow> install_with e others w1
      | (Some _, w1) \<Rightarrow> check_cmd e (hd args @ '' install'') (''sudo'' # args) '''' w1)"

definition install_dnsmasq :: "os_env \<Rightarrow> world \<Rightarrow> setup_error option \<times> world" where
  "install_dnsmasq e w = install_with e package_managers w"

definition ensure_conf :: "os_env \<Rightarrow> string \<Rightarrow> world \<Rightarrow> setup_error option \<times> world" where
  "ensure_conf e line w =
     (case read_file e main_conf w of
        (r, w1) \<Rightarrow>
          if r = Inl EOther then (Some (SetupOs EOther), w1)
          else
            let data = (case r of Inl _ \<Rightarrow> '''' | Inr d \<Rightarrow> d) in
            if has_line data line then (None, w1)
            else check_cmd e ''updating dnsmasq.conf'' [''sudo'', ''tee'', ''-a'', main_conf]
                   (newline @ line @ newline) w1)"

fun ensure_confs :: "os_env \<Rightarrow> string list \<Rightarrow> world \<Rightarrow> setup_error option \<times> world" where
  "ensure_confs e [] w = (None, w)"
| "ensure_confs e (line # lines) w =
     (case ensure_conf e line w of
        (Some er, w1) \<Rightarrow> (Some er, w1)
      | (None, w1) \<Rightarrow> ensure_confs e lines w1)"

definition remove_line_sudo :: "os_env \<Rightarrow> string \<Rightarrow> string \<Rightarrow> world \<Rightarrow> world" where
  "remove_line_sudo e path line w =
     (case read_file e path w of
        (Inl er, w1) \<Rightarrow> w1
      | (Inr data, w1) \<Rightarrow> snd (run_cmd e [''sudo'', ''tee'', path] (drop_lines data line) w1))"

fun remove_lines_sudo :: "os_env \<Rightarrow> string \<Rightarrow> string list \<Rightarrow> world \<Rightarrow> world" where
  "remove_lines_sudo e path [] w = w"
| "remove_lines_sudo e path (line # lines) w =
     remove_lines_sudo e path lines (remove_line_sudo e path line w)"

definition conf_dir_line :: string where
  "conf_dir_line = ''conf-dir='' @ linux_drop_in_dir @ '',*.conf''"

definition addn_hosts_line :: string where
  "addn_hosts_line = ''addn-hosts='' @ linux_drop_in_dir @ ''/hosts''"

definition sudoers_user :: "os_env \<Rightarrow> string" where
  "sudoers_user e = (if env_var e ''SUDO_USER'' = '''' then env_var e ''USER'' else env_var e ''SUDO_USER'')"

definition write_sudoers :: "os_env \<Rightarrow> world \<Rightarrow> setup_error option \<times> world" where
  "write_sudoers e w =
     (let user = sudoers_user e in
      if user = '''' \<or> user = ''root''
      then (Some (SetupMessage ''could not determine non-root user for sudoers rule''), w)
      else
        (case find_exe e ''systemctl'' w of
           (r, w1) \<Rightarrow>
             (let systemctlPath = (case r of None \<Rightarrow> ''/usr/bin/systemctl'' | Some p \<Rightarrow> p);
                  content = user @ '' ALL=(ALL) NOPASSWD: '' @ systemctlPath @ '' reload dnsmasq'' @ newline in
              case check_cmd e (''writing '' @ sudoers_path) [''sudo'', ''tee'', sudoers_path] content w1 of
                (Some er, w2) \<Rightarrow> (Some er, w2)
              | (None, w2) \<Rightarrow> (None, run_only e [''sudo'', ''chmod'', ''0440'', sudoers_path] w2))))"

section \<open>Split DNS\<close>

definition networkd_dir :: string where "networkd_dir = ''/etc/systemd/network''"
definition networkd_netdev :: string where
  "networkd_netdev = ''/etc/systemd/network/10-local-auto-domain-dns.netdev''"
definition networkd_network :: string where
  "networkd_network = ''/etc/systemd/network/10-local-auto-domain-dns.network''"
definition networkd_lo_config :: string where
  "networkd_lo_config = ''/etc/systemd/network/10-local-auto-domain-lo.network''"

definition command_exists :: "os_env \<Rightarrow> string \<Rightarrow> world \<Rightarrow> bool \<times> world" where
  "command_exists e name w = (case find_exe e name w of (r, w1) \<Rightarrow> (r \<noteq> None, w1))"

definition is_service_active :: "os_env \<Rightarrow> string \<Rightarrow> world \<Rightarrow> bool \<times> world" where
  "is_service_active e name w =
     (case run_cmd e [''systemctl'', ''is-active'', name] '''' w of
        ((_, out), w1) \<Rightarrow> (trim_space out = ''active'', w1))"

definition netdev_text :: string where
  "netdev_text = text_of [''[NetDev]'', ''Name=lad-dns'', ''Kind=dummy'']"

definition network_text :: string where
  "network_text = text_of [''[Match]'', ''Name=lad-dns'', '''', ''[Network]'', ''DNS=127.0.0.1'',
     ''Domains=~tunnel.test'', ''LinkLocalAddressing=no'', ''IPv6AcceptRA=no'', '''', ''[Address]'',
     ''Address=192.0.2.1/32'', ''Scope=global'']"

definition write_networkd_dns_config :: "os_env \<Rightarrow> world \<Rightarrow> setup_error option \<times> world" where
  "write_networkd_dns_config e w =
     (let w1 = run_only e [''sudo'', ''mkdir'', ''-p'', networkd_dir] w in
      case check_cmd e ''writing netdev'' [''sudo'', ''tee'', networkd_netdev] netdev_text w1 of
        (Some er, w2) \<Rightarrow> (Some er, w2)
      | (None, w2) \<Rightarrow> check_cmd e ''writing network'' [''sudo'', ''tee'', networkd_network] network_text w2)"

definition networkd_reload :: "string list" where
  "networkd_reload = [''sudo'', ''networkctl'', ''reload'']"

definition configure_split_dns_networkd :: "os_env \<Rightarrow> world \<Rightarrow> world" where
  "configure_split_dns_networkd e w =
     (case write_networkd_dns_config e w of
        (Some er, w1) \<Rightarrow> say ''Warning: could not write networkd DNS config: '' w1
      | (None, w1) \<Rightarrow> run_only e networkd_reload w1)"

text \<open>
  \<open>networkdConflict\<close>: the first file of networkd's directories that is not this program's own and
  that networkd would read.
\<close>

definition our_networkd_files :: "string list" where
  "our_networkd_files = map base_name [networkd_netdev, networkd_network, networkd_lo_config]"

definition networkd_file :: "string \<Rightarrow> bool" where
  "networkd_file n \<longleftrightarrow> n \<notin> set our_networkd_files \<and> (path_ext n = ''.network'' \<or> path_ext n = ''.netdev'')"

fun conflict_in :: "os_env \<Rightarrow> string list \<Rightarrow> world \<Rightarrow> string option \<times> world" where
  "conflict_in e [] w = (None, w)"
| "conflict_in e (dir # dirs) w =
     (case read_dir e dir w of
        ((_, Some er), w1) \<Rightarrow> conflict_in e dirs w1
      | ((names, None), w1) \<Rightarrow>
          (case find networkd_file names of
             Some n \<Rightarrow> (Some (join_path [dir, n]), w1)
           | None \<Rightarrow> conflict_in e dirs w1))"

definition networkd_conflict :: "os_env \<Rightarrow> world \<Rightarrow> string option \<times> world" where
  "networkd_conflict e w = conflict_in e [networkd_dir, ''/usr/lib/systemd/network''] w"

definition enable_networkd :: "string list" where
  "enable_networkd = [''sudo'', ''systemctl'', ''enable'', ''--now'', ''systemd-networkd'']"

definition configure_split_dns_nm :: "os_env \<Rightarrow> world \<Rightarrow> world" where
  "configure_split_dns_nm e w =
     (case write_networkd_dns_config e w of
        (Some er, w1) \<Rightarrow> say ''Warning: could not write networkd DNS config: '' w1
      | (None, w1) \<Rightarrow>
          (case networkd_conflict e w1 of
             (Some conflict, w2) \<Rightarrow>
               say_lines [''Warning: existing networkd config found ('' @ conflict @ '').'',
                 ''Enabling systemd-networkd may affect existing interface management.'',
                 ''.tunnel.test DNS routing config written but NOT activated.'',
                 ''To activate manually: sudo systemctl enable --now systemd-networkd''] w2
           | (None, w2) \<Rightarrow> run_each e [enable_networkd, networkd_reload] w2))"

text \<open>The long dash the messages use, in UTF-8.\<close>

definition em_dash :: string where
  "em_dash = [CHR 0xE2, CHR 0x80, CHR 0x94]"

definition print_split_dns_hint :: "os_env \<Rightarrow> world \<Rightarrow> world" where
  "print_split_dns_hint e w =
     (case is_service_active e ''dhcpcd'' w of
        (True, w1) \<Rightarrow> say_lines [''Detected: dhcpcd (no native per-domain DNS routing).'',
            ''To route .tunnel.test queries to dnsmasq, add to /etc/dhcpcd.conf:'',
            ''  nohook resolv.conf'',
            ''Then manage /etc/resolv.conf manually or enable systemd-networkd.''] w1
      | (False, w1) \<Rightarrow>
     (case is_service_active e ''connman'' w1 of
        (True, w2) \<Rightarrow> say_lines [''Detected: connman (no native per-domain DNS routing).'',
            ''ConnMan proxies all DNS '' @ em_dash @ '' it does not support routing by domain.'',
            ''Options: enable systemd-networkd for lo, or disable ConnMan'' @ [CHR 0x27] @ ''s DNS'',
            ''proxy (dns=off in main.conf) and point /etc/resolv.conf at dnsmasq.''] w2
      | (False, w2) \<Rightarrow>
     (case command_exists e ''ifup'' w2 of
        (True, w3) \<Rightarrow>
          (case command_exists e ''resolvconf'' (say_line
                 ''Detected: ifupdown (DNS managed via /etc/resolv.conf or resolvconf).'' w3) of
             (True, w4) \<Rightarrow> say_lines [''resolvconf found. Add to /etc/resolvconf/resolv.conf.d/head:'',
                 ''  nameserver 127.0.0.1'', ''Then run: sudo resolvconf -u'',
                 ''Note: this prepends dnsmasq to the resolver list, not true split-DNS.''] w4
           | (False, w4) \<Rightarrow> say_lines
                [''Add '' @ [CHR 0x27] @ ''nameserver 127.0.0.1'' @ [CHR 0x27] @ '' as the first line of /etc/resolv.conf.'',
                 ''Note: this routes ALL DNS through dnsmasq (not just .tunnel.test).'',
                 ''Configure dnsmasq upstream forwarding in /etc/dnsmasq.conf:'',
                 ''  server=8.8.8.8''] w4)
      | (False, w3) \<Rightarrow> say_lines [''Note: no recognised network manager detected.'',
            ''.tunnel.test DNS routing config written to:'', ''  '' @ networkd_netdev, ''  '' @ networkd_network,
            ''Start systemd-networkd to activate it, or configure DNS routing manually.''] w3)))"

definition configure_split_dns :: "os_env \<Rightarrow> world \<Rightarrow> world" where
  "configure_split_dns e w =
     (case is_service_active e ''systemd-networkd'' w of
        (True, w1) \<Rightarrow> configure_split_dns_networkd e w1
      | (False, w1) \<Rightarrow>
          (case is_service_active e ''NetworkManager'' w1 of
             (True, w2) \<Rightarrow> configure_split_dns_nm e w2
           | (False, w2) \<Rightarrow> print_split_dns_hint e (snd (write_networkd_dns_config e w2))))"

definition teardown_split_dns :: "os_env \<Rightarrow> world \<Rightarrow> world" where
  "teardown_split_dns e w =
     (let w1 = run_each e [[''sudo'', ''rm'', ''-f'', networkd_netdev], [''sudo'', ''rm'', ''-f'', networkd_network],
            [''sudo'', ''rm'', ''-f'', networkd_lo_config]] w;
          w2 = (case is_service_active e ''systemd-networkd'' w1 of
                  (False, v) \<Rightarrow> v
                | (True, v) \<Rightarrow>
                    (case is_service_active e ''NetworkManager'' (run_only e networkd_reload v) of
                       (False, v') \<Rightarrow> v'
                     | (True, v') \<Rightarrow>
                         run_only e [''sudo'', ''systemctl'', ''disable'', ''--now'', ''systemd-networkd''] v'))
      in run_each e [[''sudo'', ''rm'', ''-f'', ''/etc/systemd/system/local-auto-domain-dns.service''],
           [''sudo'', ''systemctl'', ''daemon-reload''],
           [''sudo'', ''rm'', ''-f'', ''/etc/systemd/resolved.conf.d/local-auto-domain.conf'']] w2)"

section \<open>\<open>Setup\<close> and \<open>Teardown\<close>\<close>

definition setup_conf_lines :: "string list" where
  "setup_conf_lines = [''listen-address=127.0.0.1'', ''bind-interfaces'', conf_dir_line, addn_hosts_line]"

definition setup_linux :: "os_env \<Rightarrow> world \<Rightarrow> setup_error option \<times> world" where
  "setup_linux e w =
     (case find_exe e ''dnsmasq'' w of
        (found, w0) \<Rightarrow>
     (case (if found = None then install_dnsmasq e (say_line ''Installing dnsmasq...'' w0) else (None, w0)) of
        (Some er, w1) \<Rightarrow> (Some er, w1)
      | (None, w1) \<Rightarrow>
     (case check_cmd e ''creating drop-in dir'' [''sudo'', ''mkdir'', ''-p'', linux_drop_in_dir] '''' w1 of
        (Some er, w2) \<Rightarrow> (Some er, w2)
      | (None, w2) \<Rightarrow>
     (let user = env_var e ''USER'';
          w3 = (if user \<noteq> '''' then run_only e [''sudo'', ''chown'', user, linux_drop_in_dir] w2 else w2) in
      case ensure_confs e setup_conf_lines w3 of
        (Some er, w4) \<Rightarrow> (Some er, w4)
      | (None, w4) \<Rightarrow>
     (let hostsFile = linux_drop_in_dir @ ''/hosts'' in
      case stat_path e hostsFile w4 of
        (st, w5) \<Rightarrow>
     (let w6 = (if st = Some ENotExist then snd (write_file e hostsFile '''' mode_644 w5) else w5);
          w7 = say_line ''Enabling dnsmasq...'' (configure_split_dns e w6);
          w8 = run_each e [[''sudo'', ''systemctl'', ''enable'', ''--now'', ''dnsmasq''],
                 [''sudo'', ''systemctl'', ''restart'', ''dnsmasq'']] w7 in
      case write_sudoers e w8 of
        (er, w9) \<Rightarrow>
          (None, say_line ''dnsmasq configured. Domains under .tunnel.test will resolve to 127.0.0.1''
             (if er = None then w9
              else say_line (''dnsmasq reload may fail at runtime; run '' @ [CHR 0x27] @ ''sudo lad setup'' @ [CHR 0x27] @ '' to retry.'')
                     (say ''Warning: could not write sudoers rule: '' w9)))))))))"

definition teardown_conf_lines :: "string list" where
  "teardown_conf_lines = [conf_dir_line, addn_hosts_line, ''listen-address=127.0.0.1'', ''bind-interfaces'']"

definition teardown_linux :: "os_env \<Rightarrow> world \<Rightarrow> world" where
  "teardown_linux e w =
     (let w1 = run_only e [''sudo'', ''rm'', ''-rf'', linux_drop_in_dir] (teardown_split_dns e w);
          w2 = remove_lines_sudo e main_conf teardown_conf_lines w1
      in say_line ''dnsmasq configuration removed.''
           (run_each e [[''sudo'', ''rm'', ''-f'', sudoers_path], [''sudo'', ''systemctl'', ''restart'', ''dnsmasq'']] w2))"

end
