(* ===== verification/Setup_Darwin.thy ===== *)
theory Setup_Darwin
  imports Setup_Linux
begin

text \<open>
  \<open>internal/dnsmasq/setup_darwin.go\<close>: \<open>Setup\<close> and \<open>Teardown\<close> on macOS: dnsmasq from Homebrew on a
  port that needs no privileges, the resolver file, and the loopback aliases with the LaunchDaemon
  that creates them at boot.
\<close>

definition dnsmasq_port :: int where "dnsmasq_port = 5300"
definition alias_count :: nat where "alias_count = 100"
definition resolver_dir :: string where "resolver_dir = ''/etc/resolver''"
definition resolver_file :: string where "resolver_file = ''/etc/resolver/test''"
definition loopback_daemon :: string where
  "loopback_daemon = ''/Library/LaunchDaemons/com.pras-labs.local-auto-domain-loopback.plist''"

section \<open>Files\<close>

text \<open>\<open>ensureLineInFile\<close> looks for the text of the line anywhere in the file.\<close>

definition ensure_line_in_file :: "os_env \<Rightarrow> string \<Rightarrow> string \<Rightarrow> world \<Rightarrow> os_err option \<times> world" where
  "ensure_line_in_file e path line w =
     (case read_file e path w of
        (r, w1) \<Rightarrow>
          if r = Inl EOther then (Some EOther, w1)
          else
            let data = (case r of Inl _ \<Rightarrow> '''' | Inr d \<Rightarrow> d) in
            if contains data line then (None, w1)
            else append_file e path (newline @ line @ newline) mode_644 w1)"

definition remove_line_from_file :: "os_env \<Rightarrow> string \<Rightarrow> string \<Rightarrow> world \<Rightarrow> world" where
  "remove_line_from_file e path line w =
     (case read_file e path w of
        (Inl er, w1) \<Rightarrow> w1
      | (Inr data, w1) \<Rightarrow> snd (write_file e path (drop_lines data line) mode_644 w1))"

definition resolver_text :: string where
  "resolver_text = ''nameserver 127.0.0.1'' @ newline @ ''port '' @ itoa dnsmasq_port @ newline"

definition write_resolver :: "os_env \<Rightarrow> world \<Rightarrow> setup_error option \<times> world" where
  "write_resolver e w =
     (case read_file e resolver_file w of
        (r, w1) \<Rightarrow>
          if r = Inr resolver_text then (None, w1)
          else
            (case stat_path e resolver_dir (say_line (''Writing '' @ resolver_file @ '' (requires sudo)...'') w1) of
               (st, w2) \<Rightarrow>
                 (case (if st = Some ENotExist
                        then check_cmd e ''sudo mkdir /etc/resolver'' [''sudo'', ''mkdir'', ''-p'', resolver_dir] '''' w2
                        else (None, w2)) of
                    (Some er, w3) \<Rightarrow> (Some er, w3)
                  | (None, w3) \<Rightarrow>
                      check_cmd e (''sudo tee '' @ resolver_file) [''sudo'', ''tee'', resolver_file] resolver_text w3)))"

section \<open>Loopback aliases\<close>

definition alias_ip :: "nat \<Rightarrow> string" where
  "alias_ip i = ''127.0.1.'' @ nat_dec i"

definition alias_ips :: "string list" where
  "alias_ips = map alias_ip [1..<alias_count + 1]"

definition alias_shell_cmd :: string where
  "alias_shell_cmd = ''for i in $(seq 1 '' @ nat_dec alias_count @ ''); do /sbin/ifconfig lo0 alias 127.0.1.$i; done''"

definition plist_head :: "string list" where
  "plist_head =
     [''<?xml version=\"1.0\" encoding=\"UTF-8\"?>'',
      ''<!DOCTYPE plist PUBLIC \"-//Apple//DTD PLIST 1.0//EN\" \"http://www.apple.com/DTDs/PropertyList-1.0.dtd\">'',
      ''<plist version=\"1.0\">'']"

definition loopback_plist :: string where
  "loopback_plist = text_of (plist_head @
     [''<dict>'',
      ''    <key>Label</key>'',
      ''    <string>com.pras-labs.local-auto-domain-loopback</string>'',
      ''    <key>ProgramArguments</key>'',
      ''    <array>'',
      ''        <string>/bin/bash</string>'',
      ''        <string>-c</string>'',
      ''        <string>'' @ alias_shell_cmd @ ''</string>'',
      ''    </array>'',
      ''    <key>RunAtLoad</key>'',
      ''    <true/>'',
      ''</dict>'',
      ''</plist>''])"

text \<open>The short dash of the messages, in UTF-8.\<close>

definition en_dash :: string where
  "en_dash = [CHR 0xE2, CHR 0x80, CHR 0x93]"

definition setup_loopback_aliases :: "os_env \<Rightarrow> world \<Rightarrow> setup_error option \<times> world" where
  "setup_loopback_aliases e w =
     (let w1 = say_line (''Creating '' @ nat_dec alias_count @ '' loopback aliases 127.0.1.1'' @ en_dash
            @ alias_ip alias_count @ '' (requires sudo)...'') w;
          w2 = run_each e (map (\<lambda>ip. [''sudo'', ''ifconfig'', ''lo0'', ''alias'', ip]) alias_ips) w1 in
      case check_cmd e ''installing LaunchDaemon'' [''sudo'', ''tee'', loopback_daemon] loopback_plist w2 of
        (Some er, w3) \<Rightarrow> (Some er, w3)
      | (None, w3) \<Rightarrow>
          (None, say_line (''LaunchDaemon installed: '' @ loopback_daemon)
             (run_only e [''sudo'', ''launchctl'', ''load'', ''-w'', loopback_daemon] w3)))"

section \<open>Starting dnsmasq\<close>

definition brew_services_start :: "os_env \<Rightarrow> string \<Rightarrow> world \<Rightarrow> setup_error option \<times> world" where
  "brew_services_start e brewBin w =
     (let sudoUser = env_var e ''SUDO_USER'' in
      if sudoUser = '''' then check_cmd e '''' [brewBin, ''services'', ''start'', ''dnsmasq''] '''' w
      else
        (case run_cmd e [''id'', ''-u'', sudoUser] '''' w of
           ((ok, out), w1) \<Rightarrow>
             if \<not> ok then (Some (SetupMessage (''resolving UID for '' @ sudoUser)), w1)
             else check_cmd e ''''
                [''launchctl'', ''asuser'', trim_space out, brewBin, ''services'', ''start'', ''dnsmasq''] '''' w1))"

section \<open>\<open>Setup\<close> and \<open>Teardown\<close>\<close>

definition setup_darwin :: "os_env \<Rightarrow> world \<Rightarrow> setup_error option \<times> world" where
  "setup_darwin e w =
     (case brew_prefix e w of
        (pfx, w0) \<Rightarrow>
     (let brewBin = join_path [pfx, ''bin/brew'']; dnsmasqConf = join_path [pfx, ''etc/dnsmasq.conf''] in
      case find_exe e ''dnsmasq'' w0 of
        (found, w1) \<Rightarrow>
     (case (if found = None
            then check_cmd e ''brew install dnsmasq'' [brewBin, ''install'', ''dnsmasq''] ''''
                   (say_line ''Installing dnsmasq via Homebrew...'' w1)
            else (None, w1)) of
        (Some er, w2) \<Rightarrow> (Some er, w2)
      | (None, w2) \<Rightarrow>
     (case darwin_drop_in_dir e w2 of
        (dropInDir, w3) \<Rightarrow>
     (case ensure_line_in_file e dnsmasqConf (''conf-dir='' @ dropInDir @ '',*.conf'') w3 of
        (Some er, w4) \<Rightarrow> (Some (SetupOs er), w4)
      | (None, w4) \<Rightarrow>
     (case mkdir_all e dropInDir mode_755 w4 of
        (Some er, w5) \<Rightarrow> (Some (SetupOs er), w5)
      | (None, w5) \<Rightarrow>
     (case write_file e (join_path [dropInDir, ''00-port.conf'']) (''port='' @ itoa dnsmasq_port @ newline) mode_644 w5 of
        (Some er, w6) \<Rightarrow> (Some (SetupOs er), w6)
      | (None, w6) \<Rightarrow>
     (let hostsFile = join_path [dropInDir, ''hosts''] in
      case ensure_line_in_file e dnsmasqConf (''addn-hosts='' @ hostsFile) w6 of
        (Some er, w7) \<Rightarrow> (Some (SetupOs er), w7)
      | (None, w7) \<Rightarrow>
     (case stat_path e hostsFile w7 of
        (st, w8) \<Rightarrow>
     (let w9 = (if st = Some ENotExist then snd (write_file e hostsFile '''' mode_644 w8) else w8) in
      case write_resolver e w9 of
        (Some er, w10) \<Rightarrow> (Some er, w10)
      | (None, w10) \<Rightarrow>
     (case setup_loopback_aliases e w10 of
        (Some er, w11) \<Rightarrow> (Some er, w11)
      | (None, w11) \<Rightarrow>
     (let w12 = run_only e [brewBin, ''services'', ''stop'', ''dnsmasq'']
                  (say_line ''Starting dnsmasq as current user...'' w11) in
      case brew_services_start e brewBin w12 of
        (Some er, w13) \<Rightarrow> (Some er, w13)
      | (None, w13) \<Rightarrow> (None, say_line ''Setup complete. Domains under .tunnel.test are ready.'' w13)))))))))))))"

definition teardown_darwin :: "os_env \<Rightarrow> world \<Rightarrow> world" where
  "teardown_darwin e w =
     (case brew_prefix e w of
        (pfx, w0) \<Rightarrow>
     (case darwin_drop_in_dir e w0 of
        (dropInDir, w1) \<Rightarrow>
     (let w2 = run_each e [[''sudo'', ''launchctl'', ''unload'', ''-w'', loopback_daemon],
                 [''sudo'', ''rm'', ''-f'', loopback_daemon]] w1;
          w3 = run_each e (map (\<lambda>ip. [''sudo'', ''ifconfig'', ''lo0'', ''-alias'', ip]) alias_ips)
                 (say_line (''Removing loopback aliases 127.0.1.1'' @ en_dash @ ''127.0.1.100...'') w2);
          w4 = run_each e [[''sudo'', ''rm'', ''-f'', resolver_file],
                 [''sudo'', ''rm'', ''-f'', ''/etc/resolver/tunnel.localhost'']] w3;
          w5 = snd (remove_all e dropInDir w4);
          dnsmasqConf = join_path [pfx, ''etc/dnsmasq.conf''];
          w6 = remove_line_from_file e dnsmasqConf (''conf-dir='' @ dropInDir @ '',*.conf'') w5;
          w7 = remove_line_from_file e dnsmasqConf (''addn-hosts='' @ dropInDir @ ''/hosts'') w6;
          brewBin = join_path [pfx, ''bin/brew''];
          w8 = run_only e [brewBin, ''services'', ''stop'', ''dnsmasq''] w7;
          sudoUser = env_var e ''SUDO_USER'';
          w9 = (if sudoUser = '''' then w8
                else (case run_cmd e [''id'', ''-u'', sudoUser] '''' w8 of
                        ((ok, out), v) \<Rightarrow>
                          if ok then run_only e [''launchctl'', ''asuser'', trim_space out, brewBin,
                                 ''services'', ''stop'', ''dnsmasq''] v
                          else v))
      in say_line ''dnsmasq configuration removed.'' w9)))"

end
