(* ===== verification/Install.thy ===== *)
theory Install
  imports Setup_Darwin
begin

text \<open>
  What is installed beside dnsmasq: the certificate authority in the system's store
  (\<open>internal/tlscert/install_linux.go\<close>, \<open>install_darwin.go\<close>) and the daemon as a service of the user
  (\<open>internal/service/systemd_linux.go\<close>, \<open>launchd_darwin.go\<close>). An error of a wrapped call is the call's.
\<close>

section \<open>The certificate authority\<close>

definition linux_ca_dest :: string where
  "linux_ca_dest = ''/usr/local/share/ca-certificates/local-auto-domain-ca.crt''"

definition update_ca_certificates :: "os_env \<Rightarrow> world \<Rightarrow> setup_error option \<times> world" where
  "update_ca_certificates e w =
     check_cmd e ''update-ca-certificates'' [''sudo'', ''update-ca-certificates''] '''' w"

definition install_ca_linux :: "os_env \<Rightarrow> string \<Rightarrow> world \<Rightarrow> setup_error option \<times> world" where
  "install_ca_linux e caFile w =
     (case read_file e caFile w of
        (Inl er, w1) \<Rightarrow> (Some (SetupOs er), w1)
      | (Inr data, w1) \<Rightarrow>
          (case check_cmd e (''copying CA to '' @ linux_ca_dest) [''sudo'', ''tee'', linux_ca_dest] data w1 of
             (Some er, w2) \<Rightarrow> (Some er, w2)
           | (None, w2) \<Rightarrow> update_ca_certificates e w2))"

definition remove_ca_linux :: "os_env \<Rightarrow> world \<Rightarrow> setup_error option \<times> world" where
  "remove_ca_linux e w =
     (case check_cmd e ''removing CA'' [''sudo'', ''rm'', ''-f'', linux_ca_dest] '''' w of
        (Some er, w1) \<Rightarrow> (Some er, w1)
      | (None, w1) \<Rightarrow> update_ca_certificates e w1)"

definition system_keychain :: string where
  "system_keychain = ''/Library/Keychains/System.keychain''"

definition install_ca_darwin :: "os_env \<Rightarrow> string \<Rightarrow> world \<Rightarrow> setup_error option \<times> world" where
  "install_ca_darwin e caFile w =
     check_cmd e ''security add-trusted-cert''
       [''sudo'', ''security'', ''add-trusted-cert'', ''-d'', ''-r'', ''trustRoot'', ''-k'', system_keychain, caFile] '''' w"

text \<open>A certificate that is not there is not an error.\<close>

definition remove_ca_darwin :: "os_env \<Rightarrow> world \<Rightarrow> setup_error option \<times> world" where
  "remove_ca_darwin e w =
     (case run_cmd e [''sudo'', ''security'', ''delete-certificate'', ''-c'', ''local-auto-domain CA'', system_keychain] '''' w of
        ((ok, out), w1) \<Rightarrow>
          (if \<not> ok \<and> \<not> contains out ''no matching''
           then Some (SetupCommand ''security delete-certificate'' out) else None, w1))"

definition install_ca :: "os_env \<Rightarrow> string \<Rightarrow> world \<Rightarrow> setup_error option \<times> world" where
  "install_ca e caFile w = (case platform e of Linux \<Rightarrow> install_ca_linux e caFile w | Darwin \<Rightarrow> install_ca_darwin e caFile w)"

definition remove_ca :: "os_env \<Rightarrow> world \<Rightarrow> setup_error option \<times> world" where
  "remove_ca e w = (case platform e of Linux \<Rightarrow> remove_ca_linux e w | Darwin \<Rightarrow> remove_ca_darwin e w)"

section \<open>The service\<close>

definition no_home :: setup_error where
  "no_home = SetupMessage ''could not determine home directory''"

definition unit_name :: string where "unit_name = ''local-auto-domain.service''"

definition unit_path :: "os_env \<Rightarrow> setup_error + string" where
  "unit_path e =
     (case user_home_dir e of
        None \<Rightarrow> Inl (SetupMessage ''unitPath: could not determine home directory'')
      | Some home \<Rightarrow> Inr (join_path [home, ''.config'', ''systemd'', ''user'', unit_name]))"

definition unit_text :: "string \<Rightarrow> string" where
  "unit_text binaryPath = text_of
     [''[Unit]'', ''Description=local-auto-domain daemon'', ''After=network.target'', '''',
      ''[Service]'', ''ExecStart='' @ binaryPath @ '' daemon'', ''Restart=always'', ''RestartSec=2'', '''',
      ''[Install]'', ''WantedBy=default.target'']"

definition write_service_file :: "os_env \<Rightarrow> string \<Rightarrow> string \<Rightarrow> world \<Rightarrow> setup_error option \<times> world" where
  "write_service_file e path text w =
     (case mkdir_all e (dir_name path) mode_755 w of
        (Some er, w1) \<Rightarrow> (Some (SetupOs er), w1)
      | (None, w1) \<Rightarrow>
          (case write_file e path text mode_644 w1 of (er, w2) \<Rightarrow> (map_option SetupOs er, w2)))"

definition systemd_install :: "os_env \<Rightarrow> string \<Rightarrow> world \<Rightarrow> setup_error option \<times> world" where
  "systemd_install e binaryPath w =
     (if \<not> is_abs binaryPath then (Some (SetupMessage ''binaryPath must be absolute''), w)
      else (case unit_path e of
        Inl er \<Rightarrow> (Some er, w)
      | Inr path \<Rightarrow>
     (case write_service_file e path (unit_text binaryPath) w of
        (Some er, w1) \<Rightarrow> (Some er, w1)
      | (None, w1) \<Rightarrow>
     (case check_cmd e ''systemctl daemon-reload failed'' [''systemctl'', ''--user'', ''daemon-reload''] '''' w1 of
        (Some er, w2) \<Rightarrow> (Some er, w2)
      | (None, w2) \<Rightarrow>
     (case check_cmd e ''systemctl enable'' [''systemctl'', ''--user'', ''enable'', ''--now'', unit_name] '''' w2 of
        (Some er, w3) \<Rightarrow> (Some er, w3)
      | (None, w3) \<Rightarrow> (None, say (text_of [''Service installed: '' @ unit_name,
            ''Logs: journalctl --user -u '' @ unit_name]) w3))))))"

definition removed_ok :: "os_err option \<Rightarrow> bool" where
  "removed_ok er \<longleftrightarrow> er \<noteq> Some EOther"

definition systemd_uninstall :: "os_env \<Rightarrow> world \<Rightarrow> setup_error option \<times> world" where
  "systemd_uninstall e w =
     (let w1 = run_only e [''systemctl'', ''--user'', ''disable'', ''--now'', unit_name] w in
      case unit_path e of
        Inl er \<Rightarrow> (Some er, w1)
      | Inr path \<Rightarrow>
     (case remove_file e path w1 of
        (er, w2) \<Rightarrow>
          if \<not> removed_ok er then (Some (SetupOs EOther), w2)
          else
            (case check_cmd e ''systemctl daemon-reload failed'' [''systemctl'', ''--user'', ''daemon-reload''] '''' w2 of
               (Some er', w3) \<Rightarrow> (Some er', w3)
             | (None, w3) \<Rightarrow> (None, say_line (''Service removed: '' @ unit_name) w3))))"

definition status_of :: "os_env \<Rightarrow> string list \<Rightarrow> world \<Rightarrow> string \<times> world" where
  "status_of e argv w =
     (case run_cmd e argv '''' w of ((ok, out), w1) \<Rightarrow> (if ok then out else ''not installed'', w1))"

definition plist_label :: string where "plist_label = ''com.pras-labs.local-auto-domain''"

definition plist_path :: "os_env \<Rightarrow> setup_error + string" where
  "plist_path e =
     (case user_home_dir e of
        None \<Rightarrow> Inl no_home
      | Some home \<Rightarrow> Inr (join_path [home, ''Library'', ''LaunchAgents'', plist_label @ ''.plist'']))"

definition plist_text :: "string \<Rightarrow> string" where
  "plist_text binaryPath = text_of (plist_head @
     [''<dict>'',
      ''    <key>Label</key>'',
      ''    <string>'' @ plist_label @ ''</string>'',
      ''    <key>ProgramArguments</key>'',
      ''    <array>'',
      ''        <string>'' @ binaryPath @ ''</string>'',
      ''        <string>daemon</string>'',
      ''    </array>'',
      ''    <key>RunAtLoad</key>'',
      ''    <true/>'',
      ''    <key>KeepAlive</key>'',
      ''    <true/>'',
      ''    <key>StandardOutPath</key>'',
      ''    <string>/tmp/local-auto-domain.log</string>'',
      ''    <key>StandardErrorPath</key>'',
      ''    <string>/tmp/local-auto-domain.log</string>'',
      ''</dict>'',
      ''</plist>''])"

definition launchd_install :: "os_env \<Rightarrow> string \<Rightarrow> world \<Rightarrow> setup_error option \<times> world" where
  "launchd_install e binaryPath w =
     (case plist_path e of
        Inl er \<Rightarrow> (Some er, w)
      | Inr path \<Rightarrow>
     (case write_service_file e path (plist_text binaryPath) w of
        (Some er, w1) \<Rightarrow> (Some er, w1)
      | (None, w1) \<Rightarrow>
     (case check_cmd e ''launchctl load'' [''launchctl'', ''load'', ''-w'', path] '''' w1 of
        (Some er, w2) \<Rightarrow> (Some er, w2)
      | (None, w2) \<Rightarrow> (None, say (text_of [''Service installed: '' @ plist_label,
            ''Logs: /tmp/local-auto-domain.log'']) w2))))"

definition launchd_uninstall :: "os_env \<Rightarrow> world \<Rightarrow> setup_error option \<times> world" where
  "launchd_uninstall e w =
     (case plist_path e of
        Inl er \<Rightarrow> (Some er, w)
      | Inr path \<Rightarrow>
     (case run_cmd e [''launchctl'', ''unload'', ''-w'', path] '''' w of
        ((ok, out), w1) \<Rightarrow>
          if \<not> ok \<and> \<not> contains out ''Could not find'' then (Some (SetupCommand ''launchctl unload'' out), w1)
          else
            (case remove_file e path w1 of
               (er, w2) \<Rightarrow>
                 if \<not> removed_ok er then (Some (SetupOs EOther), w2)
                 else (None, say_line (''Service removed: '' @ plist_label) w2))))"

definition service_install :: "os_env \<Rightarrow> string \<Rightarrow> world \<Rightarrow> setup_error option \<times> world" where
  "service_install e bin w = (case platform e of Linux \<Rightarrow> systemd_install e bin w | Darwin \<Rightarrow> launchd_install e bin w)"

definition service_uninstall :: "os_env \<Rightarrow> world \<Rightarrow> setup_error option \<times> world" where
  "service_uninstall e w = (case platform e of Linux \<Rightarrow> systemd_uninstall e w | Darwin \<Rightarrow> launchd_uninstall e w)"

definition service_status :: "os_env \<Rightarrow> world \<Rightarrow> string \<times> world" where
  "service_status e w =
     (case platform e of
        Linux \<Rightarrow> status_of e [''systemctl'', ''--user'', ''status'', unit_name] w
      | Darwin \<Rightarrow> status_of e [''launchctl'', ''list'', plist_label] w)"

end
