(* ===== verification/Address_Pool.thy ===== *)
theory Address_Pool
  imports Lad_Base
begin

text \<open>
  The interface between the allocator and its client: what the daemon needs of
  \<open>Allocate\<close> and \<open>Free\<close>. A client that stores every address it is given under a key, and frees it
  when it drops the key, tracks the pool exactly; the lemmas inside the locale show that each pair of
  calls keeps that tracking.
\<close>

definition tracks :: "('k \<Rightarrow> 'r option) \<Rightarrow> 'r set \<Rightarrow> bool" where
  "tracks m h \<longleftrightarrow> ran m = h \<and> (\<forall>p q x. m p = Some x \<longrightarrow> m q = Some x \<longrightarrow> p = q)"

lemma tracks_empty: "tracks Map.empty {}"
  by (simp add: tracks_def)

lemma tracks_add: "tracks m h \<Longrightarrow> m p = None \<Longrightarrow> x \<notin> h \<Longrightarrow> tracks (m(p \<mapsto> x)) (insert x h)"
  unfolding tracks_def by (auto simp: ran_map_upd intro: ranI)

lemma tracks_del: "tracks m h \<Longrightarrow> m p = Some x \<Longrightarrow> tracks (m(p := None)) (h - {x})"
proof -
  assume t: "tracks m h" and p: "m p = Some x"
  have "ran (m(p := None)) = ran m - {x}"
  proof
    show "ran (m(p := None)) \<subseteq> ran m - {x}"
      using t p by (auto simp: tracks_def ran_def)
    show "ran m - {x} \<subseteq> ran (m(p := None))"
    proof
      fix y assume "y \<in> ran m - {x}"
      then obtain q where "m q = Some y" "y \<noteq> x" by (auto simp: ran_def)
      with p have "(m(p := None)) q = Some y" by auto
      then show "y \<in> ran (m(p := None))" by (rule ranI)
    qed
  qed
  with t show ?thesis by (auto simp: tracks_def split: if_splits)
qed

lemma tracks_card:
  assumes "tracks m h" and "finite h"
  shows "finite (dom m) \<and> card (dom m) = card h"
proof -
  have "inj_on (\<lambda>p. the (m p)) (dom m)"
    using assms(1) by (auto simp: tracks_def inj_on_def dom_def)
  moreover have "(\<lambda>p. the (m p)) ` dom m = h"
  proof -
    have "(\<lambda>p. the (m p)) ` dom m = ran m"
      by (force simp: ran_def dom_def image_def)
    with assms(1) show ?thesis by (simp add: tracks_def)
  qed
  ultimately have "bij_betw (\<lambda>p. the (m p)) (dom m) h" by (simp add: bij_betw_def)
  then show ?thesis using assms(2) bij_betw_finite bij_betw_same_card by blast
qed

locale address_pool =
  fixes alloc :: "'a \<Rightarrow> ('e + 'r) \<times> 'a"
    and free :: "'a \<Rightarrow> 'r \<Rightarrow> 'a"
    and held :: "'a \<Rightarrow> 'r set"
    and room :: "'r set"
    and wf :: "'a \<Rightarrow> bool"
  assumes alloc_ok: "wf a \<Longrightarrow> alloc a = (Inr x, a') \<Longrightarrow>
      x \<in> room \<and> x \<notin> held a \<and> held a' = insert x (held a) \<and> wf a'"
    and alloc_fail: "alloc a = (Inl e, a') \<Longrightarrow> a' = a \<and> room \<subseteq> held a"
    and free_ok: "wf a \<Longrightarrow> x \<in> room \<Longrightarrow> held (free a x) = held a - {x} \<and> wf (free a x)"
    and alloc_free: "wf a \<Longrightarrow> alloc a = (Inr x, a') \<Longrightarrow> free a' x = a"
    and room_finite: "finite room"
begin

lemma tracks_alloc:
  "wf a \<Longrightarrow> tracks m (held a) \<Longrightarrow> m p = None \<Longrightarrow> alloc a = (Inr x, a') \<Longrightarrow>
   tracks (m(p \<mapsto> x)) (held a')"
  using alloc_ok tracks_add by fastforce

lemma tracks_free:
  "wf a \<Longrightarrow> tracks m (held a) \<Longrightarrow> held a \<subseteq> room \<Longrightarrow> m p = Some x \<Longrightarrow>
   tracks (m(p := None)) (held (free a x))"
proof -
  assume a: "wf a" "tracks m (held a)" "held a \<subseteq> room" "m p = Some x"
  from a(2,4) have "x \<in> held a" by (auto simp: tracks_def ran_def)
  with a show ?thesis using free_ok tracks_del by (metis subsetD)
qed

lemma held_alloc: "wf a \<Longrightarrow> held a \<subseteq> room \<Longrightarrow> alloc a = (Inr x, a') \<Longrightarrow> held a' \<subseteq> room"
  using alloc_ok by fastforce

lemma held_free: "wf a \<Longrightarrow> held a \<subseteq> room \<Longrightarrow> x \<in> room \<Longrightarrow> held (free a x) \<subseteq> room"
  using free_ok by fastforce

text \<open>A tracking client never holds more keys than the pool has addresses.\<close>

lemma tracks_bounded: "tracks m (held a) \<Longrightarrow> held a \<subseteq> room \<Longrightarrow> card (dom m) \<le> card room"
  using tracks_card [of m "held a"] room_finite finite_subset card_mono by metis

text \<open>An allocation fails only when the client holds the whole pool.\<close>

lemma alloc_fail_full:
  "tracks m (held a) \<Longrightarrow> held a \<subseteq> room \<Longrightarrow> alloc a = (Inl e, a') \<Longrightarrow> card (dom m) = card room"
  using alloc_fail [of a e a'] tracks_card [of m "held a"] room_finite
  by (metis finite_subset subset_antisym)

end

end
