(* ===== verification/Ipalloc.thy ===== *)
theory Ipalloc
  imports Go_Strings_Facts Address_Pool "HOL-Library.Word"
begin

text \<open>
  The address pool of \<open>internal/ipalloc/ipalloc.go\<close>: an allocator holds the map from the last byte
  of \<open>127.0.1.X\<close> to a flag. A Go \<open>net.IP\<close> is a byte slice, here a list of \<^typ>\<open>8 word\<close> with \<open>nil\<close>
  as the empty list. The mutex makes each operation atomic, so an operation is one function on the
  allocator. The contract the daemon relies on is the locale \<open>address_pool\<close>, interpreted at the end
  on the operations below.
\<close>

type_synonym ip = "8 word list"

definition v4_in_v6_prefix :: ip where
  "v4_in_v6_prefix = [0, 0, 0, 0, 0, 0, 0, 0, 0, 0, 0xFF, 0xFF]"

text \<open>\<open>net.IPv4\<close>, \<open>IP.To4\<close>, and \<open>IP.String\<close> for the four-byte form, the only one the program prints.\<close>

definition ipv4 :: "8 word \<Rightarrow> 8 word \<Rightarrow> 8 word \<Rightarrow> 8 word \<Rightarrow> ip" where
  "ipv4 a b c d = v4_in_v6_prefix @ [a, b, c, d]"

definition to4 :: "ip \<Rightarrow> ip" where
  "to4 x =
     (if length x = 4 then x
      else if length x = 16 \<and> take 12 x = v4_in_v6_prefix then drop 12 x else [])"

definition ip4_string :: "ip \<Rightarrow> string" where
  "ip4_string x = join ''.'' (map (\<lambda>b. nat_dec (unat b)) x)"

section \<open>The allocator\<close>

record allocator =
  used :: "8 word \<Rightarrow> bool option"

datatype pool_error = PoolExhausted

definition new_allocator :: allocator where
  "new_allocator = \<lparr>used = Map.empty\<rparr>"

lemma byte_step: "i < 255 \<Longrightarrow> unat (i + 1 :: 8 word) = unat i + 1"
proof -
  assume "i < 255"
  then have "unat i < 255" by (simp add: word_less_nat_alt)
  then show ?thesis by (simp add: unat_word_ariths)
qed

lemma byte_le_cases: "i < 255 \<Longrightarrow> i \<le> j \<Longrightarrow> j = i \<or> i + 1 \<le> (j :: 8 word)"
  using byte_step [of i] by (auto simp: word_le_nat_alt word_unat_eq_iff)

text \<open>The loop \<open>for i := byte(1); i < 255; i++\<close> of \<open>Allocate\<close>.\<close>

function allocate_from :: "allocator \<Rightarrow> 8 word \<Rightarrow> (pool_error + ip) \<times> allocator" where
  "allocate_from a i =
     (if i < 255 then
        if used a i \<noteq> Some True
        then (Inr (to4 (ipv4 127 0 1 i)), a\<lparr>used := (used a)(i \<mapsto> True)\<rparr>)
        else allocate_from a (i + 1)
      else (Inl PoolExhausted, a))"
  by pat_completeness auto
termination
  by (relation "measure (\<lambda>(a, i). 255 - unat i)") (auto simp: byte_step word_less_nat_alt)

declare allocate_from.simps [simp del]

definition allocate :: "allocator \<Rightarrow> (pool_error + ip) \<times> allocator" where
  "allocate a = allocate_from a 1"

definition free_ip :: "allocator \<Rightarrow> ip \<Rightarrow> allocator" where
  "free_ip a x =
     (if x = [] then a
      else let x4 = to4 x in
        if x4 = [] \<or> x4 ! 0 \<noteq> 127 \<or> x4 ! 1 \<noteq> 0 \<or> x4 ! 2 \<noteq> 1 then a
        else a\<lparr>used := (used a)(x4 ! 3 := None)\<rparr>)"

section \<open>What the operations do\<close>

definition in_use :: "allocator \<Rightarrow> ip set" where
  "in_use a = {[127, 0, 1, i] |i. used a i = Some True}"

definition pool :: "ip set" where
  "pool = {[127, 0, 1, i] |i. 1 \<le> i \<and> i < 255}"

text \<open>The flags are only ever \<open>true\<close> or absent, and only for bytes of the range.\<close>

definition alloc_wf :: "allocator \<Rightarrow> bool" where
  "alloc_wf a \<longleftrightarrow> (\<forall>i v. used a i = Some v \<longrightarrow> v \<and> 1 \<le> i \<and> i < 255)"

lemma to4_ipv4 [simp]: "to4 (ipv4 a b c d) = [a, b, c, d]"
  by (simp add: to4_def ipv4_def v4_in_v6_prefix_def)

lemma to4_four [simp]: "to4 [a, b, c, d] = [a, b, c, d]"
  by (simp add: to4_def)

lemma allocate_from_Inr:
  "allocate_from a i = (Inr x, a') \<Longrightarrow>
   \<exists>k. x = [127, 0, 1, k] \<and> i \<le> k \<and> k < 255 \<and> used a k \<noteq> Some True
     \<and> (\<forall>j. i \<le> j \<and> j < k \<longrightarrow> used a j = Some True)
     \<and> a' = a\<lparr>used := (used a)(k \<mapsto> True)\<rparr>"
proof (induction a i rule: allocate_from.induct)
  case (1 a i)
  show ?case
  proof (cases "i < 255 \<and> used a i = Some True")
    case True
    with "1.prems" have "allocate_from a (i + 1) = (Inr x, a')"
      by (simp add: allocate_from.simps [of a i])
    with "1.IH" True have "\<exists>k. x = [127, 0, 1, k] \<and> i + 1 \<le> k \<and> k < 255 \<and> used a k \<noteq> Some True
      \<and> (\<forall>j. i + 1 \<le> j \<and> j < k \<longrightarrow> used a j = Some True)
      \<and> a' = a\<lparr>used := (used a)(k \<mapsto> True)\<rparr>" by blast
    then obtain k where k: "x = [127, 0, 1, k]" "i + 1 \<le> k" "k < 255"
        "used a k \<noteq> Some True" "\<forall>j. i + 1 \<le> j \<and> j < k \<longrightarrow> used a j = Some True"
        "a' = a\<lparr>used := (used a)(k \<mapsto> True)\<rparr>"
      by (elim exE conjE)
    have "\<forall>j. i \<le> j \<and> j < k \<longrightarrow> used a j = Some True"
      using True k(5) byte_le_cases [of i] by blast
    moreover have "i \<le> k" using k(2) True byte_step [of i] by (simp add: word_le_nat_alt)
    ultimately show ?thesis using k by blast
  next
    case False
    with "1.prems" have "x = [127, 0, 1, i]" "i < 255" "used a i \<noteq> Some True"
      "a' = a\<lparr>used := (used a)(i \<mapsto> True)\<rparr>"
      by (auto simp: allocate_from.simps [of a i] split: if_splits)
    moreover have "\<not> (i \<le> j \<and> j < i)" for j by (auto dest: leD)
    moreover have "i \<le> i" by simp
    ultimately show ?thesis by blast
  qed
qed

lemma allocate_from_Inl:
  "allocate_from a i = (Inl e, a') \<Longrightarrow>
   a' = a \<and> (\<forall>j. i \<le> j \<and> j < 255 \<longrightarrow> used a j = Some True)"
proof (induction a i rule: allocate_from.induct)
  case (1 a i)
  show ?case
  proof (cases "i < 255 \<and> used a i = Some True")
    case True
    with "1.prems" have "allocate_from a (i + 1) = (Inl e, a')"
      by (simp add: allocate_from.simps [of a i])
    with "1.IH" True have r: "a' = a" "\<forall>j. i + 1 \<le> j \<and> j < 255 \<longrightarrow> used a j = Some True" by auto
    have "used a j = Some True" if "i \<le> j" "j < 255" for j
      using that True r(2) byte_le_cases [of i j] by auto
    with r show ?thesis by blast
  next
    case False
    with "1.prems" show ?thesis
      by (auto simp: allocate_from.simps [of a i] split: if_splits)
  qed
qed

lemma allocate_Inr:
  assumes "allocate a = (Inr x, a')"
  obtains k where "x = [127, 0, 1, k]" "1 \<le> k" "k < 255" "used a k \<noteq> Some True"
    "\<forall>j. 1 \<le> j \<and> j < k \<longrightarrow> used a j = Some True" "a' = a\<lparr>used := (used a)(k \<mapsto> True)\<rparr>"
  using allocate_from_Inr [OF assms [unfolded allocate_def]] by auto

lemma allocate_Inl:
  "allocate a = (Inl e, a') \<Longrightarrow> a' = a \<and> (\<forall>j. 1 \<le> j \<and> j < 255 \<longrightarrow> used a j = Some True)"
  by (simp add: allocate_def allocate_from_Inl)

lemma free_ip_pool: "free_ip a [127, 0, 1, k] = a\<lparr>used := (used a)(k := None)\<rparr>"
  by (simp add: free_ip_def Let_def)

lemma free_ip_other: "to4 x \<notin> {[127, 0, 1, k] |k. True} \<Longrightarrow> free_ip a x = a"
proof -
  assume no: "to4 x \<notin> {[127, 0, 1, k] |k. True}"
  have "length (to4 x) = 4 \<or> to4 x = []" by (auto simp: to4_def)
  moreover have "y \<in> {[127, 0, 1, k] |k. True}"
    if "length y = 4" "y ! 0 = 127" "y ! 1 = 0" "y ! 2 = 1" for y :: ip
    using that by (auto simp: length_Suc_conv numeral_eq_Suc)
  ultimately show ?thesis using no by (auto simp: free_ip_def Let_def)
qed

lemma in_use_allocate:
  "allocate a = (Inr x, a') \<Longrightarrow> x \<notin> in_use a \<and> in_use a' = insert x (in_use a)"
  by (erule allocate_Inr) (auto simp: in_use_def)

lemma allocate_pool: "allocate a = (Inr x, a') \<Longrightarrow> x \<in> pool"
  by (erule allocate_Inr) (auto simp: pool_def)

lemma in_use_free: "x \<in> pool \<Longrightarrow> in_use (free_ip a x) = in_use a - {x}"
  by (auto simp: pool_def free_ip_pool in_use_def split: if_splits)

lemma allocate_exhausted: "allocate a = (Inl e, a') \<Longrightarrow> pool \<subseteq> in_use a"
  using allocate_Inl [of a e a'] by (auto simp: pool_def in_use_def)

lemma alloc_wf_new: "alloc_wf new_allocator"
  by (simp add: alloc_wf_def new_allocator_def)

lemma alloc_wf_allocate: "alloc_wf a \<Longrightarrow> allocate a = (r, a') \<Longrightarrow> alloc_wf a'"
proof (cases r)
  case (Inl e)
  then show "alloc_wf a \<Longrightarrow> allocate a = (r, a') \<Longrightarrow> alloc_wf a'" by (auto dest: allocate_Inl)
next
  case (Inr x)
  assume "alloc_wf a" "allocate a = (r, a')"
  with Inr obtain k where "1 \<le> k" "k < 255" "a' = a\<lparr>used := (used a)(k \<mapsto> True)\<rparr>"
    using allocate_Inr [of a x a'] by blast
  with \<open>alloc_wf a\<close> show ?thesis
    unfolding alloc_wf_def by (metis (no_types, lifting) allocator.select_convs(1)
      allocator.update_convs(1) allocator.surjective fun_upd_apply option.inject)
qed

lemma alloc_wf_free: "alloc_wf a \<Longrightarrow> alloc_wf (free_ip a x)"
  by (auto simp: free_ip_def alloc_wf_def Let_def)

lemma allocate_free_inverse:
  "alloc_wf a \<Longrightarrow> allocate a = (Inr x, a') \<Longrightarrow> free_ip a' x = a"
proof (erule allocate_Inr)
  fix k assume wf: "alloc_wf a" and "x = [127, 0, 1, k]" "used a k \<noteq> Some True"
    and a': "a' = a\<lparr>used := (used a)(k \<mapsto> True)\<rparr>"
  moreover from wf this(3) have "used a k = None" by (cases "used a k") (auto simp: alloc_wf_def)
  ultimately show "free_ip a' x = a" by (simp add: free_ip_pool fun_upd_idem)
qed

lemma pool_image: "pool = (\<lambda>i. [127, 0, 1, i]) ` {1..254}"
  by (auto simp: pool_def word_le_nat_alt word_less_nat_alt)

lemma finite_pool: "finite pool"
  by (simp add: pool_image)

lemma card_pool: "card pool = 254"
proof -
  have "{1..254 :: 8 word} = word_of_nat ` {1..254}"
  proof
    show "{1..254 :: 8 word} \<subseteq> word_of_nat ` {1..254}"
    proof
      fix x :: "8 word" assume "x \<in> {1..254}"
      then have "unat x \<in> {1..254}" by (simp add: word_le_nat_alt)
      then show "x \<in> word_of_nat ` {1..254}" by (intro image_eqI [of _ _ "unat x"]) simp_all
    qed
    show "word_of_nat ` {1..254} \<subseteq> {1..254 :: 8 word}"
      by (auto simp: word_le_nat_alt unat_of_nat)
  qed
  moreover have "inj_on (word_of_nat :: nat \<Rightarrow> 8 word) {1..254}"
    by (rule inj_onI) (auto simp: word_of_nat_eq_iff take_bit_nat_eq_self)
  ultimately have "card {1..254 :: 8 word} = 254" by (simp add: card_image)
  moreover have "card pool = card {1..254 :: 8 word}"
    unfolding pool_image by (rule card_image) (auto simp: inj_on_def)
  ultimately show ?thesis by simp
qed

section \<open>The allocator provides the contract\<close>

interpretation lad_pool: address_pool allocate free_ip in_use pool alloc_wf
  by unfold_locales
    (auto simp: finite_pool allocate_free_inverse in_use_free alloc_wf_free
      dest: in_use_allocate allocate_pool alloc_wf_allocate allocate_Inl allocate_exhausted)

end
