(* ===== verification/Netutil.thy ===== *)
theory Netutil
  imports Os_World Ipalloc
begin

text \<open>
  \<open>internal/netutil\<close>: the loopback alias of an address, which macOS needs and Linux does not.
\<close>

datatype alias_error = AliasFailed string

definition ensure_alias_linux :: "ip \<Rightarrow> world \<Rightarrow> alias_error option \<times> world" where
  "ensure_alias_linux x w = (None, w)"

definition remove_alias_linux :: "ip \<Rightarrow> world \<Rightarrow> alias_error option \<times> world" where
  "remove_alias_linux x w = (None, w)"

definition ensure_alias_darwin :: "os_env \<Rightarrow> ip \<Rightarrow> world \<Rightarrow> alias_error option \<times> world" where
  "ensure_alias_darwin e x w =
     (case run_cmd e [''ifconfig'', ''lo0'', ''alias'', ip4_string x] '''' w of
        ((ok, out), w1) \<Rightarrow> (if ok then None else Some (AliasFailed out), w1))"

definition remove_alias_darwin :: "os_env \<Rightarrow> ip \<Rightarrow> world \<Rightarrow> alias_error option \<times> world" where
  "remove_alias_darwin e x w = (None, snd (run_cmd e [''ifconfig'', ''lo0'', ''-alias'', ip4_string x] '''' w))"

text \<open>The build picks the functions of the platform.\<close>

definition ensure_alias :: "os_env \<Rightarrow> ip \<Rightarrow> world \<Rightarrow> alias_error option \<times> world" where
  "ensure_alias e x w =
     (case platform e of Linux \<Rightarrow> ensure_alias_linux x w | Darwin \<Rightarrow> ensure_alias_darwin e x w)"

definition remove_alias :: "os_env \<Rightarrow> ip \<Rightarrow> world \<Rightarrow> alias_error option \<times> world" where
  "remove_alias e x w =
     (case platform e of Linux \<Rightarrow> remove_alias_linux x w | Darwin \<Rightarrow> remove_alias_darwin e x w)"

lemmas alias_defs = ensure_alias_def ensure_alias_linux_def ensure_alias_darwin_def
  remove_alias_def remove_alias_linux_def remove_alias_darwin_def

lemma ensure_alias_quietly: "ensure_alias e x w = (r, w') \<Longrightarrow> quietly e w w'"
  by (auto simp: alias_defs split: goos.splits prod.splits dest: run_cmd_quietly)

lemma remove_alias_quietly: "quietly e w (snd (remove_alias e x w))"
  by (cases "run_cmd e [''ifconfig'', ''lo0'', ''-alias'', ip4_string x] '''' w")
     (auto simp: alias_defs split: goos.splits dest: run_cmd_quietly)

end
