(* ===== verification/Config.thy ===== *)
theory Config
  imports Os_World
begin

text \<open>
  \<open>internal/config/config.go\<close>: the configuration, its defaults, loading and saving, and the tables
  from remote ports to service names and proxy ports. Go's maps may be \<open>nil\<close>: reading a \<open>nil\<close> map
  finds nothing, writing to one panics, so a map field is \<open>None\<close> or \<open>Some\<close> of a partial function.
  The YAML library is not part of the program: its decoder and encoder are the parameter \<open>yaml\<close>.
\<close>

definition default_service_ports :: "string \<Rightarrow> int option" where
  "default_service_ports =
     [''http'' \<mapsto> 8080, ''https'' \<mapsto> 8443, ''pgsql'' \<mapsto> 5432, ''mysql'' \<mapsto> 3306, ''redis'' \<mapsto> 6379,
      ''mongo'' \<mapsto> 27017, ''k8s'' \<mapsto> 6443]"

definition service_name_by_port :: "int \<Rightarrow> string option" where
  "service_name_by_port =
     [80 \<mapsto> ''http'', 443 \<mapsto> ''https'', 5432 \<mapsto> ''pgsql'', 3306 \<mapsto> ''mysql'', 6379 \<mapsto> ''redis'',
      27017 \<mapsto> ''mongo'', 6443 \<mapsto> ''k8s'', 8080 \<mapsto> ''http'', 8443 \<mapsto> ''https'']"

type_synonym ('k, 'v) go_map = "('k \<Rightarrow> 'v option) option"

definition map_get :: "('k, 'v) go_map \<Rightarrow> 'k \<Rightarrow> 'v option" where
  "map_get m k = (case m of None \<Rightarrow> None | Some f \<Rightarrow> f k)"

record config =
  poll_interval :: int
  tld :: string
  overrides :: "(int, string) go_map"
  service_ports :: "(string, int) go_map"

definition default_config :: config where
  "default_config =
     \<lparr>poll_interval = 2000000000, tld = ''tunnel.test'', overrides = Some Map.empty,
      service_ports = Some default_service_ports\<rparr>"

section \<open>Loading and saving\<close>

datatype config_error = ConfigOs os_err | ConfigYaml string

text \<open>A method may also panic; that ends the process, so it is not an error value.\<close>

datatype 'a outcome = Returns 'a | Panics

record yaml =
  unmarshal :: "string \<Rightarrow> config \<Rightarrow> config \<times> string option"
  marshal :: "config \<Rightarrow> string + string"

definition config_path :: "os_env \<Rightarrow> string" where
  "config_path e =
     (let dir = (case user_config_dir e of
            Some d \<Rightarrow> d
          | None \<Rightarrow> join_path [env_var e ''HOME'', ''.config''])
      in join_path [dir, ''local-auto-domain'', ''config.yaml''])"

text \<open>\<open>Load\<close> returns the configuration and the decoder's error side by side.\<close>

definition load_config :: "os_env \<Rightarrow> yaml \<Rightarrow> world \<Rightarrow> (config option \<times> config_error option) \<times> world" where
  "load_config e y w =
     (let cfg = default_config; path = config_path e in
      case read_file e path w of
        (Inl ENotExist, w1) \<Rightarrow> ((Some cfg, None), w1)
      | (Inl er, w1) \<Rightarrow> ((None, Some (ConfigOs er)), w1)
      | (Inr data, w1) \<Rightarrow>
          (case unmarshal y data cfg of
             (cfg', er) \<Rightarrow> ((Some cfg', map_option ConfigYaml er), w1)))"

definition save_config :: "os_env \<Rightarrow> yaml \<Rightarrow> config \<Rightarrow> world \<Rightarrow> config_error option \<times> world" where
  "save_config e y c w =
     (let path = config_path e in
      case mkdir_all e (dir_name path) mode_755 w of
        (Some er, w1) \<Rightarrow> (Some (ConfigOs er), w1)
      | (None, w1) \<Rightarrow>
          (case marshal y c of
             Inl er \<Rightarrow> (Some (ConfigYaml er), w1)
           | Inr data \<Rightarrow>
               (case write_file e path data mode_644 w1 of
                  (er, w2) \<Rightarrow> (map_option ConfigOs er, w2))))"

definition set_override ::
  "os_env \<Rightarrow> yaml \<Rightarrow> config \<Rightarrow> int \<Rightarrow> string \<Rightarrow> world \<Rightarrow> (config \<times> config_error option) outcome \<times> world" where
  "set_override e y c port name w =
     (case overrides c of
        None \<Rightarrow> (Panics, w)
      | Some m \<Rightarrow>
          (let c' = c\<lparr>overrides := Some (m(port \<mapsto> name))\<rparr>
           in case save_config e y c' w of (er, w') \<Rightarrow> (Returns (c', er), w')))"

text \<open>\<open>delete\<close> on a \<open>nil\<close> map does nothing.\<close>

definition remove_override ::
  "os_env \<Rightarrow> yaml \<Rightarrow> config \<Rightarrow> int \<Rightarrow> world \<Rightarrow> (config \<times> config_error option) \<times> world" where
  "remove_override e y c port w =
     (let c' = c\<lparr>overrides := map_option (\<lambda>m. m(port := None)) (overrides c)\<rparr>
      in case save_config e y c' w of (er, w') \<Rightarrow> ((c', er), w'))"

section \<open>Service tables\<close>

definition service_name :: "int \<Rightarrow> string" where
  "service_name remotePort =
     (case service_name_by_port remotePort of Some name \<Rightarrow> name | None \<Rightarrow> '''')"

definition service_proxy_port :: "config \<Rightarrow> int \<Rightarrow> int" where
  "service_proxy_port c remotePort =
     (let svc = service_name remotePort in
      if svc = '''' then remotePort
      else case map_get (service_ports c) svc of Some p \<Rightarrow> p | None \<Rightarrow> remotePort)"

lemma service_name_cases:
  "service_name p \<in> {'''', ''http'', ''https'', ''pgsql'', ''mysql'', ''redis'', ''mongo'', ''k8s''}"
  by (simp add: service_name_def service_name_by_port_def)

lemma service_name_https: "service_name p = ''https'' \<longleftrightarrow> p = 443 \<or> p = 8443"
  by (simp add: service_name_def service_name_by_port_def)

lemma service_name_empty:
  "service_name p = '''' \<longleftrightarrow> p \<notin> {80, 443, 5432, 3306, 6379, 27017, 6443, 8080, 8443}"
  by (auto simp: service_name_def service_name_by_port_def)

lemma config_path_base: "base_name (config_path e) = ''config.yaml''"
proof -
  have snoc: "join_path [d, ''local-auto-domain'', ''config.yaml'']
      = join_path [join '''' [if d = '''' then ''local-auto-domain'' else d @ ''/local-auto-domain''], ''config.yaml'']" for d
    by (simp add: join_path_def)
  show ?thesis
    unfolding config_path_def Let_def snoc
    by (rule base_name_join) (simp add: plain_name_def)
qed

end
