(* ===== verification/Tlscert.thy ===== *)
theory Tlscert
  imports Config
begin

text \<open>
  \<open>internal/tlscert/tlscert.go\<close>: the local certificate authority and the wildcard certificate, made
  once and loaded by every daemon start. Go's cryptography packages are not part of the program;
  they are the parameter \<open>crypto\<close>, whose randomized operations are functions of \<open>tick\<close>. A parsed
  certificate and the template of a new one are the same record, as in \<open>crypto/x509\<close>. Times are in
  nanoseconds.
\<close>

datatype key_usage = UsageCertSign | UsageCRLSign | UsageDigitalSignature

datatype ext_key_usage = UsageServerAuth

record x509 =
  c_serial :: int
  c_common_name :: string
  c_dns_names :: "string list"
  c_not_before :: int
  c_not_after :: int
  c_key_usage :: "key_usage list"
  c_ext_key_usage :: "ext_key_usage list"
  c_basic_constraints_valid :: bool
  c_is_ca :: bool
  c_subject_key_id :: string
  c_authority_key_id :: string

record tls_certificate =
  cert_chain :: "string list"
  private_key :: string
  leaf_cert :: "x509 option"

text \<open>
  \<open>key_pair\<close> is \<open>tls.X509KeyPair\<close>, which finds at least one certificate or fails: the first DER
  block, the further ones, and the key.
\<close>

record crypto =
  gen_key :: "nat \<Rightarrow> string + string"
  public_key :: "string \<Rightarrow> string"
  marshal_pub :: "string \<Rightarrow> string"
  sha1_sum :: "string \<Rightarrow> string"
  rand_serial :: "nat \<Rightarrow> int option"
  create_cert :: "nat \<Rightarrow> x509 \<Rightarrow> x509 \<Rightarrow> string \<Rightarrow> string \<Rightarrow> string + string"
  parse_cert :: "string \<Rightarrow> string + x509"
  marshal_key :: "string \<Rightarrow> string + string"
  pem_text :: "string \<Rightarrow> string \<Rightarrow> string"
  pem_block :: "string \<Rightarrow> string option"
  key_pair :: "string \<Rightarrow> string \<Rightarrow> string + (string \<times> string list \<times> string)"

datatype cert_error =
    CertOs os_err
  | CertCrypto string
  | CertExpires int
  | CertNoAuthorityKeyId
  | CertNoTunnelTest
  | CertBadCaPem

definition ca_key_file :: string where "ca_key_file = ''ca.key''"
definition ca_cert_file :: string where "ca_cert_file = ''ca.crt''"
definition wc_key_file :: string where "wc_key_file = ''wildcard.key''"
definition wc_cert_file :: string where "wc_cert_file = ''wildcard.crt''"

definition second :: int where "second = 1000000000"
definition minute :: int where "minute = 60 * second"
definition hour :: int where "hour = 60 * minute"

definition pub_key_id :: "crypto \<Rightarrow> string \<Rightarrow> string" where
  "pub_key_id c pub = sha1_sum c (marshal_pub c pub)"

section \<open>Loading\<close>

text \<open>The checks \<open>LoadCert\<close> makes on the parsed leaf, at the time \<open>now\<close>.\<close>

definition check_leaf :: "int \<Rightarrow> x509 \<Rightarrow> cert_error option" where
  "check_leaf now l =
     (if c_not_after l - 30 * 24 * hour < now then Some (CertExpires (c_not_after l))
      else if length (c_authority_key_id l) = 0 then Some CertNoAuthorityKeyId
      else if \<not> list_ex (\<lambda>san. san = ''*.tunnel.test'') (c_dns_names l) then Some CertNoTunnelTest
      else None)"

definition load_cert :: "os_env \<Rightarrow> crypto \<Rightarrow> string \<Rightarrow> world \<Rightarrow> (cert_error + tls_certificate) \<times> world" where
  "load_cert e c dir w =
     (case read_file e (join_path [dir, wc_cert_file]) w of
        (Inl er, w1) \<Rightarrow> (Inl (CertOs er), w1)
      | (Inr cert_pem, w1) \<Rightarrow>
     (case read_file e (join_path [dir, wc_key_file]) w1 of
        (Inl er, w2) \<Rightarrow> (Inl (CertOs er), w2)
      | (Inr key_pem, w2) \<Rightarrow>
     (case read_file e (join_path [dir, ca_cert_file]) w2 of
        (Inl er, w3) \<Rightarrow> (Inl (CertOs er), w3)
      | (Inr ca_pem, w3) \<Rightarrow>
     (case key_pair c cert_pem key_pem of
        Inl er \<Rightarrow> (Inl (CertCrypto er), w3)
      | Inr (der, interm, key) \<Rightarrow>
     (case parse_cert c der of
        Inl er \<Rightarrow> (Inl (CertCrypto er), w3)
      | Inr l \<Rightarrow>
     (case time_now e w3 of
        (now, w4) \<Rightarrow>
     (case check_leaf now l of
        Some er \<Rightarrow> (Inl er, w4)
      | None \<Rightarrow>
     (case pem_block c ca_pem of
        None \<Rightarrow> (Inl CertBadCaPem, w4)
      | Some ca_der \<Rightarrow>
          (Inr \<lparr>cert_chain = der # interm @ [ca_der], private_key = key, leaf_cert = Some l\<rparr>, w4)))))))))"

section \<open>Making\<close>

definition write_cert_pem :: "os_env \<Rightarrow> crypto \<Rightarrow> string \<Rightarrow> string \<Rightarrow> world \<Rightarrow> cert_error option \<times> world" where
  "write_cert_pem e c p der w =
     (case write_file e p (pem_text c ''CERTIFICATE'' der) mode_600 w of
        (er, w1) \<Rightarrow> (map_option CertOs er, w1))"

definition write_key_pem :: "os_env \<Rightarrow> crypto \<Rightarrow> string \<Rightarrow> string \<Rightarrow> world \<Rightarrow> cert_error option \<times> world" where
  "write_key_pem e c p key w =
     (case marshal_key c key of
        Inl er \<Rightarrow> (Some (CertCrypto er), w)
      | Inr der \<Rightarrow>
          (case write_file e p (pem_text c ''EC PRIVATE KEY'' der) mode_600 w of
             (er, w1) \<Rightarrow> (map_option CertOs er, w1)))"

definition ca_template :: "int \<Rightarrow> int \<Rightarrow> int \<Rightarrow> string \<Rightarrow> x509" where
  "ca_template serial before after key_id =
     \<lparr>c_serial = serial, c_common_name = ''local-auto-domain CA'', c_dns_names = [],
      c_not_before = before - minute, c_not_after = after + 10 * 365 * 24 * hour,
      c_key_usage = [UsageCertSign, UsageCRLSign], c_ext_key_usage = [],
      c_basic_constraints_valid = True, c_is_ca = True,
      c_subject_key_id = key_id, c_authority_key_id = ''''\<rparr>"

definition wc_template :: "int \<Rightarrow> int \<Rightarrow> int \<Rightarrow> string \<Rightarrow> string \<Rightarrow> x509" where
  "wc_template serial before after key_id ca_key_id =
     \<lparr>c_serial = serial, c_common_name = ''*.tunnel.test'',
      c_dns_names = [''*.tunnel.test'', ''tunnel.test''],
      c_not_before = before - minute, c_not_after = after + 2 * 365 * 24 * hour,
      c_key_usage = [UsageDigitalSignature], c_ext_key_usage = [UsageServerAuth],
      c_basic_constraints_valid = False, c_is_ca = False,
      c_subject_key_id = key_id, c_authority_key_id = ca_key_id\<rparr>"

text \<open>The four files, in the order they are written; the first failure ends it.\<close>

definition write_cert_files ::
  "os_env \<Rightarrow> crypto \<Rightarrow> string \<Rightarrow> string \<Rightarrow> string \<Rightarrow> string \<Rightarrow> string \<Rightarrow> world \<Rightarrow> cert_error option \<times> world" where
  "write_cert_files e c dir ca_der ca_key wc_der wc_key w =
     (case write_cert_pem e c (join_path [dir, ca_cert_file]) ca_der w of
        (Some er, w1) \<Rightarrow> (Some er, w1)
      | (None, w1) \<Rightarrow>
     (case write_key_pem e c (join_path [dir, ca_key_file]) ca_key w1 of
        (Some er, w2) \<Rightarrow> (Some er, w2)
      | (None, w2) \<Rightarrow>
     (case write_cert_pem e c (join_path [dir, wc_cert_file]) wc_der w2 of
        (Some er, w3) \<Rightarrow> (Some er, w3)
      | (None, w3) \<Rightarrow> write_key_pem e c (join_path [dir, wc_key_file]) wc_key w3)))"

text \<open>\<open>mustRandSerial\<close> panics when the random source fails.\<close>

definition make_cert ::
  "os_env \<Rightarrow> crypto \<Rightarrow> string \<Rightarrow> world \<Rightarrow> (cert_error + tls_certificate \<times> string) outcome \<times> world" where
  "make_cert e c dir w =
     (let ca_file = join_path [dir, ca_cert_file] in
      case gen_key c (tick w) of
        Inl er \<Rightarrow> (Returns (Inl (CertCrypto er)), ticked w)
      | Inr ca_key \<Rightarrow>
     (let ca_pub = public_key c ca_key; ca_id = pub_key_id c ca_pub; w1 = ticked w in
      case rand_serial c (tick w1) of
        None \<Rightarrow> (Panics, ticked w1)
      | Some ca_serial \<Rightarrow>
     (case time_now e (ticked w1) of (t1, w2) \<Rightarrow>
     (case time_now e w2 of (t2, w3) \<Rightarrow>
     (let ca_t = ca_template ca_serial t1 t2 ca_id in
      case create_cert c (tick w3) ca_t ca_t ca_pub ca_key of
        Inl er \<Rightarrow> (Returns (Inl (CertCrypto er)), ticked w3)
      | Inr ca_der \<Rightarrow>
     (case parse_cert c ca_der of
        Inl er \<Rightarrow> (Returns (Inl (CertCrypto er)), ticked w3)
      | Inr ca_cert \<Rightarrow>
     (let w4 = ticked w3 in
      case gen_key c (tick w4) of
        Inl er \<Rightarrow> (Returns (Inl (CertCrypto er)), ticked w4)
      | Inr wc_key \<Rightarrow>
     (let wc_pub = public_key c wc_key; w5 = ticked w4 in
      case rand_serial c (tick w5) of
        None \<Rightarrow> (Panics, ticked w5)
      | Some wc_serial \<Rightarrow>
     (case time_now e (ticked w5) of (t3, w6) \<Rightarrow>
     (case time_now e w6 of (t4, w7) \<Rightarrow>
     (case create_cert c (tick w7) (wc_template wc_serial t3 t4 (pub_key_id c wc_pub) ca_id)
             ca_cert wc_pub ca_key of
        Inl er \<Rightarrow> (Returns (Inl (CertCrypto er)), ticked w7)
      | Inr wc_der \<Rightarrow>
     (case write_cert_files e c dir ca_der ca_key wc_der wc_key (ticked w7) of
        (Some er, w8) \<Rightarrow> (Returns (Inl er), w8)
      | (None, w8) \<Rightarrow>
          (let leaf = (case parse_cert c wc_der of Inl er \<Rightarrow> None | Inr l \<Rightarrow> Some l) in
           (Returns (Inr (\<lparr>cert_chain = [wc_der, ca_der], private_key = wc_key, leaf_cert = leaf\<rparr>,
              ca_file)), w8))))))))))))))"

definition ensure_cert ::
  "os_env \<Rightarrow> crypto \<Rightarrow> string \<Rightarrow> world \<Rightarrow> (cert_error + tls_certificate \<times> string) outcome \<times> world" where
  "ensure_cert e c dir w =
     (case mkdir_all e dir mode_700 w of
        (Some er, w1) \<Rightarrow> (Returns (Inl (CertOs er)), w1)
      | (None, w1) \<Rightarrow>
          (case load_cert e c dir w1 of
             (Inr cert, w2) \<Rightarrow> (Returns (Inr (cert, join_path [dir, ca_cert_file])), w2)
           | (Inl er, w2) \<Rightarrow> make_cert e c dir w2))"

section \<open>What a loaded certificate is\<close>

lemma load_cert_ok:
  assumes "load_cert e c dir w = (Inr cert, w')"
  shows "files w' = files w \<and> bound w' = bound w \<and> printed w' = printed w \<and>
    (\<exists>l der interm cp kp ap ca_der.
      (\<exists>m. node_at w (join_path [dir, wc_cert_file]) = Some (FileNode m cp))
      \<and> (\<exists>m. node_at w (join_path [dir, wc_key_file]) = Some (FileNode m kp))
      \<and> (\<exists>m. node_at w (join_path [dir, ca_cert_file]) = Some (FileNode m ap))
      \<and> key_pair c cp kp = Inr (der, interm, private_key cert) \<and> parse_cert c der = Inr l
      \<and> pem_block c ap = Some ca_der \<and> check_leaf (clock e (tick w + 3)) l = None
      \<and> cert_chain cert = der # interm @ [ca_der] \<and> leaf_cert cert = Some l)"
proof -
  have rf: "read_file e p v = (Inr d, v') \<Longrightarrow> (\<exists>m. node_at v p = Some (FileNode m d)) \<and> v' = ticked v" for p v d v'
    by (auto simp: read_file_def split: fault.splits option.splits node.splits)
  from assms show ?thesis
    by (fastforce simp: load_cert_def time_now_def eval_nat_numeral dest!: rf
        split: prod.splits sum.splits option.splits)
qed

lemma check_leaf_None:
  "check_leaf now l = None \<longleftrightarrow>
   now + 30 * 24 * hour \<le> c_not_after l \<and> c_authority_key_id l \<noteq> '''' \<and> ''*.tunnel.test'' \<in> set (c_dns_names l)"
  by (auto simp: check_leaf_def list_ex_iff)

text \<open>
  C28: a certificate that \<open>LoadCert\<close> returns can be served for a month: its leaf is the parsed first
  certificate of the chain, stays valid for at least 30 more days, names its issuer's key, and
  covers \<open>*.tunnel.test\<close>; the chain ends with the authority; and loading changed no file.
\<close>

theorem load_cert_sound:
  assumes "load_cert e c dir w = (Inr cert, w')"
  shows "\<exists>l now. leaf_cert cert = Some l \<and> now = clock e (tick w + 3)
    \<and> now + 30 * 24 * hour \<le> c_not_after l \<and> c_authority_key_id l \<noteq> ''''
    \<and> ''*.tunnel.test'' \<in> set (c_dns_names l)
    \<and> parse_cert c (hd (cert_chain cert)) = Inr l \<and> 2 \<le> length (cert_chain cert) \<and> files w' = files w"
  using load_cert_ok [OF assms] by (auto simp: check_leaf_None)

section \<open>What is made is loaded again\<close>

text \<open>
  What the cryptography packages document, for one run: a PEM text decodes to its block; a
  certificate made from a template for a key parses, with the template's names, its parent's
  key identifier as the authority's (or the template's, if the parent has none), and an expiry
  time that is at most a second earlier, X.509 times being whole seconds; a certificate and the
  key it was made for are a key pair.
\<close>

definition crypto_ok :: "crypto \<Rightarrow> bool" where
  "crypto_ok c \<longleftrightarrow>
     (\<forall>ty d. pem_block c (pem_text c ty d) = Some d)
   \<and> (\<forall>t tmpl parent pub signer der. create_cert c t tmpl parent pub signer = Inr der \<longrightarrow>
        (\<exists>l. parse_cert c der = Inr l \<and> c_dns_names l = c_dns_names tmpl
           \<and> c_not_after tmpl - second < c_not_after l \<and> c_not_after l \<le> c_not_after tmpl
           \<and> (c_authority_key_id l = c_authority_key_id tmpl
              \<or> c_subject_key_id parent \<noteq> '''' \<and> c_authority_key_id l = c_subject_key_id parent)))
   \<and> (\<forall>t tmpl parent key signer der kd. create_cert c t tmpl parent (public_key c key) signer = Inr der \<longrightarrow>
        marshal_key c key = Inr kd \<longrightarrow>
        key_pair c (pem_text c ''CERTIFICATE'' der) (pem_text c ''EC PRIVATE KEY'' kd) = Inr (der, [], key))
   \<and> (\<forall>d. sha1_sum c d \<noteq> '''')"

lemma crypto_ok_create:
  assumes "crypto_ok c" "create_cert c t tmpl parent pub signer = Inr der"
  shows "\<exists>l. parse_cert c der = Inr l \<and> c_dns_names l = c_dns_names tmpl
    \<and> c_not_after tmpl - second < c_not_after l
    \<and> (c_authority_key_id l = c_authority_key_id tmpl
       \<or> c_subject_key_id parent \<noteq> '''' \<and> c_authority_key_id l = c_subject_key_id parent)"
  using assms unfolding crypto_ok_def by blast

lemma cert_files_plain:
  "plain_name ca_cert_file" "plain_name ca_key_file" "plain_name wc_cert_file" "plain_name wc_key_file"
  by (simp_all add: plain_name_def ca_cert_file_def ca_key_file_def wc_cert_file_def wc_key_file_def)

lemma cert_paths_differ:
  assumes "a \<noteq> b" "plain_name a" "plain_name b"
  shows "join_path [dir, a] \<noteq> join_path [dir, b]"
  using assms join_path_inj by metis

lemma write_file_600:
  "write_file e p t mode_600 v = (None, v') \<Longrightarrow>
   (\<exists>k. node_at v' p = Some (FileNode k t)) \<and> (\<forall>q. q \<noteq> p \<longrightarrow> node_at v' q = node_at v q)"
  by (drule write_file_None) auto

lemma write_cert_pem_ok:
  "write_cert_pem e c p der w = (None, w') \<Longrightarrow>
   (\<exists>k. node_at w' p = Some (FileNode k (pem_text c ''CERTIFICATE'' der)))
   \<and> (\<forall>q. q \<noteq> p \<longrightarrow> node_at w' q = node_at w q)"
  unfolding write_cert_pem_def by (rule write_file_600) (auto split: prod.splits)

lemma write_key_pem_ok:
  "write_key_pem e c p key w = (None, w') \<Longrightarrow>
   (\<exists>k kd. marshal_key c key = Inr kd \<and> node_at w' p = Some (FileNode k (pem_text c ''EC PRIVATE KEY'' kd)))
   \<and> (\<forall>q. q \<noteq> p \<longrightarrow> node_at w' q = node_at w q)"
proof -
  assume a: "write_key_pem e c p key w = (None, w')"
  then obtain kd where kd: "marshal_key c key = Inr kd"
    by (cases "marshal_key c key") (auto simp: write_key_pem_def)
  with a have "write_file e p (pem_text c ''EC PRIVATE KEY'' kd) mode_600 w = (None, w')"
    by (auto simp: write_key_pem_def split: prod.splits)
  from write_file_600 [OF this] kd show ?thesis by blast
qed

lemma write_cert_files_ok:
  assumes "write_cert_files e c dir ca_der ca_key wc_der wc_key w = (None, w')"
  shows "\<exists>k1 k2 k3 kd. marshal_key c wc_key = Inr kd
    \<and> node_at w' (join_path [dir, ca_cert_file]) = Some (FileNode k1 (pem_text c ''CERTIFICATE'' ca_der))
    \<and> node_at w' (join_path [dir, wc_cert_file]) = Some (FileNode k2 (pem_text c ''CERTIFICATE'' wc_der))
    \<and> node_at w' (join_path [dir, wc_key_file]) = Some (FileNode k3 (pem_text c ''EC PRIVATE KEY'' kd))"
proof -
  have ne: "ca_cert_file \<noteq> ca_key_file" "ca_cert_file \<noteq> wc_cert_file" "ca_cert_file \<noteq> wc_key_file"
    "wc_cert_file \<noteq> wc_key_file"
    by (simp_all add: ca_cert_file_def ca_key_file_def wc_cert_file_def wc_key_file_def)
  note d = ne(1) [THEN cert_paths_differ, OF cert_files_plain(1,2), of dir]
    ne(2) [THEN cert_paths_differ, OF cert_files_plain(1,3), of dir]
    ne(3) [THEN cert_paths_differ, OF cert_files_plain(1,4), of dir]
    ne(4) [THEN cert_paths_differ, OF cert_files_plain(3,4), of dir]
  obtain r1 w1 where s1: "write_cert_pem e c (join_path [dir, ca_cert_file]) ca_der w = (r1, w1)" by fastforce
  have w1: "r1 = None" using assms s1 by (cases r1) (simp_all add: write_cert_files_def)
  obtain r2 w2 where s2: "write_key_pem e c (join_path [dir, ca_key_file]) ca_key w1 = (r2, w2)" by fastforce
  have w2: "r2 = None" using assms s1 w1 s2 by (cases r2) (simp_all add: write_cert_files_def)
  obtain r3 w3 where s3: "write_cert_pem e c (join_path [dir, wc_cert_file]) wc_der w2 = (r3, w3)" by fastforce
  have w3: "r3 = None" using assms s1 w1 s2 w2 s3 by (cases r3) (simp_all add: write_cert_files_def)
  have w': "write_key_pem e c (join_path [dir, wc_key_file]) wc_key w3 = (None, w')"
    using assms s1 w1 s2 w2 s3 w3 by (simp add: write_cert_files_def)
  note ok1 = write_cert_pem_ok [OF s1 [unfolded w1]] and ok2 = write_key_pem_ok [OF s2 [unfolded w2]]
    and ok3 = write_cert_pem_ok [OF s3 [unfolded w3]] and ok4 = write_key_pem_ok [OF w']
  have ca: "node_at w' (join_path [dir, ca_cert_file]) = node_at w1 (join_path [dir, ca_cert_file])"
    using conjunct2 [OF ok2, rule_format, OF d(1)] conjunct2 [OF ok3, rule_format, OF d(2)]
      conjunct2 [OF ok4, rule_format, OF d(3)] by simp
  have wc: "node_at w' (join_path [dir, wc_cert_file]) = node_at w3 (join_path [dir, wc_cert_file])"
    by (rule conjunct2 [OF ok4, rule_format, OF d(4)])
  show ?thesis
    unfolding ca wc using conjunct1 [OF ok1] conjunct1 [OF ok3] conjunct1 [OF ok4] by blast
qed

lemma make_cert_ok:
  assumes "make_cert e c dir w = (Returns (Inr (cert, f)), w')"
  obtains ca_key ca_der ca_cert wc_key wc_der t0 t1 t2 t3 t4 s0 s1 v where
    "create_cert c t0 (ca_template s0 t1 t2 (pub_key_id c (public_key c ca_key)))
       (ca_template s0 t1 t2 (pub_key_id c (public_key c ca_key))) (public_key c ca_key) ca_key = Inr ca_der"
    "parse_cert c ca_der = Inr ca_cert"
    "create_cert c (tick w + 9) (wc_template s1 t3 (clock e (tick w + 8)) (pub_key_id c (public_key c wc_key))
       (pub_key_id c (public_key c ca_key))) ca_cert (public_key c wc_key) ca_key = Inr wc_der"
    "write_cert_files e c dir ca_der ca_key wc_der wc_key v = (None, w')"
    "cert_chain cert = [wc_der, ca_der]" "private_key cert = wc_key" "f = join_path [dir, ca_cert_file]"
    "leaf_cert cert = (case parse_cert c wc_der of Inl er \<Rightarrow> None | Inr l \<Rightarrow> Some l)"
  using assms
  by (auto simp: make_cert_def Let_def time_now_def eval_nat_numeral
      split: sum.splits option.splits prod.splits)

lemma load_cert_reads:
  assumes "\<forall>t p. fault_at e t OpRead p = Fine"
    and "node_at w (join_path [dir, wc_cert_file]) = Some (FileNode m1 cp)"
    and "node_at w (join_path [dir, wc_key_file]) = Some (FileNode m2 kp)"
    and "node_at w (join_path [dir, ca_cert_file]) = Some (FileNode m3 ap)"
    and "key_pair c cp kp = Inr (der, [], key)" and "parse_cert c der = Inr l"
    and "check_leaf (clock e (tick w + 3)) l = None" and "pem_block c ap = Some ca_der"
  shows "\<exists>w'. load_cert e c dir w = (Inr \<lparr>cert_chain = [der, ca_der], private_key = key, leaf_cert = Some l\<rparr>, w')"
  using assms by (simp add: load_cert_def read_file_def time_now_def eval_nat_numeral)

text \<open>
  C21: a made certificate is not made twice. When \<open>EnsureCert\<close> made one, the next \<open>LoadCert\<close> that
  comes within two years less 30 days (and the second an X.509 time may lose) returns it: the same
  chain, leaf and key, from the files. The cryptography packages must behave as documented, and reads must work.
\<close>

theorem make_cert_then_load:
  assumes "crypto_ok c" and "\<forall>t p. fault_at e t OpRead p = Fine"
    and "make_cert e c dir w = (Returns (Inr (cert, f)), w')"
    and "clock e (tick w' + 3) \<le> clock e (tick w + 8) + (2 * 365 - 30) * 24 * hour - second"
  shows "\<exists>w''. load_cert e c dir w' = (Inr cert, w'')"
proof -
  obtain ca_key ca_der ca_cert wc_key wc_der t0 t1 t2 t3 s0 s1 v where
    ca: "create_cert c t0 (ca_template s0 t1 t2 (pub_key_id c (public_key c ca_key)))
       (ca_template s0 t1 t2 (pub_key_id c (public_key c ca_key))) (public_key c ca_key) ca_key = Inr ca_der"
      "parse_cert c ca_der = Inr ca_cert"
    and wc: "create_cert c (tick w + 9) (wc_template s1 t3 (clock e (tick w + 8)) (pub_key_id c (public_key c wc_key))
       (pub_key_id c (public_key c ca_key))) ca_cert (public_key c wc_key) ca_key = Inr wc_der"
    and wf: "write_cert_files e c dir ca_der ca_key wc_der wc_key v = (None, w')"
    and cert: "cert_chain cert = [wc_der, ca_der]" "private_key cert = wc_key"
      "leaf_cert cert = (case parse_cert c wc_der of Inl er \<Rightarrow> None | Inr l \<Rightarrow> Some l)"
    by (rule make_cert_ok [OF assms(3)]) (rule that)
  obtain k1 k2 k3 kd where kd: "marshal_key c wc_key = Inr kd"
    and f: "node_at w' (join_path [dir, ca_cert_file]) = Some (FileNode k1 (pem_text c ''CERTIFICATE'' ca_der))"
      "node_at w' (join_path [dir, wc_cert_file]) = Some (FileNode k2 (pem_text c ''CERTIFICATE'' wc_der))"
      "node_at w' (join_path [dir, wc_key_file]) = Some (FileNode k3 (pem_text c ''EC PRIVATE KEY'' kd))"
    using write_cert_files_ok [OF wf] by blast
  have kp: "key_pair c (pem_text c ''CERTIFICATE'' wc_der) (pem_text c ''EC PRIVATE KEY'' kd) = Inr (wc_der, [], wc_key)"
    using assms(1) wc kd unfolding crypto_ok_def by blast
  have sha: "pub_key_id c p \<noteq> ''''" for p using assms(1) by (simp add: crypto_ok_def pub_key_id_def)
  obtain l where l: "parse_cert c wc_der = Inr l" "c_dns_names l = [''*.tunnel.test'', ''tunnel.test'']"
    "clock e (tick w + 8) + 2 * 365 * 24 * hour - second < c_not_after l" "c_authority_key_id l \<noteq> ''''"
    using crypto_ok_create [OF assms(1) wc] sha by (auto simp: wc_template_def)
  have "check_leaf (clock e (tick w' + 3)) l = None"
    using l assms(4) by (simp add: check_leaf_None)
  moreover have "pem_block c (pem_text c ''CERTIFICATE'' ca_der) = Some ca_der"
    using assms(1) by (simp add: crypto_ok_def)
  ultimately have "\<exists>w''. load_cert e c dir w' =
      (Inr \<lparr>cert_chain = [wc_der, ca_der], private_key = wc_key, leaf_cert = Some l\<rparr>, w'')"
    by (rule load_cert_reads [OF assms(2) f(2,3,1) kp l(1)])
  moreover have "cert = \<lparr>cert_chain = [wc_der, ca_der], private_key = wc_key, leaf_cert = Some l\<rparr>"
    using cert l(1) by (cases cert) simp
  ultimately show ?thesis by simp
qed

text \<open>
  When there is a usable certificate, \<open>EnsureCert\<close> returns it and writes nothing: every file has
  the content it had.
\<close>

theorem ensure_cert_keeps:
  assumes "mkdir_all e dir mode_700 w = (None, w1)" and "load_cert e c dir w1 = (Inr cert, w2)"
  shows "ensure_cert e c dir w = (Returns (Inr (cert, join_path [dir, ca_cert_file])), w2)
    \<and> (node_at w2 q = Some (FileNode m d) \<longleftrightarrow> node_at w q = Some (FileNode m d))"
  using assms mkdir_all_file [OF assms(1), of q m d] load_cert_ok [OF assms(2)]
  by (simp add: ensure_cert_def)

section \<open>An instance of the cryptography\<close>

definition demo_ca :: x509 where "demo_ca = ca_template 1 2 3 ''id''"
definition demo_wc :: x509 where "demo_wc = wc_template 1 7 8 ''id'' ''id''"

text \<open>A toy authority that can make two certificates, for two keys.\<close>

definition demo_crypto :: crypto where
  "demo_crypto =
     \<lparr>gen_key = (\<lambda>t. Inr (if t = 0 then ''k1'' else ''k2'')), public_key = id, marshal_pub = id,
      sha1_sum = (\<lambda>_. ''id''), rand_serial = (\<lambda>_. Some 1),
      create_cert = (\<lambda>_ tmpl _ pub _.
        if tmpl = demo_ca \<and> pub = ''k1'' then Inr ''ca''
        else if tmpl = demo_wc \<and> pub = ''k2'' then Inr ''wc'' else Inl ''no''),
      parse_cert = (\<lambda>d. if d = ''ca'' then Inr demo_ca else if d = ''wc'' then Inr demo_wc else Inl ''no''),
      marshal_key = Inr, pem_text = (\<lambda>_ d. d), pem_block = Some,
      key_pair = (\<lambda>cp kp. if cp = ''ca'' \<and> kp = ''k1'' \<or> cp = ''wc'' \<and> kp = ''k2'' then Inr (cp, [], kp) else Inl ''no'')\<rparr>"

lemma demo_crypto_ok: "crypto_ok demo_crypto"
  by (auto simp: crypto_ok_def demo_crypto_def second_def split: if_splits)

lemma demo_cert_paths:
  "join_path [''/t'', ca_cert_file] = ''/t/ca.crt''" "join_path [''/t'', ca_key_file] = ''/t/ca.key''"
  "join_path [''/t'', wc_cert_file] = ''/t/wildcard.crt''" "join_path [''/t'', wc_key_file] = ''/t/wildcard.key''"
  by (simp_all add: join_path_def clean_path_def has_prefix_def ca_cert_file_def ca_key_file_def
      wc_cert_file_def wc_key_file_def)

definition demo_cert :: tls_certificate where
  "demo_cert = \<lparr>cert_chain = [''wc'', ''ca''], private_key = ''k2'', leaf_cert = Some demo_wc\<rparr>"

definition cert_world :: world where
  "cert_world = \<lparr>files = [(''/t'', DirNode mode_755), (''/t/ca.crt'', FileNode mode_600 ''ca''),
      (''/t/ca.key'', FileNode mode_600 ''k1''), (''/t/wildcard.crt'', FileNode mode_600 ''wc''),
      (''/t/wildcard.key'', FileNode mode_600 ''k2'')], tick = 14, ran = [], bound = [], printed = []\<rparr>"

lemma demo_parents:
  assumes "is_dir w ''/t''"
  shows "has_parent w ''/t/ca.crt''" "has_parent w ''/t/ca.key''"
    "has_parent w ''/t/wildcard.crt''" "has_parent w ''/t/wildcard.key''"
  using has_parent_in [OF assms] by (simp_all add: plain_name_def ca_cert_file_def ca_key_file_def
      wc_cert_file_def wc_key_file_def flip: demo_cert_paths)

lemma demo_make: "make_cert (calm_env Linux) demo_crypto ''/t'' (dir_world ''/t'')
    = (Returns (Inr (demo_cert, ''/t/ca.crt'')), cert_world)"
proof -
  have ne: "demo_wc \<noteq> demo_ca" by (simp add: demo_ca_def demo_wc_def ca_template_def wc_template_def)
  have cr: "create_cert demo_crypto t (ca_template 1 2 3 ''id'') p ''k1'' s = Inr ''ca''"
    "create_cert demo_crypto t (wc_template 1 7 8 ''id'' ''id'') p ''k2'' s = Inr ''wc''" for t p s
    using ne by (simp_all add: demo_crypto_def flip: demo_ca_def demo_wc_def)
  have c: "gen_key demo_crypto t = Inr (if t = 0 then ''k1'' else ''k2'')" "rand_serial demo_crypto t = Some 1"
    "public_key demo_crypto k = k" "pub_key_id demo_crypto k = ''id''" "marshal_key demo_crypto k = Inr k"
    "pem_text demo_crypto ty d = d" "parse_cert demo_crypto ''ca'' = Inr demo_ca"
    "parse_cert demo_crypto ''wc'' = Inr demo_wc" for t k ty d
    by (simp_all add: demo_crypto_def pub_key_id_def)
  have e: "clock (calm_env Linux) t = int t" "fault_at (calm_env Linux) t op p = Fine" for t op p
    by (simp_all add: calm_env_def)
  show ?thesis
    by (simp add: make_cert_def c cr e time_now_def Let_def dir_world_def write_cert_files_def
        write_cert_pem_def write_key_pem_def demo_cert_paths write_file_def put_file_def demo_parents is_dir_def
        demo_cert_def cert_world_def)
qed

theorem make_cert_then_load_witness:
  "\<exists>w''. load_cert (calm_env Linux) demo_crypto ''/t'' cert_world = (Inr demo_cert, w'')"
  by (rule make_cert_then_load [OF demo_crypto_ok _ demo_make])
    (simp_all add: calm_env_def cert_world_def dir_world_def hour_def minute_def second_def)

lemma demo_load: "\<exists>w'. load_cert (calm_env Linux) demo_crypto ''/t'' cert_world = (Inr demo_cert, w')"
  unfolding demo_cert_def
  by (rule load_cert_reads [where cp = "''wc''" and kp = "''k2''" and ap = "''ca''" and l = demo_wc
        and ?m1.0 = mode_600 and ?m2.0 = mode_600 and ?m3.0 = mode_600], unfold demo_cert_paths)
    (simp_all add: calm_env_def cert_world_def demo_crypto_def check_leaf_None demo_wc_def wc_template_def
      hour_def minute_def second_def)

theorem load_cert_sound_witness:
  "\<exists>l now. leaf_cert demo_cert = Some l \<and> now + 30 * 24 * hour \<le> c_not_after l"
  using demo_load load_cert_sound by (metis prod.collapse)

theorem ensure_cert_keeps_witness:
  "\<exists>w2. ensure_cert (calm_env Linux) demo_crypto ''/t'' cert_world
     = (Returns (Inr (demo_cert, join_path [''/t'', ca_cert_file])), w2)"
proof -
  have "dir_ready cert_world ''/t''" by (simp add: dir_ready_def ancestors_def cert_world_def)
  then have "mkdir_all (calm_env Linux) ''/t'' mode_700 cert_world = (None, cert_world)" by (rule mkdir_all_ready)
  with demo_load ensure_cert_keeps show ?thesis by blast
qed

end
