(* ===== verification/Proxy.thy ===== *)
theory Proxy
  imports Tlscert
begin

text \<open>
  \<open>internal/proxy/proxy.go\<close>. First the operations as the daemon calls them, one after the other, on
  the set of bound TCP addresses. Then the goroutines of a running proxy, as a step relation: the
  accept loop, one pipe for each accepted connection, and any number of callers of \<open>Stop\<close>.
\<close>

record proxy =
  bind_ip :: string
  listen_port :: int
  target_port :: int
  proxy_cert :: "tls_certificate option"
  proxy_listener :: "(string \<times> int) option"
  quit_closed :: bool

definition new_proxy :: "string \<Rightarrow> int \<Rightarrow> int \<Rightarrow> proxy" where
  "new_proxy bindIP listenPort targetPort =
     \<lparr>bind_ip = bindIP, listen_port = listenPort, target_port = targetPort, proxy_cert = None,
      proxy_listener = None, quit_closed = False\<rparr>"

definition new_tls_proxy :: "string \<Rightarrow> int \<Rightarrow> int \<Rightarrow> tls_certificate \<Rightarrow> proxy" where
  "new_tls_proxy bindIP listenPort targetPort cert =
     \<lparr>bind_ip = bindIP, listen_port = listenPort, target_port = targetPort, proxy_cert = Some cert,
      proxy_listener = None, quit_closed = False\<rparr>"

text \<open>
  \<open>net.Listen\<close>: fails for a number that is no port, when the system refuses, and when the address is
  bound; port 0 asks the system for a port.
\<close>

definition listen_tcp :: "os_env \<Rightarrow> string \<Rightarrow> int \<Rightarrow> world \<Rightarrow> (os_err + string \<times> int) \<times> world" where
  "listen_tcp e ip port w =
     (let a = (ip, if port = 0 then ephemeral e (tick w) ip else port) in
      if port < 0 \<or> 65535 < port \<or> bind_refused e (tick w) ip port \<or> a \<in> set (bound w)
      then (Inl EOther, ticked w)
      else (Inr a, (ticked w)\<lparr>bound := a # bound w\<rparr>))"

definition proxy_start :: "os_env \<Rightarrow> proxy \<Rightarrow> world \<Rightarrow> (os_err option \<times> proxy) \<times> world" where
  "proxy_start e p w =
     (case listen_tcp e (bind_ip p) (listen_port p) w of
        (Inl er, w1) \<Rightarrow> ((Some er, p), w1)
      | (Inr a, w1) \<Rightarrow> ((None, p\<lparr>proxy_listener := Some a\<rparr>), w1))"

definition proxy_stop :: "proxy \<Rightarrow> world \<Rightarrow> proxy \<times> world" where
  "proxy_stop p w =
     (if quit_closed p then (p, w)
      else (p\<lparr>quit_closed := True\<rparr>,
            case proxy_listener p of
              None \<Rightarrow> w
            | Some a \<Rightarrow> w\<lparr>bound := remove1 a (bound w)\<rparr>))"

lemma proxy_start_ok:
  "proxy_start e p w = ((None, p'), w') \<Longrightarrow>
   \<exists>a. p' = p\<lparr>proxy_listener := Some a\<rparr> \<and> fst a = bind_ip p \<and> a \<notin> set (bound w)
     \<and> w' = (ticked w)\<lparr>bound := a # bound w\<rparr>
     \<and> 0 \<le> listen_port p \<and> listen_port p \<le> 65535 \<and> (listen_port p \<noteq> 0 \<longrightarrow> snd a = listen_port p)"
  by (auto simp: proxy_start_def listen_tcp_def Let_def split: prod.splits sum.splits if_splits)

lemma proxy_start_fails: "proxy_start e p w = ((Some er, p'), w') \<Longrightarrow> p' = p \<and> w' = ticked w"
  by (auto simp: proxy_start_def listen_tcp_def Let_def split: prod.splits sum.splits if_splits)

section \<open>A running proxy\<close>

text \<open>
  A connection being piped: the upstream address is being dialled; or both copies run, each of which
  may have ended, the client-to-upstream one first; or the function has returned and both
  connections are closed. A copy ends when its source does, or on an error, which the proxy does
  not control.
\<close>

datatype pipe = Dialing | Piping bool bool | PipeEnded

inductive pipe_step :: "pipe \<Rightarrow> pipe \<Rightarrow> bool" where
  dial_ok: "pipe_step Dialing (Piping False False)"
| dial_fails: "pipe_step Dialing PipeEnded"
| up_ends: "pipe_step (Piping False d) (Piping True d)"
| down_ends: "pipe_step (Piping u False) (Piping u True)"
| both_ended: "pipe_step (Piping True True) PipeEnded"

text \<open>The two connections a pipe holds: \<open>defer src.Close()\<close> and \<open>defer dst.Close()\<close>.\<close>

fun client_open :: "pipe \<Rightarrow> bool" where
  "client_open PipeEnded = False"
| "client_open p = True"

fun upstream_open :: "pipe \<Rightarrow> bool" where
  "upstream_open (Piping u d) = True"
| "upstream_open p = False"

datatype serve_state = Accepting | ServeReturned

datatype stopper = StopCalled | StopWaiting | StopReturned

record proxy_run =
  quit :: bool
  listening :: bool
  serve :: serve_state
  pipes :: "pipe list"
  stoppers :: "stopper list"

definition run_start :: proxy_run where
  "run_start = \<lparr>quit = False, listening = True, serve = Accepting, pipes = [], stoppers = []\<rparr>"

text \<open>
  \<open>Accept\<close> needs the listener; it may fail at any time, and then the loop returns, whatever the
  reason. The first caller of \<open>Stop\<close> closes \<open>quit\<close> and the listener; every caller then waits for
  the accept loop, which is all the wait group counts.
\<close>

inductive run_step :: "proxy_run \<Rightarrow> proxy_run \<Rightarrow> bool" where
  accept: "serve r = Accepting \<Longrightarrow> listening r \<Longrightarrow>
    run_step r (r\<lparr>pipes := pipes r @ [Dialing]\<rparr>)"
| accept_fails: "serve r = Accepting \<Longrightarrow> run_step r (r\<lparr>serve := ServeReturned\<rparr>)"
| pipe: "i < length (pipes r) \<Longrightarrow> pipe_step (pipes r ! i) p \<Longrightarrow>
    run_step r (r\<lparr>pipes := (pipes r)[i := p]\<rparr>)"
| stop_call: "run_step r (r\<lparr>stoppers := stoppers r @ [StopCalled]\<rparr>)"
| stop_first: "j < length (stoppers r) \<Longrightarrow> stoppers r ! j = StopCalled \<Longrightarrow> \<not> quit r \<Longrightarrow>
    run_step r (r\<lparr>quit := True, listening := False, stoppers := (stoppers r)[j := StopWaiting]\<rparr>)"
| stop_again: "j < length (stoppers r) \<Longrightarrow> stoppers r ! j = StopCalled \<Longrightarrow> quit r \<Longrightarrow>
    run_step r (r\<lparr>stoppers := (stoppers r)[j := StopWaiting]\<rparr>)"
| stop_returns: "j < length (stoppers r) \<Longrightarrow> stoppers r ! j = StopWaiting \<Longrightarrow> serve r = ServeReturned \<Longrightarrow>
    run_step r (r\<lparr>stoppers := (stoppers r)[j := StopReturned]\<rparr>)"

inductive_cases run_stepE: "run_step r r'"
inductive_cases pipe_stepE: "pipe_step p p'"
inductive_simps pipe_step_simps [simp]: "pipe_step Dialing p" "pipe_step (Piping u d) p" "pipe_step PipeEnded p"

inductive run_reach :: "proxy_run \<Rightarrow> proxy_run \<Rightarrow> bool" where
  reach_refl: "run_reach r r"
| reach_step: "run_reach r r' \<Longrightarrow> run_step r' r'' \<Longrightarrow> run_reach r r''"

text \<open>What holds in every state of a started proxy.\<close>

definition run_inv :: "proxy_run \<Rightarrow> bool" where
  "run_inv r \<longleftrightarrow> (listening r \<longleftrightarrow> \<not> quit r)
     \<and> (\<forall>s \<in> set (stoppers r). s \<noteq> StopCalled \<longrightarrow> quit r)
     \<and> (StopReturned \<in> set (stoppers r) \<longrightarrow> serve r = ServeReturned)"

lemma run_inv_start: "run_inv run_start"
  by (simp add: run_inv_def run_start_def)

lemma run_inv_step: "run_step r r' \<Longrightarrow> run_inv r \<Longrightarrow> run_inv r'"
proof (induction rule: run_step.induct)
  case (stop_returns j r)
  then have "quit r" by (metis nth_mem run_inv_def stopper.distinct(1))
  with stop_returns show ?case
    by (auto simp: run_inv_def dest!: set_update_subset_insert [THEN subsetD])
qed (auto simp: run_inv_def dest!: set_update_subset_insert [THEN subsetD])

lemma run_inv_reach: "run_reach r r' \<Longrightarrow> run_inv r \<Longrightarrow> run_inv r'"
  by (induction rule: run_reach.induct) (auto intro: run_inv_step)

lemma pipes_grow: "run_step r r' \<Longrightarrow> length (pipes r) \<le> length (pipes r') \<and>
    (length (pipes r) < length (pipes r') \<longrightarrow> serve r = Accepting \<and> listening r)"
  by (induction rule: run_step.induct) auto

lemma stop_steps_keep: "run_step r r' \<Longrightarrow> run_inv r \<Longrightarrow> StopReturned \<in> set (stoppers r) \<Longrightarrow>
    StopReturned \<in> set (stoppers r') \<and> serve r' = ServeReturned \<and> length (pipes r') = length (pipes r)"
proof (induction rule: run_step.induct)
  case (stop_first j r)
  then show ?case by (auto simp: run_inv_def in_set_conv_nth nth_list_update)
next
  case (stop_again j r)
  then show ?case by (auto simp: run_inv_def in_set_conv_nth) (metis nth_list_update_neq stopper.distinct(4))
next
  case (stop_returns j r)
  then show ?case by (auto simp: run_inv_def in_set_conv_nth set_update_memI)
qed (auto simp: run_inv_def)

lemma run_reach_trans: "run_reach r' r'' \<Longrightarrow> run_reach r r' \<Longrightarrow> run_reach r r''"
  by (induction rule: run_reach.induct) (auto intro: reach_step)

lemma reachable_inv: "run_reach run_start r \<Longrightarrow> run_inv r"
  using run_inv_reach run_inv_start by blast

text \<open>
  C32: once a call of \<open>Stop\<close> has returned, in any interleaving of the accept loop, the pipes and
  other callers, the listener is closed, the accept loop has returned, and no further connection is
  ever accepted.
\<close>

theorem no_accept_after_stop:
  assumes "run_reach run_start r" and "StopReturned \<in> set (stoppers r)" and "run_reach r r'"
  shows "quit r' \<and> \<not> listening r' \<and> serve r' = ServeReturned \<and> length (pipes r') = length (pipes r)"
proof -
  have keep: "StopReturned \<in> set (stoppers r') \<and> run_inv r' \<and> length (pipes r') = length (pipes r)"
    using assms(3) assms(2) reachable_inv [OF assms(1)]
    by (induction rule: run_reach.induct) (auto intro: run_inv_step dest: stop_steps_keep)
  then show ?thesis by (fastforce simp: run_inv_def)
qed

definition stopped_run :: proxy_run where
  "stopped_run = \<lparr>quit = True, listening = False, serve = ServeReturned, pipes = [], stoppers = [StopReturned]\<rparr>"

lemma stopped_reach: "run_reach run_start stopped_run"
proof -
  let ?r1 = "run_start\<lparr>stoppers := [StopCalled]\<rparr>"
  let ?r2 = "?r1\<lparr>quit := True, listening := False, stoppers := [StopWaiting]\<rparr>"
  let ?r3 = "?r2\<lparr>serve := ServeReturned\<rparr>"
  have "run_step run_start ?r1" using stop_call [of run_start] by (simp add: run_start_def)
  moreover have "run_step ?r1 ?r2" using stop_first [of 0 ?r1] by (simp add: run_start_def)
  moreover have "run_step ?r2 ?r3" using accept_fails [of ?r2] by (simp add: run_start_def)
  moreover have "run_step ?r3 stopped_run"
    using stop_returns [of 0 ?r3] by (simp add: run_start_def stopped_run_def)
  ultimately show ?thesis by (meson reach_refl reach_step)
qed

theorem no_accept_after_stop_witness:
  "\<exists>r'. run_step stopped_run r' \<and> \<not> listening r' \<and> pipes r' = []"
proof -
  let ?r = "stopped_run\<lparr>stoppers := [StopReturned, StopCalled]\<rparr>"
  have s: "run_step stopped_run ?r" using stop_call [of stopped_run] by (simp add: stopped_run_def)
  from no_accept_after_stop [OF stopped_reach _ reach_step [OF reach_refl s]] s show ?thesis
    by (auto simp: stopped_run_def)
qed

section \<open>\<open>Stop\<close> returns\<close>

fun pipe_weight :: "pipe \<Rightarrow> nat" where
  "pipe_weight Dialing = 4"
| "pipe_weight (Piping u d) = 1 + (if u then 0 else 1) + (if d then 0 else 1)"
| "pipe_weight PipeEnded = 0"

fun stopper_weight :: "stopper \<Rightarrow> nat" where
  "stopper_weight StopCalled = 2"
| "stopper_weight StopWaiting = 1"
| "stopper_weight StopReturned = 0"

definition run_weight :: "proxy_run \<Rightarrow> nat" where
  "run_weight r = sum_list (map pipe_weight (pipes r)) + sum_list (map stopper_weight (stoppers r))
     + (if serve r = Accepting then 1 else 0)"

lemma sum_list_update_less:
  "i < length xs \<Longrightarrow> f y < f (xs ! i) \<Longrightarrow>
   sum_list (map f (xs[i := y])) < sum_list (map (f :: 'a \<Rightarrow> nat) xs)"
  by (induction xs arbitrary: i) (auto split: nat.splits)

lemma pipe_step_weight: "pipe_step p p' \<Longrightarrow> pipe_weight p' < pipe_weight p"
  by (induction rule: pipe_step.induct) auto

text \<open>A step that is not a new call of \<open>Stop\<close>.\<close>

definition inner_step :: "proxy_run \<Rightarrow> proxy_run \<Rightarrow> bool" where
  "inner_step r r' \<longleftrightarrow> run_step r r' \<and> length (stoppers r') = length (stoppers r)"

lemma inner_step_weight:
  "run_step r r' \<Longrightarrow> length (stoppers r') = length (stoppers r) \<Longrightarrow> run_inv r \<Longrightarrow> quit r \<Longrightarrow>
   run_weight r' < run_weight r \<and> quit r'"
proof (induction rule: run_step.induct)
  case (pipe i r p)
  then show ?case
    using sum_list_update_less [of i "pipes r" pipe_weight p] pipe_step_weight by (simp add: run_weight_def)
next
  case (stop_again j r)
  then show ?case
    using sum_list_update_less [of j "stoppers r" stopper_weight StopWaiting] by (simp add: run_weight_def)
next
  case (stop_returns j r)
  then show ?case
    using sum_list_update_less [of j "stoppers r" stopper_weight StopReturned] by (simp add: run_weight_def)
qed (auto simp: run_inv_def run_weight_def)

lemma inner_progress:
  assumes "run_inv r" and "quit r" and "\<nexists>r'. inner_step r r'"
  shows "set (stoppers r) \<subseteq> {StopReturned} \<and> set (pipes r) \<subseteq> {PipeEnded}"
proof -
  have served: "serve r = ServeReturned"
    using assms(3) accept_fails [of r] by (cases "serve r") (auto simp: inner_step_def)
  have "s = StopReturned" if "s \<in> set (stoppers r)" for s
  proof -
    from that obtain j where j: "j < length (stoppers r)" "stoppers r ! j = s" by (auto simp: in_set_conv_nth)
    then show ?thesis
      using assms(2,3) stop_again [of j r] stop_returns [of j r] served
      by (cases s) (auto simp: inner_step_def)
  qed
  moreover have "p = PipeEnded" if "p \<in> set (pipes r)" for p
  proof -
    from that obtain i where i: "i < length (pipes r)" "pipes r ! i = p" by (auto simp: in_set_conv_nth)
    have "\<not> pipe_step p p'" for p'
    proof
      assume "pipe_step p p'"
      then have "inner_step r (r\<lparr>pipes := (pipes r)[i := p']\<rparr>)"
        using pipe [OF i(1)] i(2) by (simp add: inner_step_def)
      with assms(3) show False by blast
    qed
    then show ?thesis by (cases p) auto
  qed
  ultimately show ?thesis by blast
qed

text \<open>
  C33: \<open>Stop\<close> terminates. From the moment the first caller has closed \<open>quit\<close>, the proxy can only take
  finitely many steps (apart from new calls of \<open>Stop\<close>), and where it can take none, every caller of
  \<open>Stop\<close> has returned and every pipe has closed its connections.
\<close>

theorem stop_terminates:
  assumes "run_reach run_start r" and "quit r"
  shows "(\<nexists>f. f 0 = r \<and> (\<forall>i. inner_step (f i) (f (Suc i))))
    \<and> (\<forall>r'. run_reach r r' \<longrightarrow> (\<nexists>r''. inner_step r' r'') \<longrightarrow>
          set (stoppers r') \<subseteq> {StopReturned} \<and> set (pipes r') \<subseteq> {PipeEnded})"
proof (intro conjI allI impI notI)
  assume "\<exists>f. f 0 = r \<and> (\<forall>i. inner_step (f i) (f (Suc i)))"
  then obtain f where f: "f 0 = r" "\<And>i. inner_step (f i) (f (Suc i))" by blast
  have inv: "run_inv (f i) \<and> quit (f i)" for i
  proof (induction i)
    case 0
    then show ?case using f(1) reachable_inv [OF assms(1)] assms(2) by simp
  next
    case (Suc i)
    then show ?case using f(2) [of i] run_inv_step inner_step_weight by (auto simp: inner_step_def)
  qed
  have down: "run_weight (f (Suc i)) < run_weight (f i)" for i
    using f(2) [of i] inv [of i] inner_step_weight by (auto simp: inner_step_def)
  have "run_weight (f i) + i \<le> run_weight (f 0)" for i
  proof (induction i)
    case (Suc i)
    with down [of i] show ?case by simp
  qed simp
  from this [of "Suc (run_weight (f 0))"] show False by simp
next
  fix r' assume r': "run_reach r r'" "\<nexists>r''. inner_step r' r''"
  have "run_inv r' \<and> quit r'"
    using r'(1) reachable_inv [OF assms(1)] assms(2)
  proof (induction rule: run_reach.induct)
    case (reach_step r r' r'')
    have "quit r''" using reach_step by (auto elim!: run_stepE)
    with reach_step show ?case using run_inv_step by blast
  qed simp
  with inner_progress r'(2) show "set (stoppers r') \<subseteq> {StopReturned}" "set (pipes r') \<subseteq> {PipeEnded}" by blast+
qed

lemma quit_reach: "run_reach run_start (run_start\<lparr>quit := True, listening := False, stoppers := [StopWaiting]\<rparr>)"
proof -
  let ?r1 = "run_start\<lparr>stoppers := [StopCalled]\<rparr>"
  have "run_step run_start ?r1" using stop_call [of run_start] by (simp add: run_start_def)
  moreover have "run_step ?r1 (run_start\<lparr>quit := True, listening := False, stoppers := [StopWaiting]\<rparr>)"
    using stop_first [of 0 ?r1] by (simp add: run_start_def)
  ultimately show ?thesis by (meson reach_refl reach_step)
qed

theorem stop_terminates_witness:
  "\<nexists>f. f 0 = run_start\<lparr>quit := True, listening := False, stoppers := [StopWaiting]\<rparr>
      \<and> (\<forall>i. inner_step (f i) (f (Suc i)))"
  using stop_terminates [OF quit_reach] by simp

section \<open>Two ways a proxy is left half working\<close>

text \<open>What is after the accept loop has returned: only a caller of \<open>Stop\<close> closes the listener.\<close>

lemma run_stop_needed: "run_reach run_start r \<Longrightarrow> quit r \<Longrightarrow> \<exists>s \<in> set (stoppers r). s \<noteq> StopCalled"
proof (induction run_start r rule: run_reach.induct)
  case reach_refl
  then show ?case by (simp add: run_start_def)
next
  case (reach_step r' r'')
  from reach_step(3) show ?case
  proof (cases rule: run_step.cases)
    case (stop_first j)
    then have "StopWaiting \<in> set (stoppers r'')" by (simp add: set_update_memI)
    then show ?thesis by blast
  next
    case (stop_again j)
    then have "StopWaiting \<in> set (stoppers r'')" by (simp add: set_update_memI)
    then show ?thesis by blast
  next
    case (stop_returns j)
    then have "StopReturned \<in> set (stoppers r'')" by (simp add: set_update_memI)
    then show ?thesis by blast
  qed (use reach_step in auto)
qed

lemma serve_returned_keeps:
  "run_reach r r' \<Longrightarrow> serve r = ServeReturned \<Longrightarrow> serve r' = ServeReturned \<and> length (pipes r') = length (pipes r)"
proof (induction rule: run_reach.induct)
  case (reach_step r r' r'')
  from reach_step.hyps(2) reach_step.IH [OF reach_step.prems] show ?case by (auto elim: run_stepE)
qed simp

text \<open>
  C34: an accept error disables a proxy without releasing its address. A proxy that accepts and was not
  stopped, whatever happened to it before, may see \<open>Accept\<close> fail; after that step no connection is
  accepted in any continuation of the run, and the listener stays open until a caller of \<open>Stop\<close> closes
  it.
\<close>

theorem accept_error_leaves_listener:
  assumes "run_reach run_start r" and "serve r = Accepting" and "\<not> quit r"
  shows "(\<exists>r1. run_step r r1 \<and> serve r1 = ServeReturned)
    \<and> (\<forall>r1 r'. run_step r r1 \<and> serve r1 = ServeReturned \<and> run_reach r1 r' \<longrightarrow>
          serve r' = ServeReturned \<and> length (pipes r') = length (pipes r)
          \<and> (listening r' \<or> (\<exists>s \<in> set (stoppers r'). s \<noteq> StopCalled)))"
proof (intro conjI allI impI)
  show "\<exists>r1. run_step r r1 \<and> serve r1 = ServeReturned"
    using accept_fails [OF assms(2)] by (intro exI conjI) auto
next
  fix r1 r' assume s: "run_step r r1 \<and> serve r1 = ServeReturned \<and> run_reach r1 r'"
  then have "length (pipes r1) = length (pipes r)" using assms(2) by (auto elim: run_stepE)
  with s serve_returned_keeps
  show "serve r' = ServeReturned" "length (pipes r') = length (pipes r)" by metis+
  have "run_reach run_start r'" using s assms(1) reach_step run_reach_trans by blast
  with run_stop_needed reachable_inv
  show "listening r' \<or> (\<exists>s \<in> set (stoppers r'). s \<noteq> StopCalled)" by (auto simp: run_inv_def)
qed

text \<open>For the proxy just started: the error is its first event; a caller of \<open>Stop\<close> then comes.\<close>

theorem accept_error_leaves_listener_witness:
  "let r1 = run_start\<lparr>serve := ServeReturned\<rparr>; r2 = r1\<lparr>stoppers := [StopCalled]\<rparr> in
   run_step run_start r1 \<and> run_step r1 r2 \<and> serve r2 = ServeReturned \<and> listening r2 \<and> length (pipes r2) = 0"
proof -
  let ?r1 = "run_start\<lparr>serve := ServeReturned\<rparr>"
  let ?r2 = "?r1\<lparr>stoppers := [StopCalled]\<rparr>"
  have st: "run_step run_start ?r1" by (rule accept_fails) (simp add: run_start_def)
  have st2: "run_step ?r1 ?r2" using stop_call [of ?r1] by (simp add: run_start_def)
  have r: "serve run_start = Accepting" "\<not> quit run_start" by (simp_all add: run_start_def)
  have "serve ?r1 = ServeReturned" by simp
  with accept_error_leaves_listener [OF reach_refl r, THEN conjunct2, rule_format, of ?r1 ?r2]
    st reach_step [OF reach_refl st2]
  have "serve ?r2 = ServeReturned \<and> length (pipes ?r2) = length (pipes run_start)
      \<and> (listening ?r2 \<or> (\<exists>s \<in> set (stoppers ?r2). s \<noteq> StopCalled))" by blast
  with st st2 show ?thesis by (simp add: run_start_def Let_def)
qed

text \<open>
  A pipe does not pass on the end of a stream. As long as one of the two copies of a dialled pipe
  still runs, both connections stay open, also the upstream one after the client has closed: the
  service behind the proxy does not see that its client is gone.
\<close>

theorem half_closed_pipe_stays_open:
  assumes "run_step r r'" and "i < length (pipes r)" and "pipes r ! i = Piping u d" and "\<not> (u \<and> d)"
  shows "client_open (pipes r' ! i) \<and> upstream_open (pipes r' ! i)"
  using assms by (induction rule: run_step.induct) (auto simp: nth_append nth_list_update)

theorem half_closed_pipe_stays_open_witness:
  "\<exists>r'. run_step (run_start\<lparr>pipes := [Piping True False]\<rparr>) r' \<and> stoppers r' = [StopCalled]
     \<and> client_open (pipes r' ! 0) \<and> upstream_open (pipes r' ! 0)"
proof -
  let ?r = "run_start\<lparr>pipes := [Piping True False]\<rparr>"
  have s: "run_step ?r (?r\<lparr>stoppers := stoppers ?r @ [StopCalled]\<rparr>)" by (rule run_step.stop_call)
  have "stoppers ?r @ [StopCalled] = [StopCalled]" by (simp add: run_start_def)
  with s half_closed_pipe_stays_open [OF s, of 0 True False] show ?thesis
    by (intro exI [of _ "?r\<lparr>stoppers := stoppers ?r @ [StopCalled]\<rparr>"]) simp
qed

section \<open>Starting and stopping in sequence\<close>

text \<open>
  A proxy that started listens on its address, which nobody had bound, with a valid port; stopping
  it gives back exactly that address, and stopping it again changes nothing.
\<close>

theorem proxy_start_stop:
  assumes "proxy_start e p w = ((None, p'), w')" and "\<not> quit_closed p"
  shows "(\<exists>a. bound w' = a # bound w \<and> fst a = bind_ip p \<and> a \<notin> set (bound w))
    \<and> 0 \<le> listen_port p \<and> listen_port p \<le> 65535
    \<and> bound (snd (proxy_stop p' w')) = bound w \<and> quit_closed (fst (proxy_stop p' w'))
    \<and> proxy_stop (fst (proxy_stop p' w')) w'' = (fst (proxy_stop p' w'), w'')"
  using proxy_start_ok [OF assms(1)] assms(2) by (auto simp: proxy_stop_def)

theorem proxy_start_stop_witness:
  "\<exists>p' w'. proxy_start (calm_env Linux) (new_proxy ''127.0.1.1'' 8080 15000) (dir_world ''/d'') = ((None, p'), w')
     \<and> bound (snd (proxy_stop p' w')) = []"
proof -
  obtain p' w' where st: "proxy_start (calm_env Linux) (new_proxy ''127.0.1.1'' 8080 15000) (dir_world ''/d'') = ((None, p'), w')"
    by (simp add: proxy_start_def listen_tcp_def new_proxy_def calm_env_def dir_world_def Let_def)
  have "\<not> quit_closed (new_proxy ''127.0.1.1'' 8080 15000)" by (simp add: new_proxy_def)
  from proxy_start_stop [OF st this] st show ?thesis by (auto simp: dir_world_def)
qed

end
