(* ===== verification/Ipc.thy ===== *)
theory Ipc
  imports Os_World Key_Store
begin

text \<open>
  \<open>internal/ipc\<close>: the daemon's state as the command line sees it. The store is a map from local
  ports to entries; the server puts it behind a Unix socket in a private directory; the client reads
  it back. The JSON codec and the HTTP transport are the libraries' and come in as parameters.
\<close>

record entry =
  e_port :: int
  e_remote_host :: string
  e_remote_port :: int
  e_resource :: string
  e_ip :: string
  e_proxy_port :: int
  e_domain :: string
  e_tool :: string
  e_tls :: bool
  e_pid :: int
  e_since :: int
  e_cmdline :: string

record state_store =
  entries :: "int \<Rightarrow> entry option"

definition new_state_store :: state_store where
  "new_state_store = \<lparr>entries = Map.empty\<rparr>"

definition store_set :: "entry \<Rightarrow> state_store \<Rightarrow> state_store" where
  "store_set en s = s\<lparr>entries := (entries s)(e_port en \<mapsto> en)\<rparr>"

definition store_delete :: "int \<Rightarrow> state_store \<Rightarrow> state_store" where
  "store_delete port s = s\<lparr>entries := (entries s)(port := None)\<rparr>"

text \<open>\<open>All\<close> ranges over the map, in the order given.\<close>

definition store_all :: "state_store \<Rightarrow> int list \<Rightarrow> entry list" where
  "store_all s order = map_values (entries s) order"

section \<open>The server\<close>

definition data_dir :: "os_env \<Rightarrow> string" where
  "data_dir e =
     (let dir = env_var e ''XDG_RUNTIME_DIR'' in
      if dir \<noteq> '''' then join_path [dir, ''local-auto-domain'']
      else
        let home = (case user_home_dir e of Some h \<Rightarrow> h | None \<Rightarrow> '''')
        in join_path [home, ''.local'', ''share'', ''local-auto-domain''])"

definition socket_path :: "os_env \<Rightarrow> string" where
  "socket_path e = join_path [data_dir e, ''daemon.sock'']"

record server =
  sock_path :: string
  srv_listener :: bool

definition new_server :: "os_env \<Rightarrow> server" where
  "new_server e = \<lparr>sock_path = socket_path e, srv_listener = False\<rparr>"

text \<open>
  Listening on a Unix socket creates its file, with the mode the umask 022 leaves, and fails when
  there is a file already. Closing the listener unlinks the file.
\<close>

definition listen_unix :: "os_env \<Rightarrow> string \<Rightarrow> world \<Rightarrow> os_err option \<times> world" where
  "listen_unix e p w =
     (case fault_at e (tick w) OpListen p of
        Fine \<Rightarrow>
          (if node_at w p \<noteq> None then (Some EOther, ticked w)
           else (None, (ticked w)\<lparr>files := AList.update p (SockNode mode_755) (files w)\<rparr>))
      | _ \<Rightarrow> (Some EOther, ticked w))"

definition unlink_socket :: "string \<Rightarrow> world \<Rightarrow> world" where
  "unlink_socket p w = w\<lparr>files := AList.delete p (files w)\<rparr>"

definition server_start :: "os_env \<Rightarrow> server \<Rightarrow> world \<Rightarrow> (os_err option \<times> server) \<times> world" where
  "server_start e s w =
     (let dir = dir_name (sock_path s) in
      case mkdir_all e dir mode_700 w of
        (Some er, w1) \<Rightarrow> ((Some er, s), w1)
      | (None, w1) \<Rightarrow>
          (case chmod_path e dir mode_700 w1 of
             (Some er, w2) \<Rightarrow> ((Some er, s), w2)
           | (None, w2) \<Rightarrow>
               (case remove_file e (sock_path s) w2 of
                  (_, w3) \<Rightarrow>
                    (case listen_unix e (sock_path s) w3 of
                       (Some er, w4) \<Rightarrow> ((Some er, s), w4)
                     | (None, w4) \<Rightarrow>
                         (case chmod_path e (sock_path s) mode_600 w4 of
                            (Some er, w5) \<Rightarrow> ((Some er, s), unlink_socket (sock_path s) w5)
                          | (None, w5) \<Rightarrow> ((None, s\<lparr>srv_listener := True\<rparr>), w5))))))"

definition server_stop :: "os_env \<Rightarrow> server \<Rightarrow> world \<Rightarrow> world" where
  "server_stop e s w =
     (let w1 = (if srv_listener s then unlink_socket (sock_path s) w else w)
      in snd (remove_file e (sock_path s) w1))"

section \<open>The client\<close>

record json =
  encode_entries :: "entry list \<Rightarrow> string"
  decode_entries :: "string \<Rightarrow> entry list \<times> string option"

record response =
  status_code :: int
  status_text :: string
  body :: string

datatype client_error = NotReachable string | BadStatus string | BadBody string

definition handle_state :: "json \<Rightarrow> state_store \<Rightarrow> int list \<Rightarrow> response" where
  "handle_state j s order =
     \<lparr>status_code = 200, status_text = ''200 OK'', body = encode_entries j (store_all s order)\<rparr>"

text \<open>The multiplexer of \<open>Start\<close>: one path, and the library's answer for all others.\<close>

definition not_found :: response where
  "not_found = \<lparr>status_code = 404, status_text = ''404 Not Found'', body = ''404 page not found'' @ [CHR 0x0A]\<rparr>"

definition serve_request :: "json \<Rightarrow> state_store \<Rightarrow> int list \<Rightarrow> string \<Rightarrow> response" where
  "serve_request j s order path = (if path = ''/state'' then handle_state j s order else not_found)"

text \<open>
  The client: where it connects to and how long it waits, in nanoseconds. What comes of a \<open>GET\<close> is the
  HTTP library's, a function of the moment, the client and the address.
\<close>

record client =
  client_socket :: string
  dial_timeout :: int
  client_timeout :: int

definition new_client :: "os_env \<Rightarrow> client" where
  "new_client e = \<lparr>client_socket = socket_path e, dial_timeout = 2000000000, client_timeout = 5000000000\<rparr>"

type_synonym transport = "nat \<Rightarrow> client \<Rightarrow> string \<Rightarrow> string + response"

definition http_get :: "transport \<Rightarrow> client \<Rightarrow> string \<Rightarrow> world \<Rightarrow> (string + response) \<times> world" where
  "http_get tr c url w = (tr (tick w) c url, ticked w)"

text \<open>
  \<open>GetState\<close>. Its last line returns the entries beside the call that fills them in, whose order Go
  leaves open; the model has the order the compiler chooses, the call first.
\<close>

definition read_reply :: "json \<Rightarrow> string + response \<Rightarrow> entry list \<times> client_error option" where
  "read_reply j r =
     (case r of
        Inl er \<Rightarrow> ([], Some (NotReachable er))
      | Inr resp \<Rightarrow>
          if status_code resp < 200 \<or> 300 \<le> status_code resp
          then ([], Some (BadStatus (status_text resp)))
          else (case decode_entries j (body resp) of (es, er) \<Rightarrow> (es, map_option BadBody er)))"

definition get_state :: "json \<Rightarrow> transport \<Rightarrow> client \<Rightarrow> world \<Rightarrow> (entry list \<times> client_error option) \<times> world" where
  "get_state j tr c w = (case http_get tr c ''http://local/state'' w of (r, w1) \<Rightarrow> (read_reply j r, w1))"

definition is_daemon_running :: "json \<Rightarrow> transport \<Rightarrow> client \<Rightarrow> world \<Rightarrow> bool \<times> world" where
  "is_daemon_running j tr c w = (case get_state j tr c w of ((_, er), w1) \<Rightarrow> (er = None, w1))"

text \<open>
  What a transport is relied on for: a client that dials the socket a server listens on gets the
  server's answer for the path it asks for.
\<close>

definition connected :: "transport \<Rightarrow> server \<Rightarrow> (string \<Rightarrow> response) \<Rightarrow> bool" where
  "connected tr srv reply \<longleftrightarrow>
     (\<forall>t c path. client_socket c = sock_path srv \<longrightarrow> tr t c (''http://local'' @ path) = Inr (reply path))"

definition local_transport :: "server \<Rightarrow> (string \<Rightarrow> response) \<Rightarrow> transport" where
  "local_transport srv reply =
     (\<lambda>_ c url. if client_socket c = sock_path srv then Inr (reply (drop 12 url)) else Inl ''no such file'')"

lemma local_transport_connected: "connected (local_transport srv reply) srv reply"
  by (simp add: connected_def local_transport_def)

lemma get_state_connected:
  assumes "connected tr srv (serve_request j s order)" "sock_path srv = client_socket c"
    and "decode_entries j (encode_entries j (store_all s order)) = (store_all s order, None)"
  shows "get_state j tr c w = ((store_all s order, None), ticked w)"
proof -
  have "tr (tick w) c (''http://local'' @ ''/state'') = Inr (serve_request j s order ''/state'')"
    using assms(1,2) unfolding connected_def by simp
  then show ?thesis
    using assms(3) by (simp add: get_state_def http_get_def serve_request_def read_reply_def handle_state_def)
qed

section \<open>The store is a key store\<close>

text \<open>A store that is only written by \<open>Set\<close> files every entry under its own port.\<close>

definition store_wf :: "state_store \<Rightarrow> bool" where
  "store_wf s \<longleftrightarrow> finite (dom (entries s)) \<and> (\<forall>p en. entries s p = Some en \<longrightarrow> e_port en = p)"

definition store_put :: "int \<Rightarrow> entry \<Rightarrow> state_store \<Rightarrow> state_store" where
  "store_put port en s = s\<lparr>entries := (entries s)(port \<mapsto> en)\<rparr>"

lemma store_set_put: "store_set en s = store_put (e_port en) en s"
  by (simp add: store_put_def store_set_def)

lemma store_wf_new: "store_wf new_state_store"
  by (simp add: store_wf_def new_state_store_def)

interpretation lad_store: key_store store_put store_delete entries "\<lambda>s. finite (dom (entries s))"
  by unfold_locales (auto simp: store_put_def store_delete_def)

lemma store_wf_set: "store_wf s \<Longrightarrow> store_wf (store_set en s)"
  by (auto simp: store_wf_def store_set_def)

lemma store_wf_delete: "store_wf s \<Longrightarrow> store_wf (store_delete p s)"
  by (auto simp: store_wf_def store_delete_def)

lemma store_all_set: "iteration_of (entries s) order \<Longrightarrow> set (store_all s order) = Map.ran (entries s)"
  by (simp add: store_all_def set_map_values iteration_of_def)

lemma store_all_ports:
  "store_wf s \<Longrightarrow> iteration_of (entries s) order \<Longrightarrow> map e_port (store_all s order) = order"
proof -
  assume wf: "store_wf s" and it: "iteration_of (entries s) order"
  have "map e_port (map_values (entries s) ks) = ks" if "set ks \<subseteq> dom (entries s)" for ks
    using that wf by (induction ks) (auto simp: store_wf_def)
  with it show ?thesis by (simp add: store_all_def iteration_of_def)
qed

section \<open>The socket and its directory\<close>

definition comps_size :: "string list \<Rightarrow> nat" where
  "comps_size xs = sum_list (map (\<lambda>x. length x + 1) xs)"

lemma clean_comps_size: "comps_size (clean_comps r xs st) \<le> comps_size xs + comps_size st"
  by (induction r xs st rule: clean_comps.induct)
     (auto simp: comps_size_def rev_map [symmetric] sum_list_rev split: list.splits)

lemma join_size: "length (join [c] xs) = comps_size xs - 1"
  by (induction xs rule: induct_list012) (auto simp: comps_size_def)

lemma split_on_size: "comps_size (split_on c s) = length s + 1"
proof (induction s)
  case (Cons a s)
  then show ?case by (cases "split_on c s") (auto simp: comps_size_def)
qed (simp add: comps_size_def)

lemma clean_path_length: "p \<noteq> '''' \<Longrightarrow> length (clean_path p) \<le> length p"
proof -
  assume p: "p \<noteq> ''''"
  let ?r = "has_prefix p ''/''"
  let ?c = "clean_comps ?r (split_on CHR ''/'' p) []"
  have c: "comps_size ?c \<le> length p + 1"
    using clean_comps_size [of ?r "split_on CHR ''/'' p" "[]"] split_on_size [of "CHR ''/''" p]
    by (simp add: comps_size_def)
  show ?thesis
  proof (cases ?r)
    case False
    have "length (join ''/'' ?c) \<le> length p" using c join_size [of "CHR ''/''" ?c] by simp
    with p False show ?thesis by (cases p) (auto simp: clean_path_def Let_def)
  next
    case True
    then obtain q where q: "p = CHR ''/'' # q" by (cases p) (auto simp: has_prefix_def)
    have "?c = clean_comps True (split_on CHR ''/'' q) []" using True by (simp add: q)
    then have "comps_size ?c \<le> length p"
      using clean_comps_size [of True "split_on CHR ''/'' q" "[]"] split_on_size [of "CHR ''/''" q]
      by (simp add: comps_size_def q)
    then have "length (join ''/'' ?c) \<le> length p - 1" using join_size [of "CHR ''/''" ?c] by simp
    with True q show ?thesis by (simp add: clean_path_def Let_def)
  qed
qed

text \<open>A path whose last element is a name lies strictly below its directory.\<close>

lemma dir_name_not_self: "1 < length (base_name p) \<Longrightarrow> dir_name p \<noteq> p"
proof
  assume b: "1 < length (base_name p)" and eq: "dir_name p = p"
  let ?d = "rev (dropWhile (\<lambda>c. c \<noteq> CHR ''/'') (rev p))"
  have p: "p = ?d @ base_name p"
    unfolding base_name_def by (metis rev_append rev_rev_ident takeWhile_dropWhile_id)
  show False
  proof (cases "?d = ''''")
    case True
    have "dir_name p = ''.''" unfolding dir_name_def True by (simp add: clean_path_def has_prefix_def)
    then have "p = ''.''" using eq by metis
    with b show False by (simp add: base_name_def)
  next
    case False
    from clean_path_length [OF False] have "length p \<le> length ?d" using eq by (simp add: dir_name_def)
    moreover have "length p = length ?d + length (base_name p)" using p by (metis length_append)
    ultimately show False using b by simp
  qed
qed

lemma socket_path_base: "base_name (socket_path e) = ''daemon.sock''"
  unfolding socket_path_def by (rule base_name_join) (simp add: plain_name_def)

lemma socket_not_dir: "dir_name (socket_path e) \<noteq> socket_path e"
  by (rule dir_name_not_self) (simp add: socket_path_base)

lemma chmod_result:
  "chmod_path e p m w = (None, w') \<Longrightarrow>
   \<exists>n. node_at w p = Some n \<and> w' = (ticked w)\<lparr>files := AList.update p (set_mode m n) (files w)\<rparr>"
  by (auto simp: chmod_path_def split: fault.splits option.splits)

lemma chmod_node:
  "chmod_path e p m w = (r, w') \<Longrightarrow> node_at w' q = node_at w q \<or>
     q = p \<and> node_at w' q = map_option (set_mode m) (node_at w q)"
  by (auto simp: chmod_path_def split: fault.splits option.splits if_splits)

lemma listen_result:
  "listen_unix e p w = (None, w') \<Longrightarrow>
   node_at w p = None \<and> w' = (ticked w)\<lparr>files := AList.update p (SockNode mode_755) (files w)\<rparr>"
  by (auto simp: listen_unix_def split: fault.splits if_splits)

lemma listen_fails: "listen_unix e p w = (Some er, w') \<Longrightarrow> w' = ticked w"
  by (auto simp: listen_unix_def split: fault.splits if_splits)

lemma server_start_ok:
  assumes "server_start e s w = ((None, s'), w')" and ne: "dir_name (sock_path s) \<noteq> sock_path s"
  shows "s' = s\<lparr>srv_listener := True\<rparr>" and "node_at w' (dir_name (sock_path s)) = Some (DirNode mode_700)"
    and "node_at w' (sock_path s) = Some (SockNode mode_600)"
proof -
  let ?d = "dir_name (sock_path s)" and ?p = "sock_path s"
  from assms(1) obtain w1 w2 r3 w3 w4 where
    w1: "mkdir_all e ?d mode_700 w = (None, w1)" and w2: "chmod_path e ?d mode_700 w1 = (None, w2)"
    and w3: "remove_file e ?p w2 = (r3, w3)" and w4: "listen_unix e ?p w3 = (None, w4)"
    and w5: "chmod_path e ?p mode_600 w4 = (None, w')" and s': "s' = s\<lparr>srv_listener := True\<rparr>"
    by (auto simp: server_start_def Let_def split: prod.splits option.splits)
  show "s' = s\<lparr>srv_listener := True\<rparr>" by (fact s')
  obtain m where "node_at w1 ?d = Some (DirNode m)" using mkdir_all_dir [OF w1] by blast
  then have "node_at w2 ?d = Some (DirNode mode_700)" using chmod_result [OF w2] by auto
  then have "node_at w3 ?d = Some (DirNode mode_700)" using remove_file_frame [OF ne, of e w2] w3 by simp
  then show "node_at w' ?d = Some (DirNode mode_700)"
    using ne listen_result [OF w4] chmod_result [OF w5] by auto
  show "node_at w' ?p = Some (SockNode mode_600)"
    using listen_result [OF w4] chmod_result [OF w5] by auto
qed

text \<open>
  C23: a server that started is reachable only by its user: its socket has mode 0600 and lies in a
  directory of mode 0700, also when the directory was there before with a wider mode.
\<close>

theorem server_start_private:
  assumes "server_start e (new_server e) w = ((None, s'), w')"
  shows "node_at w' (dir_name (socket_path e)) = Some (DirNode mode_700)
    \<and> node_at w' (socket_path e) = Some (SockNode mode_600)"
  using server_start_ok [OF assms] socket_not_dir by (simp add: new_server_def)

definition runtime_env :: os_env where
  "runtime_env = (calm_env Linux)\<lparr>env_var := \<lambda>v. if v = ''XDG_RUNTIME_DIR'' then ''/r'' else ''''\<rparr>"

lemma runtime_paths:
  "socket_path runtime_env = ''/r/local-auto-domain/daemon.sock''"
  "dir_name ''/r/local-auto-domain/daemon.sock'' = ''/r/local-auto-domain''"
  by (simp_all add: socket_path_def data_dir_def runtime_env_def calm_env_def join_path_def clean_path_def
      has_prefix_def dir_name_def)

text \<open>An upgrade: the directory exists with mode 0755, and an old socket is in the way.\<close>

definition old_data_world :: world where
  "old_data_world = (dir_world ''/r'')\<lparr>files := [(''/r'', DirNode mode_755),
     (''/r/local-auto-domain'', DirNode mode_755), (''/r/local-auto-domain/daemon.sock'', SockNode mode_755)]\<rparr>"

lemma server_start_runs:
  assumes fine: "all_fine e" and ready: "dir_ready w (dir_name (sock_path s))"
    and ne: "dir_name (sock_path s) \<noteq> sock_path s"
    and old: "node_at w (sock_path s) = None \<or> node_at w (sock_path s) = Some (SockNode m)"
  shows "\<exists>s' w'. server_start e s w = ((None, s'), w')"
proof -
  let ?d = "dir_name (sock_path s)" and ?p = "sock_path s"
  from ready obtain k where d: "node_at w ?d = Some (DirNode k)"
    by (auto simp: dir_ready_def split: option.splits node.splits)
  let ?w2 = "(ticked w)\<lparr>files := AList.update ?d (DirNode mode_700) (files w)\<rparr>"
  have w2: "chmod_path e ?d mode_700 w = (None, ?w2)"
    using fine d by (simp add: chmod_path_def all_fine_def)
  obtain r w3 where w3: "remove_file e ?p ?w2 = (r, w3)" by fastforce
  have n3: "node_at w3 ?p = None"
    using w3 fine old ne by (auto simp: remove_file_def all_fine_def split: option.splits node.splits if_splits)
  let ?w4 = "(ticked w3)\<lparr>files := AList.update ?p (SockNode mode_755) (files w3)\<rparr>"
  have w4: "listen_unix e ?p w3 = (None, ?w4)" using n3 fine by (simp add: listen_unix_def all_fine_def)
  have "\<exists>w5. chmod_path e ?p mode_600 ?w4 = (None, w5)" using fine by (simp add: chmod_path_def all_fine_def)
  then show ?thesis
    using mkdir_all_ready [OF ready] w2 w3 w4 by (auto simp: server_start_def Let_def)
qed

lemma old_data_start: "\<exists>s' w'. server_start runtime_env (new_server runtime_env) old_data_world = ((None, s'), w')"
proof (rule server_start_runs)
  show "all_fine runtime_env" by (simp add: runtime_env_def all_fine_def calm_env_def)
  have "ancestors ''/r/local-auto-domain'' = [''/r'']"
    by (simp add: ancestors_def upt_rec numeral_eq_Suc)
  then show "dir_ready old_data_world (dir_name (sock_path (new_server runtime_env)))"
    by (simp add: new_server_def runtime_paths dir_ready_def) (simp add: old_data_world_def)
  show "dir_name (sock_path (new_server runtime_env)) \<noteq> sock_path (new_server runtime_env)"
    by (simp add: new_server_def socket_not_dir)
  show "node_at old_data_world (sock_path (new_server runtime_env)) = None \<or>
      node_at old_data_world (sock_path (new_server runtime_env)) = Some (SockNode mode_755)"
    by (simp add: new_server_def runtime_paths) (simp add: old_data_world_def)
qed

theorem server_start_private_witness:
  "\<exists>w'. node_at w' (dir_name (socket_path runtime_env)) = Some (DirNode mode_700)
     \<and> node_at w' (socket_path runtime_env) = Some (SockNode mode_600)"
  using old_data_start server_start_private by blast

text \<open>
  C24: a start that fails never leaves an open socket behind: whatever failed, a socket at the path
  afterwards was there before the call. So no client meets a socket whose mode was not restricted.
\<close>

theorem server_start_failure_clean:
  assumes "server_start e s w = ((Some er, s'), w')" and "dir_name (sock_path s) \<noteq> sock_path s"
    and "node_at w' (sock_path s) = Some (SockNode m)"
  shows "node_at w (sock_path s) = Some (SockNode m) \<and> s' = s"
proof -
  let ?d = "dir_name (sock_path s)" and ?p = "sock_path s"
  have mk: "node_at w1 ?p = Some (SockNode m) \<Longrightarrow> node_at w ?p = Some (SockNode m)"
    if "mkdir_all e ?d mode_700 w = (r, w1)" for r w1
  proof -
    have "mkdir_each e mode ps v = (r, v') \<Longrightarrow> node_at v' q = Some (SockNode m) \<Longrightarrow> node_at v q = Some (SockNode m)"
      for ps v v' q r mode
    proof (induction e mode ps v rule: mkdir_each.induct)
      case (2 e mode p ps w)
      then show ?case by (cases "q = p") (auto split: option.splits node.splits fault.splits)
    qed auto
    then show "node_at w1 ?p = Some (SockNode m) \<Longrightarrow> ?thesis" using that unfolding mkdir_all_def by blast
  qed
  have ch: "node_at v' ?p = node_at v ?p" if "chmod_path e ?d mode_700 v = (r, v')" for v v' r
    using chmod_node [OF that, of ?p] assms(2) by auto
  have rm: "node_at v' ?p = Some (SockNode m) \<Longrightarrow> node_at v ?p = Some (SockNode m)"
    if "remove_file e ?p v = (r, v')" for v v' r
    using that by (auto simp: remove_file_def split: fault.splits option.splits node.splits if_splits)
  show ?thesis
    using assms(1,3) mk ch rm
    by (auto simp: server_start_def Let_def unlink_socket_def dest!: listen_fails
        split: prod.splits option.splits) metis
qed

theorem server_start_failure_clean_witness:
  "let e = (calm_env Linux)\<lparr>fault_at := \<lambda>_ op _. if op = OpChmod then Refused else Fine\<rparr>;
       s = \<lparr>sock_path = ''/r/s.sock'', srv_listener = False\<rparr>;
       w = (dir_world ''/r'')\<lparr>files := [(''/r'', DirNode mode_755), (''/r/s.sock'', SockNode mode_755)]\<rparr>
   in \<exists>er w'. server_start e s w = ((Some er, s), w') \<and> node_at w' ''/r/s.sock'' = Some (SockNode mode_755)
        \<and> node_at w ''/r/s.sock'' = Some (SockNode mode_755)"
proof -
  let ?e = "(calm_env Linux)\<lparr>fault_at := \<lambda>_ op _. if op = OpChmod then Refused else Fine\<rparr>"
  let ?s = "\<lparr>sock_path = ''/r/s.sock'', srv_listener = False\<rparr>"
  let ?w = "(dir_world ''/r'')\<lparr>files := [(''/r'', DirNode mode_755), (''/r/s.sock'', SockNode mode_755)]\<rparr>"
  have d: "dir_name ''/r/s.sock'' = ''/r''" by (simp add: dir_name_def clean_path_def has_prefix_def)
  have run: "server_start ?e ?s ?w = ((Some EOther, ?s), ticked ?w)"
    by (simp add: server_start_def d mkdir_all_def ancestors_def chmod_path_def Let_def)
  then show ?thesis
    using server_start_failure_clean [OF run, of mode_755] by (simp add: d)
qed

lemma server_stop_gone: "srv_listener s \<Longrightarrow> node_at (server_stop e s w) (sock_path s) = None"
proof -
  assume s: "srv_listener s"
  have none: "node_at (unlink_socket (sock_path s) w) (sock_path s) = None" by (simp add: unlink_socket_def)
  then show ?thesis
    using s by (auto simp: server_stop_def remove_file_def unlink_socket_def Let_def split: fault.splits)
qed

text \<open>
  Stopping a started server takes its socket away, whatever the system refuses: closing the
  listener unlinks the file before it is removed by name.
\<close>

theorem server_stop_unlinks:
  assumes "server_start e s w = ((None, s'), w')" and "dir_name (sock_path s) \<noteq> sock_path s"
  shows "node_at (server_stop e s' w'') (sock_path s) = None"
proof -
  have "srv_listener s'" "sock_path s' = sock_path s" using server_start_ok(1) [OF assms] by simp_all
  then show ?thesis using server_stop_gone [of s' e w''] by simp
qed

theorem server_stop_unlinks_witness:
  "\<exists>s' w'. server_start runtime_env (new_server runtime_env) old_data_world = ((None, s'), w')
     \<and> node_at (server_stop runtime_env s' w') (socket_path runtime_env) = None"
  using old_data_start server_stop_unlinks [of runtime_env "new_server runtime_env" old_data_world]
    socket_not_dir by (fastforce simp: new_server_def)

section \<open>What the client reads\<close>

datatype store_op = StoreSet entry | StoreDelete int

fun store_step :: "store_op \<Rightarrow> state_store \<Rightarrow> state_store" where
  "store_step (StoreSet en) s = store_set en s"
| "store_step (StoreDelete p) s = store_delete p s"

lemma store_wf_ops: "store_wf s \<Longrightarrow> store_wf (fold store_step ops s)"
proof (induction ops arbitrary: s)
  case (Cons op ops)
  then show ?case by (cases op) (simp_all add: store_wf_set store_wf_delete)
qed simp

text \<open>
  C25: what the daemon stored is what the client reads. After any sequence of \<open>Set\<close> and \<open>Delete\<close>,
  in whatever order the server ranges over its map, and if the JSON decoder inverts the encoder on
  the reply, a new client dials the socket of a new server and asks for a path it serves: \<open>GetState\<close>
  returns without error one entry for each stored port, and exactly the stored entries, and the
  daemon counts as running.
\<close>

theorem get_state_roundtrip:
  assumes "s = fold store_step ops new_state_store" and "iteration_of (entries s) order"
    and "decode_entries j (encode_entries j (store_all s order)) = (store_all s order, None)"
    and "connected tr (new_server e) (serve_request j s order)"
  shows "\<exists>es. get_state j tr (new_client e) w = ((es, None), ticked w)
    \<and> set es = Map.ran (entries s) \<and> map e_port es = order
    \<and> is_daemon_running j tr (new_client e) w = (True, ticked w)"
proof -
  have "sock_path (new_server e) = client_socket (new_client e)" by (simp add: new_server_def new_client_def)
  note g = get_state_connected [OF assms(4) this assms(3), of w]
  have "map e_port (store_all s order) = order"
    using store_all_ports [OF _ assms(2)] store_wf_ops [OF store_wf_new, of ops] by (simp add: assms(1))
  with g show ?thesis using store_all_set [OF assms(2)] by (simp add: is_daemon_running_def)
qed

definition demo_entry :: entry where
  "demo_entry = \<lparr>e_port = 15432, e_remote_host = ''db'', e_remote_port = 5432, e_resource = '''',
     e_ip = ''127.0.1.1'', e_proxy_port = 5432, e_domain = ''db-pgsql.tunnel.test'', e_tool = ''ssh'',
     e_tls = False, e_pid = 7, e_since = 0, e_cmdline = ''''\<rparr>"

theorem get_state_roundtrip_witness:
  "let j = \<lparr>encode_entries = (\<lambda>es. if es = [] then ''[]'' else ''[x]''),
            decode_entries = (\<lambda>s. if s = ''[x]'' then ([demo_entry], None) else ([], None))\<rparr>;
       s = fold store_step [StoreSet demo_entry] new_state_store;
       tr = local_transport (new_server (calm_env Linux)) (serve_request j s [15432])
   in \<exists>es. get_state j tr (new_client (calm_env Linux)) (dir_world ''/'') = ((es, None), ticked (dir_world ''/''))
        \<and> set es = Map.ran (entries s) \<and> map e_port es = [15432]
        \<and> is_daemon_running j tr (new_client (calm_env Linux)) (dir_world ''/'') = (True, ticked (dir_world ''/''))"
  unfolding Let_def
  by (rule get_state_roundtrip [OF refl _ _ local_transport_connected])
    (simp_all add: store_set_def new_state_store_def store_all_def demo_entry_def iteration_of_def)

end
