(* ===== verification/Scanner_Parse.thy ===== *)
theory Scanner_Parse
  imports Go_Regexp Os_World
begin

text \<open>
  \<open>internal/scanner/scanner.go\<close>: recognising \<open>ssh -L\<close> and \<open>kubectl port-forward\<close> command lines and
  reading the remote host, port and resource from them. The lemmas characterise the two regular
  expressions and show that every documented form of the flags is read back exactly.
\<close>

record port_forward =
  pf_port :: int
  remote_host :: string
  remote_port :: int
  resource :: string
  pid :: int
  cmdline :: string
  tool :: string

section \<open>Classification\<close>

text \<open>\<open>-[a-zA-Z]*L\<close>\<close>

definition ssh_l_re :: re where
  "ssh_l_re = Seq (Cls (\<lambda>c. c = CHR ''-'')) (Seq (Star (Cls is_letter_c)) (Cls (\<lambda>c. c = CHR ''L'')))"

definition classify_ssh :: "unicode \<Rightarrow> string \<Rightarrow> bool" where
  "classify_ssh u cmd \<longleftrightarrow> contains (to_lower u cmd) ''ssh'' \<and> match_string ssh_l_re cmd"

definition classify_kubectl :: "unicode \<Rightarrow> string \<Rightarrow> bool" where
  "classify_kubectl u cmd \<longleftrightarrow>
     (let lower = to_lower u cmd in contains lower ''kubectl'' \<and> contains lower ''port-forward'')"

section \<open>\<open>ssh -L\<close> command lines\<close>

definition is_ssh_combined_l_flag :: "unicode \<Rightarrow> string \<Rightarrow> bool" where
  "is_ssh_combined_l_flag u f \<longleftrightarrow>
     (if \<not> has_prefix f ''-'' \<or> f = ''-L'' then False
      else let flags = drop 1 f
        in list_all (rune_letter u) (runes flags) \<and> CHR ''L'' \<in> set flags)"

definition ssh_spec_info :: "string \<Rightarrow> int \<Rightarrow> string \<times> int" where
  "ssh_spec_info spec localPort =
     (case split_on CHR '':'' spec of
        [p0, p1, p2] \<Rightarrow>
          (let lp = fst (atoi p0); rp = fst (atoi p2)
           in if lp = localPort then (p1, rp) else ('''', 0))
      | [p0, p1, p2, p3] \<Rightarrow>
          (let lp = fst (atoi p1); rp = fst (atoi p3)
           in if lp = localPort then (p2, rp) else ('''', 0))
      | _ \<Rightarrow> ('''', 0))"

text \<open>The \<open>switch\<close> of the loop: the forwarding spec the field \<open>f\<close> introduces, if any.\<close>

definition ssh_spec_of :: "unicode \<Rightarrow> string \<Rightarrow> string list \<Rightarrow> string option" where
  "ssh_spec_of u f rest =
     (if f = ''-L'' \<and> rest \<noteq> [] then Some (hd rest)
      else if has_prefix f ''-L'' \<and> 2 < length f then Some (drop 2 f)
      else if is_ssh_combined_l_flag u f \<and> rest \<noteq> [] then Some (hd rest)
      else None)"

fun parse_ssh_fields :: "unicode \<Rightarrow> int \<Rightarrow> string list \<Rightarrow> string \<times> int" where
  "parse_ssh_fields u localPort [] = ('''', 0)"
| "parse_ssh_fields u localPort (f # rest) =
     (case ssh_spec_of u f rest of
        None \<Rightarrow> parse_ssh_fields u localPort rest
      | Some spec \<Rightarrow>
          (let (h, p) = ssh_spec_info spec localPort
           in if 0 < p then (h, p) else parse_ssh_fields u localPort rest))"

definition parse_ssh_info :: "unicode \<Rightarrow> string \<Rightarrow> int \<Rightarrow> string \<times> int" where
  "parse_ssh_info u cmd localPort = parse_ssh_fields u localPort (string_fields cmd)"

section \<open>\<open>kubectl port-forward\<close> command lines\<close>

definition strip_resource_prefix :: "string \<Rightarrow> string" where
  "strip_resource_prefix s =
     (case index_of s ''/'' of Some idx \<Rightarrow> drop (idx + 1) s | None \<Rightarrow> s)"

fun kubectl_resource :: "string list \<Rightarrow> string" where
  "kubectl_resource [] = ''''"
| "kubectl_resource (f # rest) =
     (if f = ''port-forward'' \<and> rest \<noteq> [] then strip_resource_prefix (hd rest)
      else kubectl_resource rest)"

text \<open>The pattern \<open>\b<localPort>:(\d+)\b\<close>, in the three parts before, in and after its group.\<close>

definition pair_pre :: "int \<Rightarrow> re" where
  "pair_pre localPort = Seq Bnd (lit_then (itoa localPort) (Cls (\<lambda>c. c = CHR '':'')))"

abbreviation digits_re :: re where
  "digits_re \<equiv> Plus (Cls is_digit_c)"

definition parse_kubectl_info :: "string \<Rightarrow> int \<Rightarrow> string \<times> int" where
  "parse_kubectl_info cmd localPort =
     (kubectl_resource (string_fields cmd),
      case find_sub (pair_pre localPort) digits_re Bnd cmd of
        Some m \<Rightarrow> fst (atoi m)
      | None \<Rightarrow> 0)"

definition parse_remote_info :: "unicode \<Rightarrow> string \<Rightarrow> string \<Rightarrow> int \<Rightarrow> string \<times> int \<times> string" where
  "parse_remote_info u tool_name cmd localPort =
     (if tool_name = ''ssh'' then (let (h, p) = parse_ssh_info u cmd localPort in (h, p, ''''))
      else if tool_name = ''kubectl'' then (let (r, p) = parse_kubectl_info cmd localPort in ('''', p, r))
      else ('''', 0, ''''))"

section \<open>The regular expressions\<close>

lemma match_ssh_l_re:
  "match_string ssh_l_re s \<longleftrightarrow>
   (\<exists>a m b. s = a @ ''-'' @ m @ ''L'' @ b \<and> list_all is_letter_c m)"
proof -
  have at: "rmatch ssh_l_re (p, v) \<noteq> [] \<longleftrightarrow>
      (\<exists>m b. v = ''-'' @ m @ ''L'' @ b \<and> list_all is_letter_c m)" for p v
    unfolding rmatch_nonempty ssh_l_re_def re_mem by auto
  show ?thesis
    unfolding match_string_def re_search_iff at by auto
qed

text \<open>Where the pair pattern matches, and what its group captures.\<close>

definition pair_here :: "int \<Rightarrow> char option \<Rightarrow> string \<Rightarrow> string \<Rightarrow> bool" where
  "pair_here lp p s d \<longleftrightarrow>
     (\<forall>c. p = Some c \<longrightarrow> \<not> word_c c) \<and>
     (\<exists>v. s = itoa lp @ '':'' @ d @ v \<and> d \<noteq> [] \<and> list_all is_digit_c d
        \<and> (v = [] \<or> \<not> word_c (hd v)))"

lemma digit_word: "is_digit_c c \<Longrightarrow> word_c c"
  by (simp add: word_c_def)

lemma mem_digits_re:
  "st' \<in> set (rmatch digits_re st) \<longleftrightarrow>
   (\<exists>d v. snd st = d @ v \<and> d \<noteq> [] \<and> list_all is_digit_c d \<and> st' = (Some (last d), v))"
  unfolding re_mem
proof safe
  fix c t u v assume "snd st = c # t" "is_digit_c c" "snd (Some c, t) = u @ v" "list_all is_digit_c u"
  then show "\<exists>d w. snd st = d @ w \<and> d \<noteq> [] \<and> list_all is_digit_c d
      \<and> (prev_after (fst (Some c, t)) u, v) = (Some (last d), w)"
    by (intro exI [of _ "c # u"] exI [of _ v]) (simp add: prev_after_def)
next
  fix d v assume "snd st = d @ v" "d \<noteq> []" "list_all is_digit_c d"
  then show "\<exists>t. (\<exists>c s. snd st = c # s \<and> is_digit_c c \<and> t = (Some c, s)) \<and>
      (\<exists>u w. snd t = u @ w \<and> list_all is_digit_c u \<and> (Some (last d), v) = (prev_after (fst t) u, w))"
    by (cases d) (auto simp: prev_after_def)
qed

lemma rmatch_pair_pre:
  assumes "0 \<le> lp"
  shows "a \<in> set (rmatch (pair_pre lp) (p, s)) \<longleftrightarrow>
    (\<forall>c. p = Some c \<longrightarrow> \<not> word_c c) \<and> (\<exists>t. s = itoa lp @ '':'' @ t \<and> a = (Some CHR '':'', t))"
proof -
  have first: "word_c (hd (itoa lp))"
    using assms itoa_nat_digits [of lp] itoa_nonempty [of lp]
    by (cases "itoa lp") (auto intro: digit_word)
  have bnd: "at_boundary (p, itoa lp @ t) \<longleftrightarrow> (\<forall>c. p = Some c \<longrightarrow> \<not> word_c c)" for t
    using first by (cases "itoa lp") (auto simp: at_boundary_def split: option.splits)
  have "a \<in> set (rmatch (pair_pre lp) (p, s)) \<longleftrightarrow>
      at_boundary (p, s) \<and> (\<exists>t. s = itoa lp @ '':'' @ t \<and> a = (Some CHR '':'', t))"
    unfolding pair_pre_def mem_Seq mem_anchors
    by (auto simp: rmatch_lit_then has_prefix_iff mem_Cls simp del: rmatch.simps split: if_split_asm)
  with bnd show ?thesis by auto
qed

lemma pair_here_unique: "pair_here lp p s d \<Longrightarrow> pair_here lp p s d' \<Longrightarrow> d = d'"
proof -
  have "d = takeWhile is_digit_c (drop (length (itoa lp) + 1) s)" if "pair_here lp p s d" for d
  proof -
    from that obtain v where s: "s = itoa lp @ '':'' @ d @ v" and d: "list_all is_digit_c d"
      and v: "v = [] \<or> \<not> word_c (hd v)" by (auto simp: pair_here_def)
    from v have "takeWhile is_digit_c v = []" by (cases v) (auto dest: digit_word)
    with s d show ?thesis by (simp add: list_all_iff)
  qed
  then show "pair_here lp p s d \<Longrightarrow> pair_here lp p s d' \<Longrightarrow> d = d'" by metis
qed

lemma set_sub_at_pair:
  assumes "0 \<le> lp"
  shows "d \<in> set (sub_at (pair_pre lp) digits_re Bnd (p, s)) \<longleftrightarrow> pair_here lp p s d"
proof -
  have bnd: "at_boundary (Some (last d), v) \<longleftrightarrow> v = [] \<or> \<not> word_c (hd v)"
    if "d \<noteq> []" "list_all is_digit_c d" for d v
    using that by (cases v) (auto simp: at_boundary_def list_all_iff digit_word)
  show ?thesis
  proof
    assume "d \<in> set (sub_at (pair_pre lp) digits_re Bnd (p, s))"
    then show "pair_here lp p s d"
      unfolding mem_sub_at rmatch_pair_pre [OF assms] mem_digits_re pair_here_def
        rmatch_nonempty mem_anchors
      using bnd by auto
  next
    assume "pair_here lp p s d"
    then obtain v where p: "\<forall>c. p = Some c \<longrightarrow> \<not> word_c c" and s: "s = itoa lp @ '':'' @ d @ v"
      and d: "d \<noteq> []" "list_all is_digit_c d" and v: "v = [] \<or> \<not> word_c (hd v)"
      by (auto simp: pair_here_def)
    have "(Some CHR '':'', d @ v) \<in> set (rmatch (pair_pre lp) (p, s))"
      using p s by (simp add: rmatch_pair_pre [OF assms])
    moreover have "(Some (last d), v) \<in> set (rmatch digits_re (Some CHR '':'', d @ v))"
      unfolding mem_digits_re using d by auto
    moreover have "rmatch Bnd (Some (last d), v) \<noteq> []" using bnd [OF d] v by simp
    ultimately show "d \<in> set (sub_at (pair_pre lp) digits_re Bnd (p, s))"
      unfolding mem_sub_at
      by (intro exI [of _ "(Some CHR '':'', d @ v)"] exI [of _ "(Some (last d), v)"])
         (simp del: rmatch.simps)
  qed
qed

section \<open>Reading a forwarding spec back\<close>

text \<open>The two forms of a spec, with and without a bind address.\<close>

definition l_spec :: "int \<Rightarrow> string \<Rightarrow> int \<Rightarrow> string \<Rightarrow> bool" where
  "l_spec lp host rp spec \<longleftrightarrow>
     (let core = itoa lp @ '':'' @ host @ '':'' @ itoa rp
      in spec = core \<or> (\<exists>bind. CHR '':'' \<notin> set bind \<and> spec = bind @ '':'' @ core))"

text \<open>The ways to pass a spec: \<open>-L spec\<close>, \<open>-Lspec\<close>, and a group of letters that contains \<open>L\<close>.\<close>

definition l_args :: "string \<Rightarrow> string list \<Rightarrow> bool" where
  "l_args spec args \<longleftrightarrow>
     args = [''-L'', spec] \<or> args = [''-L'' @ spec] \<or>
     (\<exists>m. args = [''-'' @ m, spec] \<and> list_all is_letter_c m \<and> CHR ''L'' \<in> set m \<and> hd m \<noteq> CHR ''L'')"

abbreviation go_int :: "int \<Rightarrow> bool" where
  "go_int i \<equiv> - (2 ^ 63) \<le> i \<and> i < 2 ^ 63"

lemma colon_not_itoa: "CHR '':'' \<notin> set (itoa i)"
  by (auto simp: is_digit_c_def dest: itoa_chars)

lemma ssh_spec_info_l_spec:
  assumes "l_spec lp host rp spec" "CHR '':'' \<notin> set host" "go_int lp" "go_int rp"
  shows "ssh_spec_info spec lp = (host, rp)"
  using assms
  by (auto simp: l_spec_def ssh_spec_info_def Let_def split_on_append_sep split_on_no_sep
      colon_not_itoa atoi_itoa)

lemma l_spec_length: "l_spec lp host rp spec \<Longrightarrow> spec \<noteq> []"
  by (auto simp: l_spec_def Let_def)

lemma letters_runes: "list_all is_letter_c m \<Longrightarrow> list_all (rune_letter u) (runes m)"
proof (induction m)
  case (Cons c m)
  then have "ascii c" by (simp add: is_letter_ascii)
  with Cons show ?case
    by (auto simp: runes_def tokens_ascii_Cons rune_letter_def class_defs)
qed (simp add: runes_def)

lemma ssh_spec_of_other:
  "\<not> has_prefix f ''-'' \<or> CHR ''L'' \<notin> set f \<Longrightarrow> ssh_spec_of u f rest = None"
  by (auto simp: ssh_spec_of_def is_ssh_combined_l_flag_def has_prefix_iff dest: in_set_dropD)

lemma ssh_spec_of_l_args:
  assumes "l_args spec args" "spec \<noteq> []"
  shows "ssh_spec_of u (hd args) (tl args @ post) = Some spec"
proof -
  from assms(1) consider "args = [''-L'', spec]" | "args = [''-L'' @ spec]"
    | m where "args = [''-'' @ m, spec]" "list_all is_letter_c m" "CHR ''L'' \<in> set m" "hd m \<noteq> CHR ''L''"
    unfolding l_args_def by blast
  then show ?thesis
  proof cases
    case 1
    then show ?thesis by (simp add: ssh_spec_of_def)
  next
    case 2
    with assms(2) show ?thesis by (cases spec) (auto simp: ssh_spec_of_def has_prefix_def)
  next
    case 3
    then obtain c m' where "m = c # m'" "c \<noteq> CHR ''L''" by (cases m) auto
    with 3 letters_runes [OF 3(2)] show ?thesis
      by (auto simp: ssh_spec_of_def is_ssh_combined_l_flag_def has_prefix_def)
  qed
qed

lemma parse_ssh_fields_skip:
  "\<forall>f \<in> set pre. \<not> has_prefix f ''-'' \<or> CHR ''L'' \<notin> set f \<Longrightarrow>
   parse_ssh_fields u lp (pre @ fs) = parse_ssh_fields u lp fs"
  by (induction pre) (simp_all add: ssh_spec_of_other)

lemma parse_ssh_args:
  assumes "list_all plain_field (pre @ args @ post)"
    and "\<forall>f \<in> set pre. \<not> has_prefix f ''-'' \<or> CHR ''L'' \<notin> set f"
    and "l_args spec args" and "l_spec lp host rp spec" and "CHR '':'' \<notin> set host"
    and "go_int lp" and "0 < rp" and "rp < 2 ^ 63"
  shows "parse_ssh_info u (join '' '' (pre @ args @ post)) lp = (host, rp)"
proof -
  have args: "args = hd args # tl args" using assms(3) by (auto simp: l_args_def)
  have "parse_ssh_info u (join '' '' (pre @ args @ post)) lp
      = parse_ssh_fields u lp (hd args # (tl args @ post))"
    unfolding parse_ssh_info_def fields_join [OF assms(1)] parse_ssh_fields_skip [OF assms(2)]
    by (subst args) simp
  also have "\<dots> = (host, rp)"
    using ssh_spec_of_l_args [OF assms(3) l_spec_length [OF assms(4)]]
      ssh_spec_info_l_spec [OF assms(4,5,6)] assms(7,8) by simp
  finally show ?thesis .
qed

text \<open>
  C22: every documented form of an \<open>ssh -L\<close> command line is read back exactly. Take any plain fields
  before (no flag with an \<open>L\<close> in it) and after, the flag and the spec written in any of the forms
  \<open>-L spec\<close>, \<open>-Lspec\<close>, \<open>-NL spec\<close>, \<open>-fNL spec\<close>, with or without a bind address: asking for the local
  port gives the remote host and the remote port of the spec.
\<close>

theorem parse_ssh_info_roundtrip:
  assumes "list_all plain_field (pre @ args @ post)"
    and "\<forall>f \<in> set pre. \<not> has_prefix f ''-'' \<or> CHR ''L'' \<notin> set f"
    and "l_args spec args" and "l_spec lp host rp spec" and "CHR '':'' \<notin> set host"
    and "go_int lp" and "0 < rp" and "rp < 2 ^ 63"
  shows "parse_ssh_info u (join '' '' (pre @ args @ post)) lp = (host, rp)"
  by (rule parse_ssh_args) (fact assms)+

theorem parse_ssh_info_roundtrip_witness:
  "parse_ssh_info demo_u ''ssh -fNL 127.0.0.1:8181:10.0.0.2:80 user@bastion'' 8181 = (''10.0.0.2'', 80)"
proof -
  have itoa: "itoa 8181 = ''8181''" "itoa 80 = ''80''"
    by (simp_all add: itoa_def nat_dec.simps)
  have "l_spec 8181 ''10.0.0.2'' 80 ''127.0.0.1:8181:10.0.0.2:80''"
    unfolding l_spec_def itoa Let_def by (intro disjI2 exI [of _ "''127.0.0.1''"]) simp
  moreover have "l_args ''127.0.0.1:8181:10.0.0.2:80'' [''-fNL'', ''127.0.0.1:8181:10.0.0.2:80'']"
    unfolding l_args_def
    by (intro disjI2 exI [of _ "''fNL''"]) (simp add: class_defs)
  ultimately show ?thesis
    using parse_ssh_info_roundtrip [where pre = "[''ssh'']" and post = "[''user@bastion'']"
        and args = "[''-fNL'', ''127.0.0.1:8181:10.0.0.2:80'']" and lp = 8181 and rp = 80
        and host = "''10.0.0.2''" and spec = "''127.0.0.1:8181:10.0.0.2:80''" and u = demo_u]
    by (simp add: plain_field_def class_defs has_prefix_def)
qed

section \<open>Reading a kubectl pair back\<close>

lemma takeWhile_no: "c \<notin> set u \<Longrightarrow> takeWhile (\<lambda>x. x \<noteq> c) (u @ c # v) = u"
  by (induction u) auto

lemma pair_not_before:
  assumes "0 \<le> lp" "w \<noteq> []" "CHR '':'' \<notin> set w"
  shows "sub_at (pair_pre lp) digits_re Bnd (p, w @ itoa lp @ '':'' @ rest) = []"
proof -
  have "\<not> pair_here lp p (w @ itoa lp @ '':'' @ rest) d" for d
  proof
    assume "pair_here lp p (w @ itoa lp @ '':'' @ rest) d"
    then obtain v where eq: "w @ itoa lp @ '':'' @ rest = itoa lp @ '':'' @ d @ v"
      by (auto simp: pair_here_def)
    have "takeWhile (\<lambda>x. x \<noteq> CHR '':'') ((w @ itoa lp) @ CHR '':'' # rest) = w @ itoa lp"
      using assms(3) colon_not_itoa by (intro takeWhile_no) simp
    moreover have "takeWhile (\<lambda>x. x \<noteq> CHR '':'') (itoa lp @ CHR '':'' # (d @ v)) = itoa lp"
      using colon_not_itoa by (intro takeWhile_no)
    ultimately have "w @ itoa lp = itoa lp" using eq by simp
    with assms(2) show False by simp
  qed
  then have "d \<notin> set (sub_at (pair_pre lp) digits_re Bnd (p, w @ itoa lp @ '':'' @ rest))" for d
    by (simp only: set_sub_at_pair [OF assms(1)] not_False_eq_True)
  then show ?thesis by (metis list.set_intros(1) neq_Nil_conv)
qed

lemma find_pair:
  assumes "0 \<le> lp" "0 \<le> rp" "CHR '':'' \<notin> set t" "t = [] \<or> \<not> word_c (last t)"
    and "v = [] \<or> \<not> word_c (hd v)"
  shows "find_sub (pair_pre lp) digits_re Bnd (t @ itoa lp @ '':'' @ itoa rp @ v) = Some (itoa rp)"
proof -
  let ?s = "itoa lp @ '':'' @ itoa rp @ v"
  have "find_sub (pair_pre lp) digits_re Bnd (t @ ?s)
      = find_sub_from (pair_pre lp) digits_re Bnd (prev_after None t) ?s"
    unfolding find_sub_def
  proof (rule find_sub_from_skip)
    fix u w assume "t = u @ w" "w \<noteq> []"
    then show "sub_at (pair_pre lp) digits_re Bnd (prev_after None u, w @ ?s) = []"
      using assms(3) by (intro pair_not_before [OF assms(1)]) auto
  qed
  also have "\<dots> = Some (itoa rp)"
  proof -
    have here: "pair_here lp (prev_after None t) ?s (itoa rp)"
      using assms(4,5) itoa_nat_digits [OF assms(2)] by (auto simp: pair_here_def prev_after_def)
    have "set (sub_at (pair_pre lp) digits_re Bnd (prev_after None t, ?s)) \<subseteq> {itoa rp}"
    proof
      fix d assume "d \<in> set (sub_at (pair_pre lp) digits_re Bnd (prev_after None t, ?s))"
      then have "pair_here lp (prev_after None t) ?s d" by (simp only: set_sub_at_pair [OF assms(1)])
      then have "d = itoa rp" using here by (rule pair_here_unique)
      then show "d \<in> {itoa rp}" by simp
    qed
    moreover have "itoa rp \<in> set (sub_at (pair_pre lp) digits_re Bnd (prev_after None t, ?s))"
      using here by (simp only: set_sub_at_pair [OF assms(1)])
    then have "sub_at (pair_pre lp) digits_re Bnd (prev_after None t, ?s) \<noteq> []" by (metis list.set_cases list.distinct(1))
    ultimately show ?thesis by (intro find_sub_from_here)
  qed
  finally show ?thesis .
qed

lemma kubectl_resource_skip:
  "''port-forward'' \<notin> set pre \<Longrightarrow> kubectl_resource (pre @ fs) = kubectl_resource fs"
  by (induction pre) auto

lemma index_of_sep: "CHR ''/'' \<notin> set k \<Longrightarrow> index_of (k @ ''/'' @ n) ''/'' = Some (length k)"
  by (induction k) (auto simp: has_prefix_def)

lemma strip_resource_prefix_kind: "CHR ''/'' \<notin> set k \<Longrightarrow> strip_resource_prefix (k @ ''/'' @ n) = n"
  using index_of_sep [of k n] by (simp add: strip_resource_prefix_def)

lemma join_no_char:
  "c \<notin> set sep \<Longrightarrow> list_all (\<lambda>x. c \<notin> set x) xs \<Longrightarrow> c \<notin> set (join sep xs)"
  by (induction sep xs rule: join.induct) auto

lemma parse_kubectl_args:
  assumes "list_all plain_field
      (pre @ [''port-forward'', kind @ ''/'' @ name, itoa lp @ '':'' @ itoa rp] @ post)"
    and "''port-forward'' \<notin> set pre" and "list_all (\<lambda>f. CHR '':'' \<notin> set f) pre"
    and "CHR '':'' \<notin> set (kind @ name)" and "CHR ''/'' \<notin> set kind"
    and "0 \<le> lp" and "0 \<le> rp" and "rp < 2 ^ 63"
  shows "parse_kubectl_info
      (join '' '' (pre @ [''port-forward'', kind @ ''/'' @ name, itoa lp @ '':'' @ itoa rp] @ post)) lp
      = (name, rp)"
proof -
  let ?head = "pre @ [''port-forward'', kind @ ''/'' @ name]" and ?pair = "itoa lp @ '':'' @ itoa rp"
  let ?fs = "?head @ [?pair] @ post"
  have res: "kubectl_resource (string_fields (join '' '' ?fs)) = name"
    using fields_join [of ?fs] assms(1) kubectl_resource_skip [OF assms(2)]
      strip_resource_prefix_kind [OF assms(5)] by simp
  obtain v where v: "join '' '' ([?pair] @ post) = ?pair @ v" "v = [] \<or> \<not> word_c (hd v)"
    by (cases post) (auto simp: word_c_def class_defs)
  have "join '' '' ?fs = (join '' '' ?head @ '' '') @ itoa lp @ '':'' @ itoa rp @ v"
    using v(1) join_append [of ?head "[?pair] @ post" "'' ''"] by simp
  moreover have "find_sub (pair_pre lp) digits_re Bnd
      ((join '' '' ?head @ '' '') @ itoa lp @ '':'' @ itoa rp @ v) = Some (itoa rp)"
  proof (rule find_pair [OF assms(6,7) _ _ v(2)])
    show "CHR '':'' \<notin> set (join '' '' ?head @ '' '')"
      using assms(3,4) join_no_char [of "CHR '':''" "'' ''" ?head] by simp
  qed (simp add: word_c_def class_defs)
  ultimately have "find_sub (pair_pre lp) digits_re Bnd (join '' '' ?fs) = Some (itoa rp)" by simp
  moreover have "fst (atoi (itoa rp)) = rp" using assms(7,8) by (simp add: atoi_itoa)
  ultimately show ?thesis using res by (simp add: parse_kubectl_info_def)
qed

text \<open>
  C31: a \<open>kubectl port-forward kind/name localPort:remotePort\<close> command line is read back exactly: asking
  for the local port gives the resource name without its kind, and the remote port, whatever other
  flags come before (none with a colon) or after.
\<close>

theorem parse_kubectl_info_roundtrip:
  assumes "list_all plain_field
      (pre @ [''port-forward'', kind @ ''/'' @ name, itoa lp @ '':'' @ itoa rp] @ post)"
    and "''port-forward'' \<notin> set pre" and "list_all (\<lambda>f. CHR '':'' \<notin> set f) pre"
    and "CHR '':'' \<notin> set (kind @ name)" and "CHR ''/'' \<notin> set kind"
    and "0 \<le> lp" and "0 \<le> rp" and "rp < 2 ^ 63"
  shows "parse_kubectl_info
      (join '' '' (pre @ [''port-forward'', kind @ ''/'' @ name, itoa lp @ '':'' @ itoa rp] @ post)) lp
      = (name, rp)"
  by (rule parse_kubectl_args) (fact assms)+

theorem parse_kubectl_info_roundtrip_witness:
  "parse_kubectl_info ''kubectl -n monitoring port-forward pod/grafana-abc 3000:3000'' 3000
     = (''grafana-abc'', 3000)"
proof -
  have itoa: "itoa 3000 = ''3000''" by (simp add: itoa_def nat_dec.simps)
  show ?thesis
    using parse_kubectl_info_roundtrip [where pre = "[''kubectl'', ''-n'', ''monitoring'']"
        and kind = "''pod''" and name = "''grafana-abc''" and lp = 3000 and rp = 3000 and post = "[]"]
    by (simp add: itoa plain_field_def class_defs)
qed

section \<open>Soundness of the parsed values\<close>

lemma ssh_spec_info_sound:
  "ssh_spec_info spec lp = (h, p) \<Longrightarrow> 0 < p \<Longrightarrow>
   \<exists>bind lps rps. (spec = lps @ '':'' @ h @ '':'' @ rps \<or> spec = bind @ '':'' @ lps @ '':'' @ h @ '':'' @ rps)
     \<and> fst (atoi lps) = lp \<and> fst (atoi rps) = p"
proof -
  assume eq: "ssh_spec_info spec lp = (h, p)" and p: "0 < p"
  have spec: "spec = join '':'' (split_on CHR '':'' spec)" by (rule join_split_on [symmetric])
  from eq p consider
      (three) p0 p2 where "split_on CHR '':'' spec = [p0, h, p2]" "fst (atoi p0) = lp" "fst (atoi p2) = p"
    | (four) p0 p1 p3 where "split_on CHR '':'' spec = [p0, p1, h, p3]" "fst (atoi p1) = lp" "fst (atoi p3) = p"
    by (auto simp: ssh_spec_info_def Let_def split: list.splits if_splits)
  then show ?thesis
  proof cases
    case three
    with spec show ?thesis by (metis join.simps(2,3))
  next
    case four
    with spec show ?thesis by (metis join.simps(2,3))
  qed
qed

lemma parse_ssh_fields_result:
  "parse_ssh_fields u lp fs = (h, p) \<Longrightarrow>
   (h = '''' \<and> p = 0) \<or>
   (0 < p \<and> (\<exists>f rest spec. f \<in> set fs \<and> ssh_spec_of u f rest = Some spec \<and> ssh_spec_info spec lp = (h, p)))"
proof (induction fs)
  case (Cons f fs)
  show ?case
  proof (cases "ssh_spec_of u f fs")
    case None
    with Cons show ?thesis by (simp only: parse_ssh_fields.simps option.case) auto
  next
    case (Some spec)
    obtain h' p' where i: "ssh_spec_info spec lp = (h', p')" by (cases "ssh_spec_info spec lp")
    show ?thesis
    proof (cases "0 < p'")
      case True
      with i Some Cons.prems have "h' = h" "p' = p" by simp_all
      with i Some True show ?thesis by (intro disjI2) auto
    next
      case False
      with i Some Cons show ?thesis by (simp only: parse_ssh_fields.simps option.case) auto
    qed
  qed
qed simp

lemma atoi_digits_nonneg: "list_all is_digit_c d \<Longrightarrow> 0 \<le> fst (atoi d)"
  by (cases d) (auto simp: atoi_def Let_def has_prefix_def is_digit_c_def split: sum.splits num_err.splits)

lemma find_sub_digits:
  "0 \<le> lp \<Longrightarrow> find_sub (pair_pre lp) digits_re Bnd cmd = Some d \<Longrightarrow>
   \<exists>u. pair_here lp (prev_after None u) (drop (length u) cmd) d \<and> length u \<le> length cmd"
proof -
  assume lp: "0 \<le> lp" and "find_sub (pair_pre lp) digits_re Bnd cmd = Some d"
  then obtain u v where "cmd = u @ v"
    "d \<in> set (sub_at (pair_pre lp) digits_re Bnd (prev_after None u, v))"
    unfolding find_sub_def using find_sub_from_Some by blast
  then show ?thesis by (intro exI [of _ u]) (simp add: set_sub_at_pair [OF lp])
qed

lemma parse_kubectl_info_nonneg: "0 \<le> lp \<Longrightarrow> 0 \<le> snd (parse_kubectl_info cmd lp)"
  by (auto simp: parse_kubectl_info_def pair_here_def atoi_digits_nonneg
      dest!: find_sub_digits split: option.splits)

end
