(* ===== verification/Domain_Name.thy ===== *)
theory Domain_Name
  imports Config Scanner_Parse
begin

text \<open>
  \<open>internal/domain/domain.go\<close>: the domain name of a forward, \<open>{identifier}-{service}.{tld}\<close>, with the
  identifier's precedence, the sanitizer that makes it one DNS label, and the collision suffix.
\<close>

definition base_identifier :: "port_forward \<Rightarrow> config \<Rightarrow> string" where
  "base_identifier pf cfg =
     (case map_get (overrides cfg) (pf_port pf) of
        Some override \<Rightarrow> override
      | None \<Rightarrow>
          if remote_host pf \<noteq> '''' then remote_host pf
          else if resource pf \<noteq> '''' then resource pf
          else ''port-'' @ itoa (pf_port pf))"

definition service_label :: "int \<Rightarrow> string" where
  "service_label remotePort =
     (let svc = service_name remotePort
      in if svc \<noteq> '''' then svc else ''port'' @ itoa remotePort)"

text \<open>
  The loop of \<open>sanitize\<close> over the runes, with the rune written last (a dash at the start).
\<close>

fun sanitize_loop :: "unicode \<Rightarrow> nat \<Rightarrow> nat list \<Rightarrow> string" where
  "sanitize_loop u prev [] = []"
| "sanitize_loop u prev (r # rs) =
     (if rune_letter u r \<or> rune_digit u r then encode_rune r @ sanitize_loop u r rs
      else if prev \<noteq> 45 then CHR ''-'' # sanitize_loop u 45 rs
      else sanitize_loop u prev rs)"

definition sanitize :: "unicode \<Rightarrow> string \<Rightarrow> string" where
  "sanitize u s =
     (let result = trim_byte CHR ''-'' (sanitize_loop u 45 (runes (to_lower u s)))
      in if 63 < length result then trim_right_byte CHR ''-'' (take 63 result) else result)"

text \<open>\<open>activeNames\<close> is only asked whether it holds a name, so it is a list here.\<close>

definition generate_label :: "unicode \<Rightarrow> port_forward \<Rightarrow> config \<Rightarrow> string list \<Rightarrow> string" where
  "generate_label u pf cfg activeNames =
     (let base = base_identifier pf cfg;
          svc = service_label (remote_port pf);
          name = sanitize u (base @ ''-'' @ svc)
      in if name \<in> set activeNames
         then sanitize u (base @ ''-'' @ svc @ ''-'' @ itoa (pf_port pf)) else name)"

definition generate :: "unicode \<Rightarrow> port_forward \<Rightarrow> config \<Rightarrow> string list \<Rightarrow> string" where
  "generate u pf cfg activeNames = generate_label u pf cfg activeNames @ ''.'' @ tld cfg"

section \<open>The sanitizer on ASCII text\<close>

definition label_c :: "char \<Rightarrow> bool" where
  "label_c c \<longleftrightarrow> is_lower_c c \<or> is_digit_c c"

text \<open>A DNS label: lower-case letters, digits and inner single dashes, 1 to 63 bytes.\<close>

definition dns_label :: "string \<Rightarrow> bool" where
  "dns_label s \<longleftrightarrow>
     s \<noteq> [] \<and> length s \<le> 63 \<and> list_all (\<lambda>c. label_c c \<or> c = CHR ''-'') s
     \<and> label_c (hd s) \<and> label_c (last s)"

fun dash_runs :: "string \<Rightarrow> bool" where
  "dash_runs (a # b # s) = ((a \<noteq> CHR ''-'' \<or> b \<noteq> CHR ''-'') \<and> dash_runs (b # s))"
| "dash_runs s = True"

text \<open>The loop, byte by byte, for text that is already lower case.\<close>

fun slug :: "bool \<Rightarrow> string \<Rightarrow> string" where
  "slug dash [] = []"
| "slug dash (c # s) =
     (if label_c c then c # slug False s
      else if dash then slug True s
      else CHR ''-'' # slug True s)"

definition lower_text :: "string \<Rightarrow> bool" where
  "lower_text s \<longleftrightarrow> list_all (\<lambda>c. ascii c \<and> \<not> is_upper_c c) s"

lemma lower_c_not_upper: "\<not> is_upper_c (lower_c c)"
  by (auto simp: lower_c_def is_upper_c_def)

lemma lower_text_map: "all_ascii s \<Longrightarrow> lower_text (map lower_c s)"
  by (auto simp: lower_text_def list_all_iff lower_c_not_upper intro: lower_c_ascii)

lemma rune_class_label:
  "ascii c \<Longrightarrow> \<not> is_upper_c c \<Longrightarrow>
   (rune_letter u (code c) \<or> rune_digit u (code c)) \<longleftrightarrow> label_c c"
  by (auto simp: rune_letter_def rune_digit_def label_c_def class_defs)

lemma label_c_not_dash: "label_c c \<Longrightarrow> code c \<noteq> 45 \<and> c \<noteq> CHR ''-''"
  by (auto simp: label_c_def class_defs)

lemma sanitize_loop_slug:
  "lower_text s \<Longrightarrow> sanitize_loop u p (runes s) = slug (p = 45) s"
proof (induction s arbitrary: p)
  case Nil
  then show ?case by (simp add: runes_def)
next
  case (Cons c s)
  then have c: "ascii c" "\<not> is_upper_c c" and s: "lower_text s" by (auto simp: lower_text_def)
  have r: "runes (c # s) = code c # runes s" using c by (simp add: runes_def tokens_ascii_Cons)
  show ?case
    using Cons.IH [OF s] label_c_not_dash [of c]
    by (simp add: r rune_class_label [OF c] encode_rune_ascii [OF c(1)])
qed

lemma sanitize_ascii:
  "all_ascii s \<Longrightarrow> sanitize u s =
   (let result = trim_byte CHR ''-'' (slug True (map lower_c s))
    in if 63 < length result then trim_right_byte CHR ''-'' (take 63 result) else result)"
  unfolding sanitize_def
  by (simp add: to_lower_ascii sanitize_loop_slug [OF lower_text_map])

lemma dash_runs_append: "dash_runs (s @ t) \<Longrightarrow> dash_runs s"
  by (induction s rule: dash_runs.induct) auto

lemma slug_chars: "list_all (\<lambda>c. label_c c \<or> c = CHR ''-'') (slug d s)"
  by (induction d s rule: slug.induct) auto

lemma slug_runs: "dash_runs (slug d s) \<and> (d \<longrightarrow> slug d s = [] \<or> hd (slug d s) \<noteq> CHR ''-'')"
proof (induction d s rule: slug.induct)
  case (2 d c s)
  show ?case
  proof (cases "label_c c")
    case True
    with 2(1) [OF True] label_c_not_dash [OF True] show ?thesis by (cases "slug False s") auto
  next
    case False
    with 2(2,3) show ?thesis by (cases d; cases "slug True s") auto
  qed
qed simp

lemma slug_id:
  "list_all (\<lambda>c. label_c c \<or> c = CHR ''-'') s \<Longrightarrow> dash_runs s \<Longrightarrow>
   (d \<longrightarrow> s = [] \<or> hd s \<noteq> CHR ''-'') \<Longrightarrow> slug d s = s"
proof (induction s arbitrary: d)
  case (Cons c s)
  show ?case
  proof (cases "label_c c")
    case True
    with Cons show ?thesis by (cases s) auto
  next
    case False
    with Cons.prems have "c = CHR ''-''" "\<not> d" by auto
    with Cons False show ?thesis by (cases s) auto
  qed
qed simp

lemma slug_append:
  "slug d (x @ y) = slug d x @ slug (if x = [] then d else \<not> label_c (last x)) y"
  by (induction d x rule: slug.induct) auto

lemma slug_nonlabel_end:
  "x \<noteq> [] \<Longrightarrow> \<not> label_c (last x) \<Longrightarrow> slug True x = [] \<or> last (slug True x) = CHR ''-''"
proof (induction x rule: rev_induct)
  case (snoc c x)
  then show ?case by (cases "x = []") (auto simp: slug_append)
qed simp

lemma slug_labels: "list_all label_c t \<Longrightarrow> slug d t = t"
  by (induction t arbitrary: d) auto

text \<open>What follows the last dash of the text survives as what follows the last dash of the slug.\<close>

lemma slug_segment:
  assumes "list_all label_c t" "t \<noteq> []"
  obtains y where "slug True (x @ ''-'' @ t) = y @ t" "y = [] \<or> last y = CHR ''-''"
proof
  have "slug True (x @ ''-'' @ t) = slug True (x @ ''-'') @ slug True t"
    using slug_append [of True "x @ ''-''" t] by (simp add: label_c_def class_defs)
  then show "slug True (x @ ''-'' @ t) = slug True (x @ ''-'') @ t"
    using assms(1) by (simp add: slug_labels)
  show "slug True (x @ ''-'') = [] \<or> last (slug True (x @ ''-'')) = CHR ''-''"
    by (rule slug_nonlabel_end) (simp_all add: label_c_def class_defs)
qed

lemma trim_right_byte_split:
  obtains v where "s = trim_right_byte c s @ v" "set v \<subseteq> {c}"
    "trim_right_byte c s = [] \<or> last (trim_right_byte c s) \<noteq> c"
proof
  let ?v = "rev (takeWhile (\<lambda>x. x = c) (rev s))"
  show "s = trim_right_byte c s @ ?v"
    unfolding trim_right_byte_def by (metis rev_append rev_rev_ident takeWhile_dropWhile_id)
  show "set ?v \<subseteq> {c}" by (auto dest: set_takeWhileD)
  show "trim_right_byte c s = [] \<or> last (trim_right_byte c s) \<noteq> c"
    unfolding trim_right_byte_def using hd_dropWhile_not [of "\<lambda>x. x = c" "rev s"]
    by (auto simp: last_rev)
qed

lemma trim_right_byte_id: "s = [] \<or> last s \<noteq> c \<Longrightarrow> trim_right_byte c s = s"
  by (cases s rule: rev_cases) (auto simp: trim_right_byte_def)

text \<open>The normal form the sanitizer maps every ASCII text to.\<close>

definition sane :: "string \<Rightarrow> bool" where
  "sane t \<longleftrightarrow> list_all (\<lambda>c. label_c c \<or> c = CHR ''-'') t \<and> dash_runs t \<and> length t \<le> 63
     \<and> (t = [] \<or> hd t \<noteq> CHR ''-'' \<and> last t \<noteq> CHR ''-'')"

lemma sane_trim_right:
  assumes "list_all (\<lambda>c. label_c c \<or> c = CHR ''-'') t" "dash_runs t" "t = [] \<or> hd t \<noteq> CHR ''-''"
    and "length t \<le> 63"
  shows "sane (trim_right_byte CHR ''-'' t)"
proof -
  obtain v where v: "t = trim_right_byte CHR ''-'' t @ v"
    "trim_right_byte CHR ''-'' t = [] \<or> last (trim_right_byte CHR ''-'' t) \<noteq> CHR ''-''"
    by (rule trim_right_byte_split)
  let ?r = "trim_right_byte CHR ''-'' t"
  have "list_all (\<lambda>c. label_c c \<or> c = CHR ''-'') ?r" using assms(1) v(1) by (metis list_all_append)
  moreover have "dash_runs ?r" using assms(2) v(1) dash_runs_append by metis
  moreover have "length ?r \<le> 63" using assms(4) v(1) by (metis length_append le_add1 le_trans)
  moreover have "?r = [] \<or> hd ?r \<noteq> CHR ''-''" using assms(3) v(1) by (metis hd_append2 Nil_is_append_conv)
  ultimately show ?thesis using v(2) by (auto simp: sane_def)
qed

lemma sanitize_sane: "all_ascii s \<Longrightarrow> sane (sanitize u s)"
proof -
  assume s: "all_ascii s"
  let ?t = "slug True (map lower_c s)"
  have t: "list_all (\<lambda>c. label_c c \<or> c = CHR ''-'') ?t" "dash_runs ?t" "?t = [] \<or> hd ?t \<noteq> CHR ''-''"
    using slug_chars slug_runs by auto
  then have dw: "dropWhile (\<lambda>x. x = CHR ''-'') ?t = ?t" by (intro dropWhile_none) auto
  let ?r = "trim_byte CHR ''-'' ?t"
  obtain v where v: "?t = ?r @ v" "?r = [] \<or> last ?r \<noteq> CHR ''-''"
    unfolding trim_byte_def dw by (rule trim_right_byte_split)
  have r: "list_all (\<lambda>c. label_c c \<or> c = CHR ''-'') ?r" "dash_runs ?r" "?r = [] \<or> hd ?r \<noteq> CHR ''-''"
    using t v(1) by (metis list_all_append, metis dash_runs_append, metis hd_append2 Nil_is_append_conv)
  show ?thesis
  proof (cases "63 < length ?r")
    case True
    have "dash_runs (take 63 ?r)" using r(2) by (metis append_take_drop_id dash_runs_append)
    moreover have "take 63 ?r = [] \<or> hd (take 63 ?r) \<noteq> CHR ''-''" using r(3) by (cases ?r) auto
    ultimately have "sane (trim_right_byte CHR ''-'' (take 63 ?r))"
      using list_all_take [OF r(1)] by (intro sane_trim_right) auto
    with True show ?thesis by (simp add: sanitize_ascii [OF s])
  next
    case False
    with r v(2) show ?thesis by (auto simp: sanitize_ascii [OF s] sane_def)
  qed
qed

lemma sane_ascii: "sane t \<Longrightarrow> all_ascii t"
  by (auto simp: sane_def list_all_iff label_c_def class_defs)

lemma sane_lower: "sane t \<Longrightarrow> map lower_c t = t"
  by (rule map_idI) (auto simp: sane_def list_all_iff label_c_def lower_c_def class_defs)

lemma sanitize_of_sane: "sane t \<Longrightarrow> sanitize u t = t"
proof -
  assume t: "sane t"
  then have "slug True t = t" by (intro slug_id) (auto simp: sane_def)
  moreover have "trim_byte CHR ''-'' t = t"
    using t dropWhile_none [of t "\<lambda>x. x = CHR ''-''"]
    by (auto simp: trim_byte_def sane_def trim_right_byte_id)
  ultimately show ?thesis
    using t by (simp add: sanitize_ascii [OF sane_ascii [OF t]] sane_lower) (simp add: sane_def)
qed

lemma label_c_lower: "is_letter_c c \<or> is_digit_c c \<Longrightarrow> label_c (lower_c c)"
  by (auto simp: label_c_def lower_c_def class_defs)

lemma slug_keeps: "c \<in> set s \<Longrightarrow> label_c c \<Longrightarrow> c \<in> set (slug d s)"
  by (induction d s rule: slug.induct) auto

lemma trim_right_byte_keeps: "x \<in> set s \<Longrightarrow> x \<noteq> c \<Longrightarrow> x \<in> set (trim_right_byte c s)"
proof -
  assume x: "x \<in> set s" "x \<noteq> c"
  obtain v where "s = trim_right_byte c s @ v" "set v \<subseteq> {c}" by (rule trim_right_byte_split)
  with x show ?thesis by (metis UnE set_append singletonD subsetD)
qed

lemma dropWhile_keeps: "x \<in> set s \<Longrightarrow> \<not> P x \<Longrightarrow> x \<in> set (dropWhile P s)"
  by (induction s) auto

lemma sane_label: "sane t \<Longrightarrow> t \<noteq> [] \<Longrightarrow> dns_label t"
  unfolding sane_def dns_label_def list_all_iff using hd_in_set last_in_set by blast

lemma sanitize_nonempty:
  assumes s: "all_ascii s" and c: "c \<in> set s" "is_letter_c c \<or> is_digit_c c"
  shows "sanitize u s \<noteq> []"
proof -
  let ?t = "slug True (map lower_c s)"
  have l: "label_c (lower_c c)" using c(2) by (rule label_c_lower)
  then have "lower_c c \<in> set ?t" using c(1) by (intro slug_keeps) auto
  with l have r: "lower_c c \<in> set (trim_byte CHR ''-'' ?t)"
    unfolding trim_byte_def by (intro trim_right_byte_keeps dropWhile_keeps) (auto dest: label_c_not_dash)
  show ?thesis
  proof (cases "63 < length (trim_byte CHR ''-'' ?t)")
    case False
    with r show ?thesis by (auto simp: sanitize_ascii [OF s])
  next
    case True
    let ?r = "trim_byte CHR ''-'' ?t"
    have dw: "dropWhile (\<lambda>x. x = CHR ''-'') ?t = ?t"
      using slug_runs [of True "map lower_c s"] by (intro dropWhile_none) auto
    obtain v where v: "?t = ?r @ v" unfolding trim_byte_def dw by (rule trim_right_byte_split)
    have "hd ?r \<noteq> CHR ''-''"
      using slug_runs [of True "map lower_c s"] v r by (cases ?r) auto
    then have "hd ?r \<in> set (trim_right_byte CHR ''-'' (take 63 ?r))"
      using True by (intro trim_right_byte_keeps) (cases ?r, auto)+
    with True show ?thesis by (auto simp: sanitize_ascii [OF s])
  qed
qed

lemma service_label_chars:
  "0 \<le> r \<Longrightarrow> list_all label_c (service_label r) \<and> is_lower_c (hd (service_label r)) \<and> service_label r \<noteq> []"
  using service_name_cases [of r] itoa_nat_digits [of r]
  by (auto simp: service_label_def label_c_def class_defs list_all_iff)

lemma label_c_ascii: "label_c c \<Longrightarrow> ascii c"
  by (auto simp: label_c_def class_defs)

lemma service_label_ascii: "0 \<le> r \<Longrightarrow> all_ascii (service_label r)"
  using service_label_chars [of r] by (auto simp: list_all_iff label_c_ascii)

lemma dash_ascii [simp]: "ascii CHR ''-''"
  by (simp add: ascii_def)

lemma base_identifier_ascii_default:
  "map_get (overrides cfg) (pf_port pf) = None \<Longrightarrow> all_ascii (remote_host pf) \<Longrightarrow>
   all_ascii (resource pf) \<Longrightarrow> all_ascii (base_identifier pf cfg)"
  by (simp add: base_identifier_def itoa_ascii) (simp add: ascii_def)

text \<open>The two texts \<open>Generate\<close> sanitizes.\<close>

definition label_text :: "port_forward \<Rightarrow> config \<Rightarrow> bool \<Rightarrow> string" where
  "label_text pf cfg suffixed =
     base_identifier pf cfg @ ''-'' @
       (if suffixed then service_label (remote_port pf) @ ''-'' @ itoa (pf_port pf)
        else service_label (remote_port pf))"

lemma generate_label_text:
  "generate_label u pf cfg act =
     sanitize u (label_text pf cfg (sanitize u (label_text pf cfg False) \<in> set act))"
  by (simp add: generate_label_def label_text_def Let_def)

lemma label_text_ascii:
  "all_ascii (base_identifier pf cfg) \<Longrightarrow> 0 \<le> remote_port pf \<Longrightarrow> all_ascii (label_text pf cfg b)"
  using service_label_ascii [of "remote_port pf"] itoa_ascii [of "pf_port pf"]
  by (simp add: label_text_def)

lemma label_dns:
  assumes "all_ascii (base_identifier pf cfg)" and "0 \<le> remote_port pf"
  shows "dns_label (generate_label u pf cfg activeNames)"
proof -
  have n: "sanitize u (label_text pf cfg b) \<noteq> []" for b
    using label_text_ascii [OF assms]
  proof (rule sanitize_nonempty)
    show "hd (service_label (remote_port pf)) \<in> set (label_text pf cfg b)"
      using service_label_chars [OF assms(2)] by (auto simp: label_text_def)
    show "is_letter_c (hd (service_label (remote_port pf))) \<or> is_digit_c (hd (service_label (remote_port pf)))"
      using service_label_chars [OF assms(2)] by (simp add: is_letter_c_def)
  qed
  show ?thesis unfolding generate_label_text
    by (rule sane_label [OF sanitize_sane [OF label_text_ascii [OF assms]] n])
qed

text \<open>
  C20: whatever the forward, as long as its identifier is ASCII text, the generated label is a DNS
  label: 1 to 63 lower-case letters, digits and dashes, with no dash at either end.
\<close>

theorem generate_label_dns:
  assumes "all_ascii (base_identifier pf cfg)" and "0 \<le> remote_port pf"
  shows "dns_label (generate_label u pf cfg activeNames)"
  by (rule label_dns [OF assms])

definition demo_forward :: port_forward where
  "demo_forward = \<lparr>pf_port = 15432, remote_host = ''DB.Prod_internal'', remote_port = 5432,
     resource = '''', pid = 1, cmdline = '''', tool = ''ssh''\<rparr>"

theorem generate_label_dns_witness:
  "dns_label (generate_label demo_u demo_forward default_config [])"
  by (rule generate_label_dns)
     (simp_all add: demo_forward_def base_identifier_def default_config_def map_get_def ascii_def)

text \<open>
  Sanitizing twice is sanitizing once, for every ASCII text; so a label that is already one is
  used as it is.
\<close>

theorem sanitize_idem:
  assumes "all_ascii s"
  shows "sanitize u (sanitize u s) = sanitize u s"
  by (rule sanitize_of_sane [OF sanitize_sane [OF assms]])

theorem sanitize_idem_witness:
  "sanitize demo_u (sanitize demo_u ''My_Host..1'') = sanitize demo_u ''My_Host..1''"
  by (rule sanitize_idem) (simp add: ascii_def)

section \<open>Freshness\<close>

definition last_segment :: "string \<Rightarrow> string" where
  "last_segment s = rev (takeWhile (\<lambda>c. c \<noteq> CHR ''-'') (rev s))"

lemma last_segment_append:
  assumes "CHR ''-'' \<notin> set t" "y = [] \<or> last y = CHR ''-''"
  shows "last_segment (y @ t) = t"
proof -
  have "takeWhile (\<lambda>c. c \<noteq> CHR ''-'') (rev t @ rev y) = rev t @ takeWhile (\<lambda>c. c \<noteq> CHR ''-'') (rev y)"
    using assms(1) by (intro takeWhile_append2) auto
  moreover have "takeWhile (\<lambda>c. c \<noteq> CHR ''-'') (rev y) = []"
    using assms(2) by (cases y rule: rev_cases) auto
  ultimately show ?thesis by (simp add: last_segment_def)
qed

lemma slug_length: "length (slug d s) \<le> length s"
  by (induction d s rule: slug.induct) auto

lemma trim_byte_inner:
  "(s = [] \<or> hd s \<noteq> c) \<Longrightarrow> (s = [] \<or> last s \<noteq> c) \<Longrightarrow> trim_byte c s = s"
  by (auto simp: trim_byte_def dropWhile_none trim_right_byte_id)

text \<open>A text that is not truncated keeps its last segment.\<close>

lemma sanitize_last_segment:
  assumes "all_ascii (x @ ''-'' @ t)" "list_all label_c t" "t \<noteq> []" "length (x @ ''-'' @ t) \<le> 63"
  shows "last_segment (sanitize u (x @ ''-'' @ t)) = t"
proof -
  let ?s = "map lower_c x @ ''-'' @ t"
  have low: "map lower_c (x @ ''-'' @ t) = ?s"
    using assms(2) by (auto simp: lower_c_def label_c_def class_defs list_all_iff intro!: map_idI)
  obtain y where y: "slug True ?s = y @ t" "y = [] \<or> last y = CHR ''-''"
    by (rule slug_segment [OF assms(2,3)])
  have nd: "CHR ''-'' \<notin> set t" using assms(2) label_c_not_dash by (auto simp: list_all_iff)
  have "trim_byte CHR ''-'' (y @ t) = y @ t"
  proof (rule trim_byte_inner)
    show "y @ t = [] \<or> hd (y @ t) \<noteq> CHR ''-''" using slug_runs [of True ?s] y(1) by auto
    show "y @ t = [] \<or> last (y @ t) \<noteq> CHR ''-''" using nd assms(3) by (cases t rule: rev_cases) auto
  qed
  moreover have "length (y @ t) \<le> 63"
    using slug_length [of True ?s] assms(4) y(1) by simp
  ultimately have "sanitize u (x @ ''-'' @ t) = y @ t"
    by (simp add: sanitize_ascii [OF assms(1)] low y(1) del: map_append append.simps)
  then show ?thesis using last_segment_append [OF nd y(2)] by simp
qed

definition fits :: "port_forward \<Rightarrow> config \<Rightarrow> bool" where
  "fits pf cfg \<longleftrightarrow> all_ascii (base_identifier pf cfg) \<and> 0 \<le> remote_port pf \<and> 0 < pf_port pf
     \<and> length (label_text pf cfg True) \<le> 63"

lemma label_text_last_segment:
  assumes "fits pf cfg"
  shows "last_segment (sanitize u (label_text pf cfg True)) = itoa (pf_port pf)"
    and "last_segment (sanitize u (label_text pf cfg False)) = service_label (remote_port pf)"
proof -
  let ?b = "base_identifier pf cfg" and ?s = "service_label (remote_port pf)" and ?p = "itoa (pf_port pf)"
  have p: "list_all label_c ?p" using assms itoa_nat_digits [of "pf_port pf"]
    by (auto simp: fits_def label_c_def list_all_iff)
  have s: "list_all label_c ?s" "?s \<noteq> []" using assms service_label_chars by (auto simp: fits_def)
  have a: "all_ascii (label_text pf cfg b)" for b using assms label_text_ascii by (simp add: fits_def)
  have "label_text pf cfg True = (?b @ ''-'' @ ?s) @ ''-'' @ ?p" by (simp add: label_text_def)
  then show "last_segment (sanitize u (label_text pf cfg True)) = ?p"
    using sanitize_last_segment [of "?b @ ''-'' @ ?s" ?p u] a [of True] p assms
    by (simp add: fits_def)
  have "label_text pf cfg False = ?b @ ''-'' @ ?s" by (simp add: label_text_def)
  then show "last_segment (sanitize u (label_text pf cfg False)) = ?s"
    using sanitize_last_segment [of ?b ?s u] a [of False] s assms
    by (simp add: fits_def label_text_def)
qed

lemma itoa_not_service: "0 \<le> r \<Longrightarrow> 0 \<le> p \<Longrightarrow> itoa p \<noteq> service_label r"
proof
  assume a: "0 \<le> r" "0 \<le> p" "itoa p = service_label r"
  then have "is_digit_c (hd (service_label r))"
    using itoa_nat_digits [of p] itoa_nonempty [of p] by (metis hd_in_set list_all_iff)
  with service_label_chars [OF a(1)] show False by (auto simp: class_defs)
qed

lemma label_fresh:
  assumes fit: "fits pf cfg"
    and act: "\<forall>n \<in> set activeNames. \<exists>pf' cfg' act'. n = generate_label u pf' cfg' act'
      \<and> fits pf' cfg' \<and> pf_port pf' \<noteq> pf_port pf"
  shows "generate_label u pf cfg activeNames \<notin> set activeNames"
proof (cases "sanitize u (label_text pf cfg False) \<in> set activeNames")
  case False
  then show ?thesis by (simp add: generate_label_text)
next
  case True
  show ?thesis
  proof
    assume "generate_label u pf cfg activeNames \<in> set activeNames"
    with act True obtain pf' cfg' b where
      eq: "sanitize u (label_text pf cfg True) = sanitize u (label_text pf' cfg' b)"
      and fit': "fits pf' cfg'" and ne: "pf_port pf' \<noteq> pf_port pf"
      unfolding generate_label_text by (metis (full_types))
    from eq have "itoa (pf_port pf) = last_segment (sanitize u (label_text pf' cfg' b))"
      using label_text_last_segment(1) [OF fit] by metis
    then have "itoa (pf_port pf) = itoa (pf_port pf') \<or> itoa (pf_port pf) = service_label (remote_port pf')"
      using label_text_last_segment [OF fit'] by (cases b) auto
    then show False
      using ne fit fit' itoa_inj itoa_not_service by (auto simp: fits_def)
  qed
qed

text \<open>
  C18: the collision suffix works: when no text is long enough to be truncated, and every active
  name was generated for a forward on another local port, the generated name is not among the
  active ones, whatever else was active when they were generated.
\<close>

theorem generate_label_fresh:
  assumes fit: "fits pf cfg"
    and act: "\<forall>n \<in> set activeNames. \<exists>pf' cfg' act'. n = generate_label u pf' cfg' act'
      \<and> fits pf' cfg' \<and> pf_port pf' \<noteq> pf_port pf"
  shows "generate_label u pf cfg activeNames \<notin> set activeNames"
  by (rule label_fresh [OF assms])

definition demo_forward2 :: port_forward where
  "demo_forward2 = demo_forward\<lparr>pf_port := 15433\<rparr>"

lemma demo_fits: "fits demo_forward default_config" "fits demo_forward2 default_config"
  by (simp_all add: fits_def demo_forward_def demo_forward2_def base_identifier_def default_config_def
      map_get_def label_text_def service_label_def service_name_def service_name_by_port_def ascii_def
      itoa_def nat_dec.simps)

theorem generate_label_fresh_witness:
  "generate_label demo_u demo_forward2 default_config [generate_label demo_u demo_forward default_config []]
     \<notin> set [generate_label demo_u demo_forward default_config []]"
  using demo_fits
  by (intro generate_label_fresh ballI exI [of _ demo_forward] exI [of _ default_config] exI [of _ "[]"])
     (auto simp: demo_forward2_def demo_fits, simp add: demo_forward_def)

section \<open>What is left of the suffix\<close>

lemma dash_runs_suffix: "dash_runs (s @ t) \<Longrightarrow> dash_runs t"
proof (induction s)
  case (Cons a s)
  then show ?case by (cases "s @ t") auto
qed simp

lemma trim_right_byte_append:
  "trim_right_byte c (x @ y)
     = (if trim_right_byte c y = [] then trim_right_byte c x else x @ trim_right_byte c y)"
  by (auto simp: trim_right_byte_def dropWhile_append dropWhile_eq_Nil_conv)

text \<open>Dashes are single, so that at most one is taken off.\<close>

lemma trim_right_byte_one:
  assumes "dash_runs t"
  shows "length t \<le> Suc (length (trim_right_byte CHR ''-'' t))"
proof -
  obtain v where v: "t = trim_right_byte CHR ''-'' t @ v" "set v \<subseteq> {CHR ''-''}" by (rule trim_right_byte_split)
  have "dash_runs v" using assms v(1) dash_runs_suffix by metis
  with v(2) have "length v \<le> 1" by (cases v rule: dash_runs.cases) auto
  moreover have "length t = length (trim_right_byte CHR ''-'' t) + length v" using v(1) by (metis length_append)
  ultimately show ?thesis by simp
qed

definition cut_label :: "string \<Rightarrow> string" where
  "cut_label t = (if 63 < length t then trim_right_byte CHR ''-'' (take 63 t) else t)"

lemma cut_label_suffix:
  assumes D: "D \<noteq> []" "last D \<noteq> CHR ''-''" "dash_runs D" and p: "p \<noteq> []" "CHR ''-'' \<notin> set p"
  shows "cut_label (D @ ''-'' @ p) =
    (if 62 \<le> length (cut_label D) then cut_label D
     else cut_label D @ ''-'' @ take (62 - length (cut_label D)) p)"
proof -
  have id: "trim_right_byte CHR ''-'' D = D" using D by (simp add: trim_right_byte_id)
  consider "length D < 62" | "length D = 62" | "length D = 63" | "63 < length D" by linarith
  then show ?thesis
  proof cases
    case 1
    let ?q = "take (62 - length D) p"
    have q: "?q \<noteq> []" "CHR ''-'' \<notin> set ?q" using 1 p by (auto dest: in_set_takeD)
    then have "last ?q \<noteq> CHR ''-''" by (metis last_in_set)
    then have "trim_right_byte CHR ''-'' (D @ ''-'' @ ?q) = D @ ''-'' @ ?q"
      using q(1) by (intro trim_right_byte_id) simp
    moreover have "take 63 (D @ ''-'' @ p) = D @ ''-'' @ ?q" using 1 by (simp add: take_Cons')
    ultimately show ?thesis using 1 by (simp add: cut_label_def)
  next
    case 2
    moreover have "trim_right_byte CHR ''-'' (D @ ''-'') = D"
      using id trim_right_byte_append [of "CHR ''-''" D "''-''"] by (simp add: trim_right_byte_def)
    moreover have "0 < length p" using p(1) by simp
    ultimately show ?thesis by (simp add: cut_label_def)
  next
    case 3
    then show ?thesis using id by (simp add: cut_label_def)
  next
    case 4
    have "dash_runs (take 63 D)" using D(3) by (metis append_take_drop_id dash_runs_append)
    then have "62 \<le> length (cut_label D)" using trim_right_byte_one [of "take 63 D"] 4 by (simp add: cut_label_def)
    with 4 show ?thesis by (simp add: cut_label_def)
  qed
qed

lemma label_text_cut:
  assumes "all_ascii (base_identifier pf cfg)" and "0 \<le> remote_port pf" and "0 \<le> pf_port pf"
  obtains D where "D \<noteq> []" "last D \<noteq> CHR ''-''" "dash_runs D"
    "sanitize u (label_text pf cfg False) = cut_label D"
    "sanitize u (label_text pf cfg True) = cut_label (D @ ''-'' @ itoa (pf_port pf))"
proof -
  let ?b = "map lower_c (base_identifier pf cfg)" and ?s = "service_label (remote_port pf)"
    and ?p = "itoa (pf_port pf)"
  have s: "list_all label_c ?s" "?s \<noteq> []" using assms(2) service_label_chars by auto
  have p: "list_all label_c ?p" "?p \<noteq> []" using assms(3) itoa_nat_digits [of "pf_port pf"] itoa_nonempty
    by (auto simp: label_c_def list_all_iff)
  have low: "map lower_c t = t" if "list_all label_c t" for t
    using that by (auto simp: lower_c_def label_c_def class_defs list_all_iff intro!: map_idI)
  have dash: "lower_c CHR ''-'' = CHR ''-''" "\<not> label_c CHR ''-''" by (simp_all add: lower_c_def label_c_def class_defs)
  obtain y where y: "slug True (?b @ ''-'' @ ?s) = y @ ?s" by (rule slug_segment [OF s])
  let ?D = "y @ ?s"
  have "last ?s \<in> set ?s" using s(2) by simp
  then have last: "last ?D \<noteq> CHR ''-''" "label_c (last ?s)"
    using s label_c_not_dash by (auto simp: list_all_iff)
  have runs: "dash_runs ?D" "hd ?D \<noteq> CHR ''-''" using slug_runs [of True "?b @ ''-'' @ ?s"] y s(2) by auto
  have t1: "slug True (map lower_c (label_text pf cfg False)) = ?D"
    using y by (simp add: label_text_def low [OF s(1)] dash)
  have "slug True ((?b @ ''-'' @ ?s) @ ''-'' @ ?p) = ?D @ ''-'' @ ?p"
    unfolding slug_append [of True "?b @ ''-'' @ ?s"] y using s(2) last(2) dash(2) slug_labels [OF p(1)] by simp
  then have t2: "slug True (map lower_c (label_text pf cfg True)) = ?D @ ''-'' @ ?p"
    by (simp add: label_text_def low [OF s(1)] low [OF p(1)] dash)
  have "last ?p \<in> set ?p" using p(2) by simp
  then have "last ?p \<noteq> CHR ''-''" using p label_c_not_dash by (auto simp: list_all_iff)
  then have tr: "trim_byte CHR ''-'' ?D = ?D" "trim_byte CHR ''-'' (?D @ ''-'' @ ?p) = ?D @ ''-'' @ ?p"
    using runs(2) last(1) p(2) s(2) by (auto intro!: trim_byte_inner simp: hd_append2 simp flip: append_assoc)
  show thesis
    using that [of ?D] last(1) runs(1) s(2) tr t1 t2
      sanitize_ascii [OF label_text_ascii [OF assms(1,2)]] by (simp add: cut_label_def)
qed

text \<open>
  C29: what the collision suffix can do. When the name of a forward is taken, \<open>Generate\<close> keeps that name
  and appends a dash and as many digits of the local port as fit into 63 bytes; and when the name has 62
  bytes or more, none fit, and \<open>Generate\<close> returns the very name it has just found taken.
\<close>

theorem collision_suffix_cut:
  assumes "all_ascii (base_identifier pf cfg)" and "0 \<le> remote_port pf" and "0 \<le> pf_port pf"
    and "generate_label u pf cfg [] \<in> set activeNames"
  shows "generate_label u pf cfg activeNames =
    (let name = generate_label u pf cfg []
     in if 62 \<le> length name then name
        else name @ ''-'' @ take (62 - length name) (itoa (pf_port pf)))"
proof -
  obtain D where D: "D \<noteq> []" "last D \<noteq> CHR ''-''" "dash_runs D"
    "sanitize u (label_text pf cfg False) = cut_label D"
    "sanitize u (label_text pf cfg True) = cut_label (D @ ''-'' @ itoa (pf_port pf))"
    by (rule label_text_cut [OF assms(1-3)])
  have "CHR ''-'' \<notin> set (itoa (pf_port pf))"
    using assms(3) itoa_nat_digits [of "pf_port pf"] by (auto simp: list_all_iff class_defs)
  from cut_label_suffix [OF D(1-3) itoa_nonempty this] D(4,5) assms(4)
  show ?thesis by (simp add: generate_label_text Let_def)
qed

text \<open>The witness: a host of 63 letters; the two forwards to it get one name.\<close>

definition long_forward :: "int \<Rightarrow> port_forward" where
  "long_forward p = \<lparr>pf_port = p, remote_host = replicate 63 CHR ''a'', remote_port = 80,
     resource = '''', pid = 1, cmdline = '''', tool = ''ssh''\<rparr>"

lemma slug_replicate: "slug d (replicate n CHR ''a'' @ s) = replicate n CHR ''a'' @ slug (d \<and> n = 0) s"
  by (induction n arbitrary: d) (auto simp: label_c_def class_defs)

lemma sanitize_long:
  "all_ascii s \<Longrightarrow> sanitize u (replicate 63 CHR ''a'' @ s) = replicate 63 CHR ''a''"
proof -
  assume s: "all_ascii s"
  let ?a = "replicate 63 CHR ''a''" and ?r = "slug False (map lower_c s)"
  have asc: "all_ascii (?a @ s)" using s by (simp add: list_all_iff ascii_def)
  have t: "slug True (map lower_c (?a @ s)) = ?a @ ?r"
    by (simp add: slug_replicate lower_c_def is_upper_c_def del: replicate.simps)
  have id: "trim_right_byte CHR ''-'' ?a = ?a" by (rule trim_right_byte_id) (simp add: last_replicate)
  then have "trim_right_byte CHR ''-'' (?a @ ?r) = ?a @ trim_right_byte CHR ''-'' ?r"
    by (simp add: trim_right_byte_append del: replicate.simps)
  moreover have "dropWhile (\<lambda>x. x = CHR ''-'') (?a @ ?r) = ?a @ ?r" by (rule dropWhile_none) simp
  ultimately show ?thesis
    using id unfolding sanitize_ascii [OF asc] t trim_byte_def Let_def by (simp del: replicate.simps)
qed

lemma long_label: "generate_label u (long_forward p) default_config [] = replicate 63 CHR ''a''"
  by (simp add: generate_label_text label_text_def long_forward_def base_identifier_def map_get_def
      default_config_def sanitize_long service_label_ascii itoa_ascii del: replicate.simps)

theorem collision_suffix_cut_witness:
  "let first = generate_label demo_u (long_forward 8081) default_config [];
       second = generate_label demo_u (long_forward 8082) default_config [first]
   in second = first \<and> length first = 63"
proof -
  have "all_ascii (base_identifier (long_forward 8082) default_config)"
    by (simp add: base_identifier_def long_forward_def default_config_def map_get_def list_all_iff ascii_def)
  moreover have "0 \<le> remote_port (long_forward 8082)" "0 \<le> pf_port (long_forward 8082)"
    by (simp_all add: long_forward_def)
  ultimately show ?thesis
    using collision_suffix_cut [of "long_forward 8082" default_config demo_u "[replicate 63 CHR ''a'']"]
    by (simp add: long_label del: replicate.simps)
qed

end
