(* ===== verification/Scanner_Interface.thy ===== *)
theory Scanner_Interface
  imports Scanner_Parse
begin

text \<open>
  The \<open>Scanner\<close> interface of \<open>internal/scanner/scanner.go\<close> with the part of \<open>bufio.Scanner\<close> both
  platforms use. What the daemon may rely on, whatever the platform, is the locale
  \<open>port_scanner\<close>; it is interpreted on both implementations.
\<close>

datatype scan_error = ScanCommand string

text \<open>
  \<open>bufio.Scanner\<close> over lines: the newline and one carriage return before it are dropped, no empty
  last line is reported, and a line that does not fit the 64 KiB buffer ends the scan (its error
  is never looked at by the callers).
\<close>

definition max_token :: nat where
  "max_token = 65536"

definition drop_cr :: "string \<Rightarrow> string" where
  "drop_cr l = (if l \<noteq> [] \<and> last l = CHR 0x0D then butlast l else l)"

definition scan_lines :: "string \<Rightarrow> string list" where
  "scan_lines out =
     (let ls = split_on CHR 0x0A out;
          ls' = (if last ls = [] then butlast ls else ls)
      in map drop_cr (takeWhile (\<lambda>l. length l < max_token) ls'))"

locale port_scanner =
  fixes scan :: "os_env \<Rightarrow> world \<Rightarrow> (scan_error + port_forward list) \<times> world"
  assumes scan_port: "scan e w = (Inr pfs, w') \<Longrightarrow> pf \<in> set pfs \<Longrightarrow> 0 < pf_port pf"
    and scan_tool: "scan e w = (Inr pfs, w') \<Longrightarrow> pf \<in> set pfs \<Longrightarrow>
      tool pf = ''ssh'' \<and> classify_ssh (unicode_tables e) (cmdline pf) \<or>
      tool pf = ''kubectl'' \<and> \<not> classify_ssh (unicode_tables e) (cmdline pf)
        \<and> classify_kubectl (unicode_tables e) (cmdline pf)"
    and scan_info: "scan e w = (Inr pfs, w') \<Longrightarrow> pf \<in> set pfs \<Longrightarrow>
      (remote_host pf, remote_port pf, resource pf)
        = parse_remote_info (unicode_tables e) (tool pf) (cmdline pf) (pf_port pf)"
    and scan_quiet: "scan e w = (r, w') \<Longrightarrow> quietly e w w'"
begin

lemma scan_remote_port_nonneg: "scan e w = (Inr pfs, w') \<Longrightarrow> pf \<in> set pfs \<Longrightarrow> 0 \<le> remote_port pf"
proof -
  assume s: "scan e w = (Inr pfs, w')" "pf \<in> set pfs"
  let ?u = "unicode_tables e"
  have i: "(remote_host pf, remote_port pf, resource pf)
      = parse_remote_info ?u (tool pf) (cmdline pf) (pf_port pf)" using s by (rule scan_info)
  have p: "0 \<le> pf_port pf" using scan_port [OF s] by simp
  from scan_tool [OF s] consider "tool pf = ''ssh''" | "tool pf = ''kubectl''" by blast
  then show ?thesis
  proof cases
    case 1
    obtain h q where hq: "parse_ssh_info ?u (cmdline pf) (pf_port pf) = (h, q)"
      by (cases "parse_ssh_info ?u (cmdline pf) (pf_port pf)")
    then have "0 \<le> q" using parse_ssh_fields_result by (fastforce simp: parse_ssh_info_def)
    with 1 i hq show ?thesis by (simp add: parse_remote_info_def)
  next
    case 2
    have nn: "0 \<le> snd (parse_kubectl_info (cmdline pf) (pf_port pf))"
      by (rule parse_kubectl_info_nonneg [OF p])
    with 2 i show ?thesis
      by (cases "parse_kubectl_info (cmdline pf) (pf_port pf)") (simp add: parse_remote_info_def)
  qed
qed

text \<open>A forward has a remote host or a resource, never both.\<close>

lemma scan_host_or_resource:
  "scan e w = (Inr pfs, w') \<Longrightarrow> pf \<in> set pfs \<Longrightarrow> remote_host pf = '''' \<or> resource pf = ''''"
  using scan_info [of e w pfs w' pf] scan_tool [of e w pfs w' pf]
  by (auto simp: parse_remote_info_def split: prod.splits)

end

end
