(* ===== verification/Scanner_Linux.thy ===== *)
theory Scanner_Linux
  imports Scanner_Interface
begin

text \<open>
  \<open>internal/scanner/scanner_linux.go\<close>: candidates from the lines of \<open>ss -tlnp\<close>, then the command line
  of each candidate's process from \<open>/proc\<close>.
\<close>

definition is_loopback :: "string \<Rightarrow> bool" where
  "is_loopback addr \<longleftrightarrow>
     has_prefix addr ''127.'' \<or> has_prefix addr ''[::1]'' \<or> has_prefix addr ''::1''"

definition parse_port_linux :: "string \<Rightarrow> int" where
  "parse_port_linux addr =
     (case last_index addr CHR '':'' of
        None \<Rightarrow> 0
      | Some idx \<Rightarrow> fst (atoi (drop (idx + 1) addr)))"

definition parse_pid_from_ss :: "string \<Rightarrow> int" where
  "parse_pid_from_ss field =
     (case index_of field ''pid='' of
        None \<Rightarrow> 0
      | Some idx \<Rightarrow>
          (let rest = drop (idx + length ''pid='') field;
               end_idx = (case index_any rest '',)'' of Some i \<Rightarrow> i | None \<Rightarrow> length rest)
           in fst (atoi (take end_idx rest))))"

text \<open>One line of the loop over the output of \<open>ss\<close>: the candidate's pid and port, unless it is skipped.\<close>

definition ss_candidate :: "string \<Rightarrow> (int \<times> int) option" where
  "ss_candidate line =
     (if has_prefix line ''State'' then None
      else let fs = string_fields line in
        if length fs < 6 then None
        else let localAddr = fs ! 3 in
          if \<not> is_loopback localAddr then None
          else let port = parse_port_linux localAddr in
            if port \<le> 0 then None
            else let procField = fs ! 5 in
              if \<not> contains procField ''kubectl'' \<and> \<not> contains procField ''ssh'' then None
              else let p = parse_pid_from_ss procField in
                if p \<le> 0 then None else Some (p, port))"

definition classify_text :: "unicode \<Rightarrow> string \<Rightarrow> (string \<times> string) option" where
  "classify_text u cmd =
     (if classify_ssh u cmd then Some (cmd, ''ssh'')
      else if classify_kubectl u cmd then Some (cmd, ''kubectl'')
      else None)"

definition classify_cmdline_linux :: "os_env \<Rightarrow> int \<Rightarrow> world \<Rightarrow> (string \<times> string) option \<times> world" where
  "classify_cmdline_linux e p w =
     (case read_proc e (join_path [''/proc'', itoa p, ''cmdline'']) w of
        (None, w1) \<Rightarrow> (None, w1)
      | (Some raw, w1) \<Rightarrow>
          (classify_text (unicode_tables e) (trim_space (replace_byte CHR 0x00 CHR '' '' raw)), w1))"

definition forward_of :: "unicode \<Rightarrow> int \<Rightarrow> int \<Rightarrow> string \<Rightarrow> string \<Rightarrow> port_forward" where
  "forward_of u p port cmd tl_name =
     (case parse_remote_info u tl_name cmd port of
        (rh, rp, res) \<Rightarrow>
          \<lparr>pf_port = port, remote_host = rh, remote_port = rp, resource = res, pid = p,
           cmdline = cmd, tool = tl_name\<rparr>)"

text \<open>The second loop of \<open>Scan\<close>, with the platform's way to get a command line as an argument.\<close>

fun resolve_candidates ::
  "(int \<Rightarrow> world \<Rightarrow> (string \<times> string) option \<times> world) \<Rightarrow> unicode \<Rightarrow> (int \<times> int) list \<Rightarrow> world
    \<Rightarrow> port_forward list \<times> world" where
  "resolve_candidates cl u [] w = ([], w)"
| "resolve_candidates cl u ((p, port) # cs) w =
     (case cl p w of
        (None, w1) \<Rightarrow> resolve_candidates cl u cs w1
      | (Some (cmd, tl_name), w1) \<Rightarrow>
          (case resolve_candidates cl u cs w1 of
             (pfs, w2) \<Rightarrow> (forward_of u p port cmd tl_name # pfs, w2)))"

definition scan_linux :: "os_env \<Rightarrow> world \<Rightarrow> (scan_error + port_forward list) \<times> world" where
  "scan_linux e w =
     (case run_cmd e [''ss'', ''-tlnp''] '''' w of
        ((ok, out), w1) \<Rightarrow>
          if \<not> ok then (Inl (ScanCommand ''ss''), w1)
          else (case resolve_candidates (classify_cmdline_linux e) (unicode_tables e)
                    (List.map_filter ss_candidate (scan_lines out)) w1 of
                  (pfs, w2) \<Rightarrow> (Inr pfs, w2)))"

section \<open>What a scan returns\<close>

lemma classify_text_Some:
  "classify_text u cmd = Some (c, t) \<Longrightarrow>
   c = cmd \<and> (t = ''ssh'' \<and> classify_ssh u c \<or> t = ''kubectl'' \<and> \<not> classify_ssh u c \<and> classify_kubectl u c)"
  by (auto simp: classify_text_def split: if_splits)

lemma forward_of_simps [simp]:
  "pf_port (forward_of u p port cmd t) = port"
  "pid (forward_of u p port cmd t) = p"
  "cmdline (forward_of u p port cmd t) = cmd"
  "tool (forward_of u p port cmd t) = t"
  by (simp_all add: forward_of_def split: prod.splits)

lemma forward_of_info:
  "(remote_host (forward_of u p port cmd t), remote_port (forward_of u p port cmd t),
    resource (forward_of u p port cmd t)) = parse_remote_info u t cmd port"
  by (simp add: forward_of_def split: prod.splits)

lemma resolve_candidates_origin:
  "resolve_candidates cl u cs w = (pfs, w') \<Longrightarrow> pf \<in> set pfs \<Longrightarrow>
   \<exists>p port v cmd t v'. (p, port) \<in> set cs \<and> cl p v = (Some (cmd, t), v') \<and> pf = forward_of u p port cmd t"
proof (induction cl u cs w arbitrary: pfs w' rule: resolve_candidates.induct)
  case (2 cl u p port cs w)
  obtain r w1 where cl: "cl p w = (r, w1)" by (cases "cl p w")
  show ?case
  proof (cases r)
    case None
    with 2 cl show ?thesis by fastforce
  next
    case (Some ct)
    obtain cmd t where ct: "ct = (cmd, t)" by (cases ct)
    obtain pfs' w2 where rec: "resolve_candidates cl u cs w1 = (pfs', w2)"
      by (cases "resolve_candidates cl u cs w1")
    from "2.prems" cl Some ct rec have "pf = forward_of u p port cmd t \<or> pf \<in> set pfs'" by auto
    then show ?thesis
    proof
      assume "pf = forward_of u p port cmd t"
      with cl Some ct show ?thesis by fastforce
    next
      assume "pf \<in> set pfs'"
      with "2.IH"(2) [OF cl [symmetric] Some] ct rec show ?thesis by fastforce
    qed
  qed
qed simp

lemma resolve_candidates_world:
  "(\<And>p v r v'. cl p v = (r, v') \<Longrightarrow> quietly e v v') \<Longrightarrow>
   resolve_candidates cl u cs w = (pfs, w') \<Longrightarrow> quietly e w w'"
proof (induction cs arbitrary: w pfs w')
  case (Cons c cs)
  obtain p port where c: "c = (p, port)" by (cases c)
  obtain r w1 where cl: "cl p w = (r, w1)" by (cases "cl p w")
  have w1: "quietly e w w1" using Cons.prems(1) cl by blast
  obtain pfs' w2 where rec: "resolve_candidates cl u cs w1 = (pfs', w2)"
    by (cases "resolve_candidates cl u cs w1")
  have "quietly e w1 w2"
    using Cons.prems(1) rec by (rule Cons.IH)
  with w1 have "quietly e w w2" by (rule quietly_trans)
  with Cons.prems(2) c cl rec show ?case by (auto split: option.splits prod.splits)
qed simp

lemma ss_candidate_pos: "ss_candidate line = Some (p, port) \<Longrightarrow> 0 < p \<and> 0 < port"
  by (auto simp: ss_candidate_def Let_def split: if_splits)

lemma in_map_filter: "y \<in> set (List.map_filter f xs) \<longleftrightarrow> (\<exists>x \<in> set xs. f x = Some y)"
  by (induction xs) (auto simp: List.map_filter_simps split: option.splits)

lemma scan_linux_origin:
  "scan_linux e w = (Inr pfs, w') \<Longrightarrow> pf \<in> set pfs \<Longrightarrow>
   \<exists>p port cmd t. 0 < p \<and> 0 < port \<and> classify_text (unicode_tables e) cmd = Some (cmd, t)
     \<and> pf = forward_of (unicode_tables e) p port cmd t"
proof -
  assume s: "scan_linux e w = (Inr pfs, w')" "pf \<in> set pfs"
  obtain ok out w1 where r: "run_cmd e [''ss'', ''-tlnp''] '''' w = ((ok, out), w1)"
    by (metis prod.exhaust)
  let ?cs = "List.map_filter ss_candidate (scan_lines out)"
  obtain qs w2 where q: "resolve_candidates (classify_cmdline_linux e) (unicode_tables e) ?cs w1 = (qs, w2)"
    by fastforce
  from s r q have "qs = pfs" by (auto simp: scan_linux_def split: if_splits)
  with q s(2) obtain p port v cmd t v' where o: "(p, port) \<in> set ?cs"
      "classify_cmdline_linux e p v = (Some (cmd, t), v')" "pf = forward_of (unicode_tables e) p port cmd t"
    using resolve_candidates_origin by metis
  from o(1) have "0 < p" "0 < port" by (auto simp: in_map_filter dest: ss_candidate_pos)
  moreover from o(2) have "classify_text (unicode_tables e) cmd = Some (cmd, t)"
    by (auto simp: classify_cmdline_linux_def split: prod.splits option.splits dest: classify_text_Some)
  ultimately show ?thesis using o(3) by blast
qed

lemma scan_linux_world: "scan_linux e w = (r, w') \<Longrightarrow> quietly e w w'"
proof -
  assume s: "scan_linux e w = (r, w')"
  have cl: "quietly e v v'"
    if "classify_cmdline_linux e p v = (q, v')" for p v q v'
    using that by (auto simp: classify_cmdline_linux_def read_proc_def split: prod.splits option.splits)
  obtain ok out w1 where r: "run_cmd e [''ss'', ''-tlnp''] '''' w = ((ok, out), w1)"
    by (metis prod.exhaust)
  then have w1: "quietly e w w1" by (rule run_cmd_quietly)
  obtain qs w2 where q: "resolve_candidates (classify_cmdline_linux e) (unicode_tables e)
      (List.map_filter ss_candidate (scan_lines out)) w1 = (qs, w2)" by fastforce
  have "quietly e w1 w2"
    using cl q by (rule resolve_candidates_world)
  with w1 have "quietly e w w2" by (rule quietly_trans)
  with s r q w1 show ?thesis by (auto simp: scan_linux_def split: if_splits)
qed

interpretation linux_scan: port_scanner scan_linux
proof
  fix e w pfs w' pf assume s: "scan_linux e w = (Inr pfs, w')" "pf \<in> set pfs"
  from scan_linux_origin [OF s] obtain p port cmd t where
    o: "0 < port" "classify_text (unicode_tables e) cmd = Some (cmd, t)"
      "pf = forward_of (unicode_tables e) p port cmd t" by blast
  show "0 < pf_port pf" using o by simp
  show "tool pf = ''ssh'' \<and> classify_ssh (unicode_tables e) (cmdline pf) \<or>
      tool pf = ''kubectl'' \<and> \<not> classify_ssh (unicode_tables e) (cmdline pf)
        \<and> classify_kubectl (unicode_tables e) (cmdline pf)"
    using o classify_text_Some [OF o(2)] by simp
  show "(remote_host pf, remote_port pf, resource pf)
      = parse_remote_info (unicode_tables e) (tool pf) (cmdline pf) (pf_port pf)"
    using o(3) forward_of_info by simp
next
  fix e w r w' assume "scan_linux e w = (r, w')"
  then show "quietly e w w'" by (rule scan_linux_world)
qed

end
