(* ===== verification/Scanner_Darwin.thy ===== *)
theory Scanner_Darwin
  imports Scanner_Linux
begin

text \<open>
  \<open>internal/scanner/scanner_darwin.go\<close>: candidates from \<open>lsof\<close>, command lines from \<open>ps\<close>. The
  second loop of \<open>Scan\<close> is the same text as on Linux.
\<close>

definition parse_port_darwin :: "string \<Rightarrow> int" where
  "parse_port_darwin name =
     (case last_index name CHR '':'' of
        None \<Rightarrow> 0
      | Some idx \<Rightarrow>
          (case atoi (drop (idx + 1) name) of
             (p, None) \<Rightarrow> p
           | (p, Some er) \<Rightarrow> 0))"

definition lsof_candidate :: "unicode \<Rightarrow> string \<Rightarrow> (int \<times> int) option" where
  "lsof_candidate u line =
     (let fs = string_fields line in
      if length fs < 9 then None
      else let cmd = to_lower u (fs ! 0) in
        if cmd \<noteq> ''ssh'' \<and> cmd \<noteq> ''kubectl'' then None
        else (case atoi (fs ! 1) of
            (p, Some er) \<Rightarrow> None
          | (p, None) \<Rightarrow>
              (let port = parse_port_darwin (fs ! 8)
               in if port \<le> 0 then None else Some (p, port))))"

definition classify_cmdline_darwin :: "os_env \<Rightarrow> int \<Rightarrow> world \<Rightarrow> (string \<times> string) option \<times> world" where
  "classify_cmdline_darwin e p w =
     (case run_cmd e [''ps'', ''-p'', itoa p, ''-o'', ''command=''] '''' w of
        ((ok, out), w1) \<Rightarrow>
          (if \<not> ok then None else classify_text (unicode_tables e) (trim_space out), w1))"

definition scan_darwin :: "os_env \<Rightarrow> world \<Rightarrow> (scan_error + port_forward list) \<times> world" where
  "scan_darwin e w =
     (case run_cmd e [''lsof'', ''-iTCP'', ''-sTCP:LISTEN'', ''-P'', ''-n''] '''' w of
        ((ok, out), w1) \<Rightarrow>
          if \<not> ok then (Inl (ScanCommand ''lsof''), w1)
          else (case resolve_candidates (classify_cmdline_darwin e) (unicode_tables e)
                    (List.map_filter (lsof_candidate (unicode_tables e)) (scan_lines out)) w1 of
                  (pfs, w2) \<Rightarrow> (Inr pfs, w2)))"

lemma lsof_candidate_pos: "lsof_candidate u line = Some (p, port) \<Longrightarrow> 0 < port"
  by (auto simp: lsof_candidate_def Let_def split: if_splits option.splits prod.splits)

lemma scan_darwin_origin:
  "scan_darwin e w = (Inr pfs, w') \<Longrightarrow> pf \<in> set pfs \<Longrightarrow>
   \<exists>p port cmd t. 0 < port \<and> classify_text (unicode_tables e) cmd = Some (cmd, t)
     \<and> pf = forward_of (unicode_tables e) p port cmd t"
proof -
  assume s: "scan_darwin e w = (Inr pfs, w')" "pf \<in> set pfs"
  let ?u = "unicode_tables e"
  obtain ok out w1 where r: "run_cmd e [''lsof'', ''-iTCP'', ''-sTCP:LISTEN'', ''-P'', ''-n''] '''' w
      = ((ok, out), w1)" by (metis prod.exhaust)
  let ?cs = "List.map_filter (lsof_candidate ?u) (scan_lines out)"
  obtain qs w2 where q: "resolve_candidates (classify_cmdline_darwin e) ?u ?cs w1 = (qs, w2)"
    by fastforce
  from s r q have "qs = pfs" by (auto simp: scan_darwin_def split: if_splits)
  with q s(2) obtain p port v cmd t v' where o: "(p, port) \<in> set ?cs"
      "classify_cmdline_darwin e p v = (Some (cmd, t), v')" "pf = forward_of ?u p port cmd t"
    using resolve_candidates_origin by metis
  from o(1) have "0 < port" by (auto simp: in_map_filter dest: lsof_candidate_pos)
  moreover from o(2) have "classify_text ?u cmd = Some (cmd, t)"
    by (auto simp: classify_cmdline_darwin_def split: prod.splits if_splits dest: classify_text_Some)
  ultimately show ?thesis using o(3) by blast
qed

lemma scan_darwin_world: "scan_darwin e w = (r, w') \<Longrightarrow> quietly e w w'"
proof -
  assume s: "scan_darwin e w = (r, w')"
  have cl: "quietly e v v'"
    if "classify_cmdline_darwin e p v = (q, v')" for p v q v'
    using that by (auto simp: classify_cmdline_darwin_def split: prod.splits dest: run_cmd_quietly)
  obtain ok out w1 where r: "run_cmd e [''lsof'', ''-iTCP'', ''-sTCP:LISTEN'', ''-P'', ''-n''] '''' w
      = ((ok, out), w1)" by (metis prod.exhaust)
  then have w1: "quietly e w w1" by (rule run_cmd_quietly)
  obtain qs w2 where q: "resolve_candidates (classify_cmdline_darwin e) (unicode_tables e)
      (List.map_filter (lsof_candidate (unicode_tables e)) (scan_lines out)) w1 = (qs, w2)" by fastforce
  have "quietly e w1 w2"
    using cl q by (rule resolve_candidates_world)
  with w1 have "quietly e w w2" by (rule quietly_trans)
  with s r q w1 show ?thesis by (auto simp: scan_darwin_def split: if_splits)
qed

interpretation darwin_scan: port_scanner scan_darwin
proof
  fix e w pfs w' pf assume s: "scan_darwin e w = (Inr pfs, w')" "pf \<in> set pfs"
  from scan_darwin_origin [OF s] obtain p port cmd t where
    o: "0 < port" "classify_text (unicode_tables e) cmd = Some (cmd, t)"
      "pf = forward_of (unicode_tables e) p port cmd t" by blast
  show "0 < pf_port pf" using o by simp
  show "tool pf = ''ssh'' \<and> classify_ssh (unicode_tables e) (cmdline pf) \<or>
      tool pf = ''kubectl'' \<and> \<not> classify_ssh (unicode_tables e) (cmdline pf)
        \<and> classify_kubectl (unicode_tables e) (cmdline pf)"
    using o classify_text_Some [OF o(2)] by simp
  show "(remote_host pf, remote_port pf, resource pf)
      = parse_remote_info (unicode_tables e) (tool pf) (cmdline pf) (pf_port pf)"
    using o(3) forward_of_info by simp
next
  fix e w r w' assume "scan_darwin e w = (r, w')"
  then show "quietly e w w'" by (rule scan_darwin_world)
qed

text \<open>\<open>scanner.New().Scan()\<close>: the platform's scanner.\<close>

definition scan_ports :: "os_env \<Rightarrow> world \<Rightarrow> (scan_error + port_forward list) \<times> world" where
  "scan_ports e w = (case platform e of Linux \<Rightarrow> scan_linux e w | Darwin \<Rightarrow> scan_darwin e w)"

interpretation any_scan: port_scanner scan_ports
  by unfold_locales
     (auto simp: scan_ports_def split: goos.splits
       dest: linux_scan.scan_port linux_scan.scan_tool linux_scan.scan_info linux_scan.scan_quiet
         darwin_scan.scan_port darwin_scan.scan_tool darwin_scan.scan_info darwin_scan.scan_quiet)

end
