(* ===== verification/Daemon.thy ===== *)
theory Daemon
  imports Dnsmasq_Dirs Netutil Proxy Ipc Domain_Name Scanner_Darwin
begin

text \<open>
  \<open>internal/daemon/daemon.go\<close>: the poll loop that keeps names, addresses, proxies and the published
  state in step with the port forwards the scanner finds. Log output is not modelled. The map
  \<open>active\<close> is an association list with distinct keys; where Go ranges over a map and the order
  could matter, the order is the environment's (\<open>range_keys\<close>).
\<close>

record active_entry =
  ae_entry :: entry
  ae_ip :: ip
  ae_proxy :: "proxy option"

record daemon =
  d_cfg :: config
  d_dns :: manager
  d_alloc :: allocator
  d_store :: state_store
  d_srv :: server
  active :: "(int \<times> active_entry) list"
  d_cert :: "tls_certificate option"

definition new_daemon :: "os_env \<Rightarrow> crypto \<Rightarrow> config \<Rightarrow> world \<Rightarrow> daemon \<times> world" where
  "new_daemon e c cfg w =
     (case drop_in_dir e w of
        (dir, w1) \<Rightarrow>
          (case load_cert e c (data_dir e) w1 of
             (r, w2) \<Rightarrow>
               (\<lparr>d_cfg = cfg, d_dns = new_manager dir, d_alloc = new_allocator, d_store = new_state_store,
                 d_srv = new_server e, active = [],
                 d_cert = (case r of Inl er \<Rightarrow> None | Inr cert \<Rightarrow> Some cert)\<rparr>, w2)))"

section \<open>Adding and removing one forward\<close>

definition strip_tld :: "config \<Rightarrow> string \<Rightarrow> string" where
  "strip_tld cfg name =
     (let idx = int (length name) - int (length (tld cfg)) - 1
      in if idx > 0 then take (nat idx) name else name)"

definition active_names :: "daemon \<Rightarrow> string list" where
  "active_names d = map (\<lambda>(_, a). strip_tld (d_cfg d) (e_domain (ae_entry a))) (active d)"

definition use_tls :: "daemon \<Rightarrow> port_forward \<Rightarrow> bool" where
  "use_tls d pf \<longleftrightarrow> service_name (remote_port pf) = ''https'' \<and> d_cert d \<noteq> None"

definition make_proxy :: "daemon \<Rightarrow> port_forward \<Rightarrow> ip \<Rightarrow> proxy" where
  "make_proxy d pf x =
     (let proxyPort = service_proxy_port (d_cfg d) (remote_port pf) in
      case (use_tls d pf, d_cert d) of
        (True, Some cert) \<Rightarrow> new_tls_proxy (ip4_string x) proxyPort (pf_port pf) cert
      | _ \<Rightarrow> new_proxy (ip4_string x) proxyPort (pf_port pf))"

definition make_entry :: "daemon \<Rightarrow> port_forward \<Rightarrow> string \<Rightarrow> ip \<Rightarrow> int \<Rightarrow> entry" where
  "make_entry d pf name x now =
     \<lparr>e_port = pf_port pf, e_remote_host = remote_host pf, e_remote_port = remote_port pf,
      e_resource = resource pf, e_ip = ip4_string x,
      e_proxy_port = service_proxy_port (d_cfg d) (remote_port pf), e_domain = name,
      e_tool = tool pf, e_tls = use_tls d pf, e_pid = pid pf, e_since = now, e_cmdline = cmdline pf\<rparr>"

definition daemon_add :: "os_env \<Rightarrow> port_forward \<Rightarrow> daemon \<Rightarrow> world \<Rightarrow> daemon \<times> world" where
  "daemon_add e pf d w =
     (let name = generate (unicode_tables e) pf (d_cfg d) (active_names d) in
      case allocate (d_alloc d) of
        (Inl er, a1) \<Rightarrow> (d\<lparr>d_alloc := a1\<rparr>, w)
      | (Inr x, a1) \<Rightarrow>
     (case ensure_alias e x w of (_, w1) \<Rightarrow>
     (case dns_add e (d_dns d) (pf_port pf) name (ip4_string x) w1 of
        (Some er, w2) \<Rightarrow> (d\<lparr>d_alloc := free_ip a1 x\<rparr>, w2)
      | (None, w2) \<Rightarrow>
     (case proxy_start e (make_proxy d pf x) w2 of
        ((r, p), w3) \<Rightarrow>
     (case time_now e w3 of (now, w4) \<Rightarrow>
       (let en = make_entry d pf name x now;
            ae = \<lparr>ae_entry = en, ae_ip = x, ae_proxy = (if r = None then Some p else None)\<rparr>
        in (d\<lparr>d_alloc := a1, active := AList.update (pf_port pf) ae (active d),
              d_store := store_set en (d_store d)\<rparr>, w4)))))))"

text \<open>\<open>remove\<close> reads the entry without asking whether there is one: a missing one is a nil pointer.\<close>

definition daemon_remove :: "os_env \<Rightarrow> int \<Rightarrow> daemon \<Rightarrow> world \<Rightarrow> daemon outcome \<times> world" where
  "daemon_remove e port d w =
     (case map_of (active d) port of
        None \<Rightarrow> (Panics, w)
      | Some ae \<Rightarrow>
          (let w1 = (case ae_proxy ae of None \<Rightarrow> w | Some p \<Rightarrow> snd (proxy_stop p w)) in
           case dns_remove e (d_dns d) port w1 of
             (_, w2) \<Rightarrow>
               (case remove_alias e (ae_ip ae) w2 of
                  (_, w3) \<Rightarrow>
                    (Returns (d\<lparr>d_alloc := free_ip (d_alloc d) (ae_ip ae),
                       active := AList.delete port (active d),
                       d_store := store_delete port (d_store d)\<rparr>), w3))))"

section \<open>The poll\<close>

definition current_forwards :: "port_forward list \<Rightarrow> (int \<times> port_forward) list" where
  "current_forwards pfs = fold (\<lambda>pf m. AList.update (pf_port pf) pf m) pfs []"

fun add_new :: "os_env \<Rightarrow> (int \<times> port_forward) list \<Rightarrow> int list \<Rightarrow> daemon \<Rightarrow> world \<Rightarrow> daemon \<times> world" where
  "add_new e current [] d w = (d, w)"
| "add_new e current (port # ports) d w =
     (case (map_of current port, map_of (active d) port) of
        (Some pf, None) \<Rightarrow> (case daemon_add e pf d w of (d1, w1) \<Rightarrow> add_new e current ports d1 w1)
      | _ \<Rightarrow> add_new e current ports d w)"

text \<open>Removing all ports of a list that are not kept.\<close>

fun remove_gone :: "os_env \<Rightarrow> (int \<Rightarrow> bool) \<Rightarrow> int list \<Rightarrow> daemon \<Rightarrow> world \<Rightarrow> daemon outcome \<times> world" where
  "remove_gone e keep [] d w = (Returns d, w)"
| "remove_gone e keep (port # ports) d w =
     (if keep port then remove_gone e keep ports d w
      else (case daemon_remove e port d w of
              (Panics, w1) \<Rightarrow> (Panics, w1)
            | (Returns d1, w1) \<Rightarrow> remove_gone e keep ports d1 w1))"

definition apply_scan :: "os_env \<Rightarrow> port_forward list \<Rightarrow> daemon \<Rightarrow> world \<Rightarrow> daemon outcome \<times> world" where
  "apply_scan e forwards d w =
     (let current = current_forwards forwards in
      case add_new e current (range_keys e w (map fst current)) d w of
        (d1, w1) \<Rightarrow>
          remove_gone e (\<lambda>port. map_of current port \<noteq> None)
            (range_keys e w1 (map fst (active d1))) d1 w1)"

definition daemon_poll :: "os_env \<Rightarrow> daemon \<Rightarrow> world \<Rightarrow> daemon outcome \<times> world" where
  "daemon_poll e d w =
     (case scan_ports e w of
        (Inl er, w1) \<Rightarrow> (Returns d, w1)
      | (Inr forwards, w1) \<Rightarrow> apply_scan e forwards d w1)"

definition daemon_cleanup :: "os_env \<Rightarrow> daemon \<Rightarrow> world \<Rightarrow> daemon outcome \<times> world" where
  "daemon_cleanup e d w =
     remove_gone e (\<lambda>_. False) (range_keys e w (map fst (active d))) d w"

section \<open>The life of the daemon\<close>

text \<open>
  What \<open>select\<close> receives: a tick of the timer, or the end of the context. A run is given by the
  events received so far; it has returned with an error or without one, or it still waits.
\<close>

datatype run_event = TimerTick | ContextDone

datatype run_status = RunReturned "os_err option" | RunWaiting

fun run_loop :: "os_env \<Rightarrow> run_event list \<Rightarrow> daemon \<Rightarrow> world \<Rightarrow> (run_status \<times> daemon) outcome \<times> world" where
  "run_loop e [] d w = (Returns (RunWaiting, d), w)"
| "run_loop e (TimerTick # evs) d w =
     (case daemon_poll e d w of
        (Panics, w1) \<Rightarrow> (Panics, w1)
      | (Returns d1, w1) \<Rightarrow> run_loop e evs d1 w1)"
| "run_loop e (ContextDone # evs) d w =
     (case daemon_cleanup e d w of
        (Panics, w1) \<Rightarrow> (Panics, w1)
      | (Returns d1, w1) \<Rightarrow> (Returns (RunReturned None, d1), w1))"

text \<open>
  \<open>Run\<close>: the first poll comes before the loop, \<open>time.NewTicker\<close> panics for an interval that is not
  positive, and the deferred \<open>Stop\<close> of the server runs when \<open>Run\<close> returns and when it panics.
\<close>

definition daemon_run :: "os_env \<Rightarrow> run_event list \<Rightarrow> daemon \<Rightarrow> world \<Rightarrow> (run_status \<times> daemon) outcome \<times> world" where
  "daemon_run e evs d w =
     (case server_start e (d_srv d) w of
        ((Some er, s), w1) \<Rightarrow> (Returns (RunReturned (Some er), d\<lparr>d_srv := s\<rparr>), w1)
      | ((None, s), w1) \<Rightarrow>
          (if poll_interval (d_cfg d) \<le> 0 then (Panics, server_stop e s w1)
           else
             (case run_loop e (TimerTick # evs) (d\<lparr>d_srv := s\<rparr>) w1 of
                (Panics, w2) \<Rightarrow> (Panics, server_stop e s w2)
              | (Returns (RunWaiting, d1), w2) \<Rightarrow> (Returns (RunWaiting, d1), w2)
              | (Returns (RunReturned r, d1), w2) \<Rightarrow> (Returns (RunReturned r, d1), server_stop e s w2))))"

end
