(* ===== verification/Daemon_Invariant.thy ===== *)
theory Daemon_Invariant
  imports Daemon
begin

text \<open>
  What holds of the daemon between two polls, whatever fails: its map, the allocator, the store and
  the bound addresses agree. The proofs use the contracts of the components: \<open>lad_pool\<close> for the
  allocator, \<open>lad_store\<close> for the store, \<open>any_scan\<close> for the scanner.
\<close>

definition listeners_of :: "active_entry \<Rightarrow> (string \<times> int) list" where
  "listeners_of ae =
     (case ae_proxy ae of
        None \<Rightarrow> []
      | Some p \<Rightarrow> (case proxy_listener p of None \<Rightarrow> [] | Some a \<Rightarrow> [a]))"

definition open_listeners :: "daemon \<Rightarrow> (string \<times> int) list" where
  "open_listeners d = concat (map (\<lambda>(_, ae). listeners_of ae) (active d))"

text \<open>
  An entry describes its forward and its proxy: the address, the proxy port of the service, and TLS
  exactly for HTTPS with a certificate.
\<close>

fun entry_ok :: "config \<Rightarrow> tls_certificate option \<Rightarrow> int \<times> active_entry \<Rightarrow> bool" where
  "entry_ok cfg cert (port, ae) \<longleftrightarrow>
     (let en = ae_entry ae in
      e_port en = port \<and> e_ip en = ip4_string (ae_ip ae)
      \<and> e_proxy_port en = service_proxy_port cfg (e_remote_port en)
      \<and> (e_tls en \<longleftrightarrow> service_name (e_remote_port en) = ''https'' \<and> cert \<noteq> None)
      \<and> (case ae_proxy ae of
           None \<Rightarrow> True
         | Some p \<Rightarrow> bind_ip p = e_ip en \<and> listen_port p = e_proxy_port en \<and> target_port p = port
             \<and> proxy_cert p = (if e_tls en then cert else None)
             \<and> \<not> quit_closed p \<and> (\<exists>n. proxy_listener p = Some (e_ip en, n))))"

definition addresses :: "daemon \<Rightarrow> int \<Rightarrow> ip option" where
  "addresses d port = map_option ae_ip (map_of (active d) port)"

definition daemon_inv :: "(string \<times> int) multiset \<Rightarrow> daemon \<Rightarrow> world \<Rightarrow> bool" where
  "daemon_inv others d w \<longleftrightarrow>
     distinct (map fst (active d))
     \<and> list_all (entry_ok (d_cfg d) (d_cert d)) (active d)
     \<and> alloc_wf (d_alloc d) \<and> tracks (addresses d) (in_use (d_alloc d))
     \<and> entries (d_store d) = (\<lambda>port. map_option ae_entry (map_of (active d) port))
     \<and> mset (bound w) = others + mset (open_listeners d)"

lemma alloc_wf_pool: "alloc_wf a \<Longrightarrow> in_use a \<subseteq> pool"
  by (auto simp: in_use_def pool_def alloc_wf_def)

lemma AList_update_new: "k \<notin> fst ` set al \<Longrightarrow> AList.update k v al = al @ [(k, v)]"
  by (induction al) auto

lemma map_of_absent: "map_of al k = None \<Longrightarrow> k \<notin> fst ` set al"
  by (simp add: map_of_eq_None_iff)


lemma AList_delete_keys: "fst ` set (AList.delete k al) = fst ` set al - {k}"
  by (simp flip: set_map add: AList.delete_keys)

lemma delete_split:
  "distinct (map fst al) \<Longrightarrow> map_of al k = Some v \<Longrightarrow>
   \<exists>xs ys. al = xs @ (k, v) # ys \<and> AList.delete k al = xs @ ys"
proof -
  assume d: "distinct (map fst al)" and k: "map_of al k = Some v"
  obtain xs ys where al: "al = xs @ (k, v) # ys" using map_of_SomeD [OF k] split_list by metis
  with d have "k \<notin> fst ` set xs" "k \<notin> fst ` set ys" by auto
  then have "filter (\<lambda>(q, _). k \<noteq> q) xs = xs" "filter (\<lambda>(q, _). k \<noteq> q) ys = ys"
    by (auto simp: filter_id_conv rev_image_eqI)
  with al have "AList.delete k al = xs @ ys" by (simp add: AList.delete_eq)
  with al show ?thesis by blast
qed

section \<open>Adding a forward\<close>

definition added_entry :: "daemon \<Rightarrow> port_forward \<Rightarrow> string \<Rightarrow> ip \<Rightarrow> int \<Rightarrow> os_err option \<Rightarrow> proxy \<Rightarrow> active_entry" where
  "added_entry d pf name x now r p =
     \<lparr>ae_entry = make_entry d pf name x now, ae_ip = x, ae_proxy = (if r = None then Some p else None)\<rparr>"

abbreviation name_for :: "os_env \<Rightarrow> daemon \<Rightarrow> port_forward \<Rightarrow> string" where
  "name_for e d pf \<equiv> generate (unicode_tables e) pf (d_cfg d) (active_names d)"

text \<open>A forward that is not added leaves the daemon exactly as it was, the allocator included.\<close>

lemma daemon_add_cases:
  assumes wf: "alloc_wf (d_alloc d)" and add: "daemon_add e pf d w = (d', w')"
  obtains (full) a1 where "allocate (d_alloc d) = (Inl PoolExhausted, a1)" "d' = d" "w' = w"
  | (refused) x a1 er w1 r where "allocate (d_alloc d) = (Inr x, a1)" "ensure_alias e x w = (er, w1)"
      "dns_add e (d_dns d) (pf_port pf) (name_for e d pf) (ip4_string x) w1 = (Some r, w')" "d' = d"
  | (added) x a1 er w1 w2 r p w3 now where "allocate (d_alloc d) = (Inr x, a1)"
      "ensure_alias e x w = (er, w1)"
      "dns_add e (d_dns d) (pf_port pf) (name_for e d pf) (ip4_string x) w1 = (None, w2)"
      "proxy_start e (make_proxy d pf x) w2 = ((r, p), w3)" "w' = ticked w3"
      "d' = d\<lparr>d_alloc := a1,
              active := AList.update (pf_port pf) (added_entry d pf (name_for e d pf) x now r p) (active d),
              d_store := store_set (make_entry d pf (name_for e d pf) x now) (d_store d)\<rparr>"
proof -
  let ?name = "name_for e d pf"
  obtain ra a1 where al: "allocate (d_alloc d) = (ra, a1)" by fastforce
  show thesis
  proof (cases ra)
    case (Inl pe)
    with al have "a1 = d_alloc d" using allocate_Inl by blast
    then show thesis using full al Inl add by (cases pe) (simp add: daemon_add_def Let_def)
  next
    case (Inr x)
    obtain er w1 where en: "ensure_alias e x w = (er, w1)" by fastforce
    obtain r w2 where dn: "dns_add e (d_dns d) (pf_port pf) ?name (ip4_string x) w1 = (r, w2)" by fastforce
    show thesis
    proof (cases r)
      case (Some er')
      have "free_ip a1 x = d_alloc d" using lad_pool.alloc_free [OF wf] al Inr by blast
      then show thesis using refused [of x a1 er w1 er'] al Inr en dn Some add
        by (simp add: daemon_add_def Let_def)
    next
      case None
      obtain rp p w3 where st: "proxy_start e (make_proxy d pf x) w2 = ((rp, p), w3)"
        by (metis prod.collapse)
      show thesis
        using added [of x a1 er w1 w2 rp p w3 "clock e (tick w3)"] al Inr en dn None st add
        by (simp add: daemon_add_def Let_def time_now_def added_entry_def)
    qed
  qed
qed

lemma make_proxy_fields:
  "bind_ip (make_proxy d pf x) = ip4_string x"
  "listen_port (make_proxy d pf x) = service_proxy_port (d_cfg d) (remote_port pf)"
  "target_port (make_proxy d pf x) = pf_port pf" "\<not> quit_closed (make_proxy d pf x)"
  "proxy_cert (make_proxy d pf x) = (if use_tls d pf then d_cert d else None)"
  by (auto simp: make_proxy_def Let_def new_proxy_def new_tls_proxy_def use_tls_def split: option.splits bool.splits)

lemma added_entry_ok:
  assumes "proxy_start e (make_proxy d pf x) w2 = ((r, p), w3)"
  shows "entry_ok (d_cfg d) (d_cert d) (pf_port pf, added_entry d pf name x now r p)
    \<and> mset (bound w3) = mset (bound w2) + mset (listeners_of (added_entry d pf name x now r p))"
proof (cases r)
  case None
  then have "proxy_start e (make_proxy d pf x) w2 = ((None, p), w3)" using assms by simp
  from proxy_start_ok [OF this] obtain a where
    a: "p = (make_proxy d pf x)\<lparr>proxy_listener := Some a\<rparr>" "fst a = ip4_string x"
      "w3 = (ticked w2)\<lparr>bound := a # bound w2\<rparr>"
    unfolding make_proxy_fields by blast
  then obtain n where "a = (ip4_string x, n)" by (cases a) simp
  with a None show ?thesis
    by (simp add: added_entry_def make_entry_def make_proxy_fields listeners_of_def use_tls_def)
next
  case (Some er)
  then have "bound w3 = bound w2" using proxy_start_fails assms by fastforce
  with Some show ?thesis
    by (simp add: added_entry_def make_entry_def listeners_of_def use_tls_def)
qed

lemma daemon_add_inv:
  assumes inv: "daemon_inv others d w" and new: "map_of (active d) (pf_port pf) = None"
    and add: "daemon_add e pf d w = (d', w')"
  shows "daemon_inv others d' w'"
proof -
  from inv have wf: "alloc_wf (d_alloc d)" and tr: "tracks (addresses d) (in_use (d_alloc d))"
    and st: "entries (d_store d) = (\<lambda>port. map_option ae_entry (map_of (active d) port))"
    and bd: "mset (bound w) = others + mset (open_listeners d)"
    by (simp_all add: daemon_inv_def)
  note abs = map_of_absent [OF new]
  from wf add show ?thesis
  proof (cases rule: daemon_add_cases)
    case full
    with inv show ?thesis by simp
  next
    case (refused x a1 er w1 r)
    then have "bound w' = bound w"
      using ensure_alias_quietly dns_add_bound by (metis quietly_def snd_conv)
    with inv refused show ?thesis by (simp add: daemon_inv_def)
  next
    case (added x a1 er w1 w2 r p w3 now)
    let ?ae = "added_entry d pf (name_for e d pf) x now r p"
    have act: "active d' = active d @ [(pf_port pf, ?ae)]"
      using added(6) AList_update_new [OF abs] by simp
    note ok = added_entry_ok [OF added(4), of "name_for e d pf" now]
    have "bound w2 = bound w"
      using added(2,3) ensure_alias_quietly dns_add_bound by (metis quietly_def snd_conv)
    moreover have "open_listeners d' = open_listeners d @ listeners_of ?ae"
      by (simp add: open_listeners_def act)
    ultimately have b: "mset (bound w') = others + mset (open_listeners d')"
      using ok added(5) bd by simp
    have ad: "addresses d' = (addresses d)(pf_port pf \<mapsto> x)"
      by (rule ext) (simp add: addresses_def added(6) added_entry_def)
    have none: "addresses d (pf_port pf) = None" using new by (simp add: addresses_def)
    have t: "tracks (addresses d') (in_use (d_alloc d'))"
      unfolding ad using lad_pool.tracks_alloc [OF wf tr none added(1)] added(6) by simp
    have s: "entries (d_store d') = (\<lambda>port. map_option ae_entry (map_of (active d') port))"
      by (rule ext) (simp add: added(6) store_set_def st make_entry_def added_entry_def)
    have "alloc_wf (d_alloc d')" using alloc_wf_allocate [OF wf added(1)] added(6) by simp
    moreover have "list_all (entry_ok (d_cfg d') (d_cert d')) (active d')"
    proof -
      have "list_all (entry_ok (d_cfg d) (d_cert d)) (active d)" using inv by (simp add: daemon_inv_def)
      then have "list_all (entry_ok (d_cfg d) (d_cert d)) (active d')"
        unfolding act list_all_append using ok by (simp del: entry_ok.simps)
      then show ?thesis by (simp add: added(6))
    qed
    moreover have "distinct (map fst (active d'))"
      using inv abs by (simp add: daemon_inv_def act)
    ultimately show ?thesis using b t s unfolding daemon_inv_def by blast
  qed
qed

section \<open>Removing a forward\<close>

text \<open>\<open>remove\<close> of a port the map holds: what it leaves of the daemon, and that it does not panic.\<close>

lemma daemon_remove_result:
  assumes "map_of (active d) port = Some ae" and "daemon_remove e port d w = (r, w')"
  shows "r = Returns (d\<lparr>d_alloc := free_ip (d_alloc d) (ae_ip ae), active := AList.delete port (active d),
      d_store := store_delete port (d_store d)\<rparr>)"
  using assms by (auto simp: daemon_remove_def Let_def split: prod.splits)

lemma proxy_stop_bound:
  assumes "entry_ok cfg cert (port, ae)" and "mset (bound w) = B + mset (listeners_of ae)"
  shows "mset (bound (case ae_proxy ae of None \<Rightarrow> w | Some p \<Rightarrow> snd (proxy_stop p w))) = B"
proof (cases "ae_proxy ae")
  case None
  with assms(2) show ?thesis by (simp add: listeners_of_def)
next
  case (Some p)
  with assms(1) obtain a where "\<not> quit_closed p" "proxy_listener p = Some a" by (auto simp: Let_def)
  with Some assms(2) show ?thesis by (simp add: proxy_stop_def listeners_of_def)
qed

lemma daemon_remove_bound:
  assumes "map_of (active d) port = Some ae" and "daemon_remove e port d w = (r, w')"
  shows "bound w' = bound (case ae_proxy ae of None \<Rightarrow> w | Some p \<Rightarrow> snd (proxy_stop p w))"
proof -
  let ?w1 = "case ae_proxy ae of None \<Rightarrow> w | Some p \<Rightarrow> snd (proxy_stop p w)"
  obtain r2 w2 where dn: "dns_remove e (d_dns d) port ?w1 = (r2, w2)" by fastforce
  then have "bound w2 = bound ?w1" using dns_remove_bound by (metis snd_conv)
  moreover have "w' = snd (remove_alias e (ae_ip ae) w2)"
    using assms dn by (auto simp: daemon_remove_def Let_def split: prod.splits)
  ultimately show ?thesis using remove_alias_quietly by (simp add: quietly_def)
qed

lemma daemon_remove_inv:
  assumes inv: "daemon_inv others d w" and p: "map_of (active d) port = Some ae"
    and rem: "daemon_remove e port d w = (r, w')"
  shows "\<exists>d'. r = Returns d' \<and> daemon_inv others d' w' \<and> active d' = AList.delete port (active d)
    \<and> d_cfg d' = d_cfg d \<and> d_cert d' = d_cert d \<and> d_dns d' = d_dns d \<and> d_srv d' = d_srv d"
proof -
  from inv have wf: "alloc_wf (d_alloc d)" and tr: "tracks (addresses d) (in_use (d_alloc d))"
    and st: "entries (d_store d) = (\<lambda>port. map_option ae_entry (map_of (active d) port))"
    and bd: "mset (bound w) = others + mset (open_listeners d)" and ds: "distinct (map fst (active d))"
    and ok: "list_all (entry_ok (d_cfg d) (d_cert d)) (active d)"
    by (simp_all add: daemon_inv_def)
  define d' where "d' = d\<lparr>d_alloc := free_ip (d_alloc d) (ae_ip ae), active := AList.delete port (active d),
      d_store := store_delete port (d_store d)\<rparr>"
  have r: "r = Returns d'" using daemon_remove_result [OF p rem] by (simp add: d'_def)
  obtain xs ys where sp: "active d = xs @ (port, ae) # ys" "AList.delete port (active d) = xs @ ys"
    using delete_split [OF ds p] by blast
  have "active d' = xs @ ys" by (simp add: d'_def sp(2))
  then have "mset (bound w) = (others + mset (open_listeners d')) + mset (listeners_of ae)"
    using bd sp(1) by (simp add: open_listeners_def)
  moreover have "entry_ok (d_cfg d) (d_cert d) (port, ae)" using ok sp(1) by simp
  ultimately have b: "mset (bound w') = others + mset (open_listeners d')"
    unfolding daemon_remove_bound [OF p rem] by (intro proxy_stop_bound)
  have ad: "addresses d' = (addresses d)(port := None)"
    by (rule ext) (simp add: addresses_def d'_def)
  have x: "addresses d port = Some (ae_ip ae)" using p by (simp add: addresses_def)
  have t: "tracks (addresses d') (in_use (d_alloc d'))"
    unfolding ad using lad_pool.tracks_free [OF wf tr alloc_wf_pool [OF wf] x] by (simp add: d'_def)
  have s: "entries (d_store d') = (\<lambda>q. map_option ae_entry (map_of (active d') q))"
    by (rule ext) (simp add: d'_def store_delete_def st)
  have "list_all (entry_ok (d_cfg d') (d_cert d')) (active d')"
    using ok by (simp add: d'_def AList.delete_eq list_all_iff)
  moreover have "distinct (map fst (active d'))" "alloc_wf (d_alloc d')"
    using distinct_delete_keys [OF ds] alloc_wf_free [OF wf] by (simp_all add: d'_def)
  ultimately have "daemon_inv others d' w'" using b t s unfolding daemon_inv_def by blast
  with r show ?thesis by (auto simp: d'_def)
qed

section \<open>A poll\<close>

definition same_setup :: "daemon \<Rightarrow> daemon \<Rightarrow> bool" where
  "same_setup d d' \<longleftrightarrow> d_cfg d' = d_cfg d \<and> d_cert d' = d_cert d \<and> d_dns d' = d_dns d \<and> d_srv d' = d_srv d"

lemma same_setup_refl [simp]: "same_setup d d"
  by (simp add: same_setup_def)

lemma same_setup_trans: "same_setup d d1 \<Longrightarrow> same_setup d1 d2 \<Longrightarrow> same_setup d d2"
  by (simp add: same_setup_def)

abbreviation ports_of :: "daemon \<Rightarrow> int set" where
  "ports_of d \<equiv> fst ` set (active d)"

lemma current_forwards_step:
  "map_of (fold (\<lambda>pf m. AList.update (pf_port pf) pf m) pfs m) p = Some pf \<Longrightarrow>
   map_of m p = Some pf \<or> pf \<in> set pfs \<and> pf_port pf = p"
  by (induction pfs arbitrary: m) (fastforce split: if_splits)+

lemma current_forwards_Some: "map_of (current_forwards pfs) p = Some pf \<Longrightarrow> pf \<in> set pfs \<and> pf_port pf = p"
  unfolding current_forwards_def by (drule current_forwards_step) simp

lemma current_forwards_keys:
  "fst ` set (current_forwards pfs) = pf_port ` set pfs \<and> distinct (map fst (current_forwards pfs))"
proof -
  have "fst ` set (fold (\<lambda>pf m. AList.update (pf_port pf) pf m) pfs m) = fst ` set m \<union> pf_port ` set pfs" for m
    by (induction pfs arbitrary: m) (auto simp: dom_update)
  moreover have "distinct (map fst m) \<Longrightarrow> distinct (map fst (fold (\<lambda>pf m. AList.update (pf_port pf) pf m) pfs m))" for m
    by (induction pfs arbitrary: m) (auto simp: distinct_update)
  ultimately show ?thesis by (simp add: current_forwards_def)
qed

lemma daemon_add_active:
  assumes "daemon_inv others d w" and "map_of (active d) (pf_port pf) = None"
    and "daemon_add e pf d w = (d', w')"
  shows "(d' = d \<or> (\<exists>ae. active d' = active d @ [(pf_port pf, ae)])) \<and> same_setup d d'"
proof -
  from assms(1) have "alloc_wf (d_alloc d)" by (simp add: daemon_inv_def)
  from this assms(3) show ?thesis
    by (cases rule: daemon_add_cases)
      (auto simp: same_setup_def AList_update_new [OF map_of_absent [OF assms(2)]])
qed

lemma add_new_result:
  assumes "\<And>port pf. map_of current port = Some pf \<Longrightarrow> pf_port pf = port"
    and "daemon_inv others d w" and "add_new e current ports d w = (d', w')"
  shows "daemon_inv others d' w' \<and> same_setup d d'
    \<and> (\<exists>news. active d' = active d @ news \<and> fst ` set news \<subseteq> set ports \<inter> fst ` set current)"
  using assms(2,3)
proof (induction ports arbitrary: d w)
  case Nil
  then show ?case by simp
next
  case (Cons port ports)
  show ?case
  proof (cases "\<exists>pf. map_of current port = Some pf \<and> map_of (active d) port = None")
    case False
    then have "add_new e current ports d w = (d', w')"
      using Cons.prems(2) by (auto split: option.splits)
    from Cons.IH [OF Cons.prems(1) this] show ?thesis by auto
  next
    case True
    then obtain pf where pf: "map_of current port = Some pf" "map_of (active d) port = None" by blast
    then have p: "pf_port pf = port" using assms(1) by blast
    obtain d1 w1 where d1: "daemon_add e pf d w = (d1, w1)" by fastforce
    with Cons.prems(2) pf have rest: "add_new e current ports d1 w1 = (d', w')" by simp
    note i1 = daemon_add_inv [OF Cons.prems(1) _ d1, unfolded p, OF pf(2)]
    note a1 = daemon_add_active [OF Cons.prems(1) _ d1, unfolded p, OF pf(2)]
    from Cons.IH [OF i1 rest] obtain news where
      n: "daemon_inv others d' w'" "same_setup d1 d'" "active d' = active d1 @ news"
        "fst ` set news \<subseteq> set ports \<inter> fst ` set current" by blast
    have c: "port \<in> fst ` set current" using map_of_SomeD [OF pf(1)] by force
    have s: "same_setup d d'" using a1 n(2) same_setup_trans by blast
    from a1 consider "active d1 = active d" | ae where "active d1 = active d @ [(port, ae)]" by blast
    then show ?thesis
    proof cases
      case 1
      with n s show ?thesis by auto
    next
      case (2 ae)
      then have "active d' = active d @ ((port, ae) # news)" using n(3) by simp
      moreover have "fst ` set ((port, ae) # news) \<subseteq> set (port # ports) \<inter> fst ` set current"
        using n(4) c by auto
      ultimately show ?thesis using n(1) s by blast
    qed
  qed
qed

lemma remove_gone_result:
  assumes "daemon_inv others d w" and "distinct ports" and "set ports \<subseteq> ports_of d"
    and "remove_gone e keep ports d w = (r, w')"
  shows "\<exists>d'. r = Returns d' \<and> daemon_inv others d' w' \<and> same_setup d d'
    \<and> active d' = filter (\<lambda>(p, _). p \<in> set ports \<longrightarrow> keep p) (active d)"
  using assms
proof (induction ports arbitrary: d w)
  case Nil
  then show ?case by auto
next
  case (Cons port ports)
  show ?case
  proof (cases "keep port")
    case True
    with Cons.prems obtain d' where "r = Returns d'" "daemon_inv others d' w'" "same_setup d d'"
      "active d' = filter (\<lambda>(p, _). p \<in> set ports \<longrightarrow> keep p) (active d)"
      using Cons.IH [of d w] by auto
    moreover have "filter (\<lambda>(p, _). p \<in> set ports \<longrightarrow> keep p) (active d)
        = filter (\<lambda>(p, _). p \<in> set (port # ports) \<longrightarrow> keep p) (active d)"
      using True by (intro filter_cong) auto
    ultimately show ?thesis by simp
  next
    case False
    from Cons.prems(3) obtain ae where ae: "map_of (active d) port = Some ae"
      using map_of_absent by (cases "map_of (active d) port") force+
    obtain r1 w1 where r1: "daemon_remove e port d w = (r1, w1)" by fastforce
    from daemon_remove_inv [OF Cons.prems(1) ae r1] obtain d1 where
      d1: "r1 = Returns d1" "daemon_inv others d1 w1" "active d1 = AList.delete port (active d)" "same_setup d d1"
      by (auto simp: same_setup_def)
    have rest: "remove_gone e keep ports d1 w1 = (r, w')" using Cons.prems(4) False r1 d1(1) by simp
    have "set ports \<subseteq> ports_of d1"
      using Cons.prems(2,3) by (simp add: d1(3) AList_delete_keys subset_Diff_insert)
    with Cons.IH [OF d1(2) _ _ rest] Cons.prems(2) obtain d' where
      d': "r = Returns d'" "daemon_inv others d' w'" "same_setup d1 d'"
        "active d' = filter (\<lambda>(p, _). p \<in> set ports \<longrightarrow> keep p) (active d1)" by auto
    have "active d' = filter (\<lambda>(p, _). p \<in> set (port # ports) \<longrightarrow> keep p) (active d)"
      unfolding d'(4) d1(3) AList.delete_eq using False by (auto intro!: filter_cong)
    with d' d1(4) same_setup_trans show ?thesis by blast
  qed
qed

lemma daemon_inv_quiet: "daemon_inv others d w \<Longrightarrow> quietly e w w' \<Longrightarrow> daemon_inv others d w'"
  by (simp add: daemon_inv_def quietly_def)

text \<open>
  Applying a scan never panics: the ports that are kept keep their entries, and what is new comes
  from the scan.
\<close>

lemma apply_scan_result:
  assumes inv: "daemon_inv others d w" and ap: "apply_scan e pfs d w = (r, w')"
  shows "\<exists>d'. r = Returns d' \<and> daemon_inv others d' w' \<and> same_setup d d'
    \<and> (\<exists>news. active d' = filter (\<lambda>(p, _). p \<in> pf_port ` set pfs) (active d) @ news
         \<and> fst ` set news \<subseteq> pf_port ` set pfs)"
proof -
  let ?c = "current_forwards pfs"
  obtain d1 w1 where a: "add_new e ?c (range_keys e w (map fst ?c)) d w = (d1, w1)" by fastforce
  have "pf_port pf = port" if "map_of ?c port = Some pf" for port pf
    using current_forwards_Some [OF that] by simp
  from add_new_result [OF this inv a] current_forwards_keys obtain news where
    n: "daemon_inv others d1 w1" "same_setup d d1" "active d1 = active d @ news"
      "fst ` set news \<subseteq> pf_port ` set pfs" by (metis Int_subset_iff)
  let ?keep = "\<lambda>port. map_of ?c port \<noteq> None"
  have rest: "remove_gone e ?keep (range_keys e w1 (map fst (active d1))) d1 w1 = (r, w')"
    using ap a by (simp add: apply_scan_def)
  have "distinct (map fst (active d1))" using n(1) by (simp add: daemon_inv_def)
  then obtain d' where
    d': "r = Returns d'" "daemon_inv others d' w'" "same_setup d1 d'"
      "active d' = filter (\<lambda>(p, _). p \<in> set (range_keys e w1 (map fst (active d1))) \<longrightarrow> ?keep p) (active d1)"
    using remove_gone_result [OF n(1) _ _ rest] by auto
  have k: "?keep p \<longleftrightarrow> p \<in> pf_port ` set pfs" for p
    using current_forwards_keys [of pfs] by (simp add: map_of_eq_None_iff)
  have "active d' = filter (\<lambda>(p, _). p \<in> pf_port ` set pfs) (active d1)"
    unfolding d'(4) k by (intro filter_cong) force+
  moreover have "filter (\<lambda>(p, _). p \<in> pf_port ` set pfs) news = news"
    using n(4) by (auto simp: filter_id_conv)
  ultimately have "active d' = filter (\<lambda>(p, _). p \<in> pf_port ` set pfs) (active d) @ news"
    by (simp add: n(3))
  with d' n same_setup_trans show ?thesis by blast
qed

lemma daemon_poll_inv:
  assumes "daemon_inv others d w" and "daemon_poll e d w = (r, w')"
  shows "\<exists>d'. r = Returns d' \<and> daemon_inv others d' w' \<and> same_setup d d'"
proof -
  obtain s w1 where s: "scan_ports e w = (s, w1)" by fastforce
  have i: "daemon_inv others d w1"
    by (rule daemon_inv_quiet [OF assms(1) any_scan.scan_quiet [OF s]])
  show ?thesis
  proof (cases s)
    case (Inl er)
    with s i assms(2) show ?thesis by (auto simp: daemon_poll_def)
  next
    case (Inr pfs)
    with s assms(2) have "apply_scan e pfs d w1 = (r, w')" by (simp add: daemon_poll_def)
    from apply_scan_result [OF i this] show ?thesis by blast
  qed
qed

lemma daemon_cleanup_result:
  assumes "daemon_inv others d w" and "daemon_cleanup e d w = (r, w')"
  shows "\<exists>d'. r = Returns d' \<and> daemon_inv others d' w' \<and> same_setup d d' \<and> active d' = []"
proof -
  have "distinct (map fst (active d))" using assms(1) by (simp add: daemon_inv_def)
  with remove_gone_result [OF assms(1) _ _ assms(2) [unfolded daemon_cleanup_def]]
  show ?thesis by (auto simp: filter_empty_conv rev_image_eqI)
qed

text \<open>A daemon without forwards holds nothing: no address, no entry in the store, no listener.\<close>

lemma daemon_inv_empty:
  assumes "daemon_inv others d w" and "active d = []"
  shows "in_use (d_alloc d) = {} \<and> entries (d_store d) = Map.empty \<and> mset (bound w) = others"
proof -
  have "addresses d = Map.empty" by (rule ext) (simp add: addresses_def assms(2))
  then show ?thesis using assms by (simp add: daemon_inv_def open_listeners_def tracks_def)
qed

lemma run_loop_inv:
  assumes "daemon_inv others d w" and "run_loop e evs d w = (r, w')"
  shows "\<exists>st d'. r = Returns (st, d') \<and> daemon_inv others d' w' \<and> same_setup d d'
    \<and> st = (if ContextDone \<in> set evs then RunReturned None else RunWaiting)
    \<and> (ContextDone \<in> set evs \<longrightarrow> active d' = [])"
  using assms
proof (induction evs arbitrary: d w)
  case Nil
  then show ?case by auto
next
  case (Cons ev evs)
  show ?case
  proof (cases ev)
    case TimerTick
    obtain r1 w1 where p: "daemon_poll e d w = (r1, w1)" by fastforce
    from daemon_poll_inv [OF Cons.prems(1) p] obtain d1 where
      d1: "r1 = Returns d1" "daemon_inv others d1 w1" "same_setup d d1" by blast
    with Cons.prems(2) p TimerTick have "run_loop e evs d1 w1 = (r, w')" by simp
    from Cons.IH [OF d1(2) this] obtain d' where
      d': "r = Returns (if ContextDone \<in> set evs then RunReturned None else RunWaiting, d')"
        "daemon_inv others d' w'" "same_setup d1 d'" "ContextDone \<in> set evs \<longrightarrow> active d' = []" by blast
    have "same_setup d d'" using d1(3) d'(3) by (rule same_setup_trans)
    moreover have "ContextDone \<in> set (ev # evs) \<longleftrightarrow> ContextDone \<in> set evs" using TimerTick by simp
    ultimately show ?thesis using d' by simp
  next
    case ContextDone
    obtain r1 w1 where p: "daemon_cleanup e d w = (r1, w1)" by fastforce
    from daemon_cleanup_result [OF Cons.prems(1) p] Cons.prems(2) p ContextDone show ?thesis by auto
  qed
qed

end
