(* ===== verification/Daemon_Demo.thy ===== *)
theory Daemon_Demo
  imports Daemon_Invariant
begin

text \<open>
  An example for the properties of the daemon: a Linux system that refuses nothing, on which one
  \<open>ssh -L\<close> process listens on port 15432, and the daemon as it is created there.
\<close>

definition demo_line :: string where
  "demo_line = ''LISTEN 0 128 127.0.0.1:15432 0.0.0.0:* users:((ssh,pid=7,fd=3))''"

definition demo_cmd :: string where
  "demo_cmd = ''ssh -NL 15432:db:5432 h''"

definition demo_env :: os_env where
  "demo_env = runtime_env\<lparr>
     shell := \<lambda>_ argv _ f.
       (True, if argv = [''ss'', ''-tlnp''] then ''State Recv-Q'' @ [CHR 0x0A] @ demo_line @ [CHR 0x0A] else '''', f),
     proc_file := \<lambda>_ p. if p = ''/proc/7/cmdline'' then Some demo_cmd else None\<rparr>"

definition demo_tunnel :: port_forward where
  "demo_tunnel = \<lparr>pf_port = 15432, remote_host = ''db'', remote_port = 5432, resource = '''', pid = 7,
     cmdline = demo_cmd, tool = ''ssh''\<rparr>"

lemma demo_env_simps [simp]:
  "platform demo_env = Linux" "unicode_tables demo_env = demo_u" "fault_at demo_env t op p = Fine"
  "bind_refused demo_env t a n = False" "map_order demo_env t = id" "clock demo_env = int"
  by (simp_all add: demo_env_def runtime_env_def calm_env_def)

lemma demo_fields:
  "string_fields demo_line = [''LISTEN'', ''0'', ''128'', ''127.0.0.1:15432'', ''0.0.0.0:*'', ''users:((ssh,pid=7,fd=3))'']"
  using fields_join [of "[''LISTEN'', ''0'', ''128'', ''127.0.0.1:15432'', ''0.0.0.0:*'', ''users:((ssh,pid=7,fd=3))'']"]
  by (simp add: demo_line_def plain_field_def class_defs)

lemma demo_port: "parse_port_linux ''127.0.0.1:15432'' = 15432"
  using last_index_append [of "CHR '':''" "''15432''" "''127.0.0.1''"] atoi_itoa [of 15432]
  by (simp add: parse_port_linux_def itoa_def nat_dec.simps)

lemma demo_pid: "parse_pid_from_ss ''users:((ssh,pid=7,fd=3))'' = 7"
  using atoi_itoa [of 7] by (simp add: parse_pid_from_ss_def itoa_def nat_dec.simps has_prefix_def)

lemma demo_lines: "scan_lines (''State Recv-Q'' @ [CHR 0x0A] @ demo_line @ [CHR 0x0A]) = [''State Recv-Q'', demo_line]"
  by (simp add: scan_lines_def demo_line_def max_token_def drop_cr_def)

lemma demo_candidates:
  "List.map_filter ss_candidate (scan_lines (''State Recv-Q'' @ [CHR 0x0A] @ demo_line @ [CHR 0x0A])) = [(7, 15432)]"
proof -
  have "\<not> has_prefix demo_line ''State''" by (simp add: demo_line_def has_prefix_def)
  then have "ss_candidate demo_line = Some (7, 15432)"
    by (simp add: ss_candidate_def Let_def demo_fields demo_port demo_pid is_loopback_def contains_def
        has_prefix_def)
  moreover have "ss_candidate ''State Recv-Q'' = None" by (simp add: ss_candidate_def has_prefix_def)
  ultimately show ?thesis unfolding demo_lines by (simp add: map_filter_simps)
qed

lemma demo_classified: "classify_text u (trim_space (replace_byte CHR 0x00 CHR '' '' demo_cmd)) = Some (demo_cmd, ''ssh'')"
proof -
  have "trim_space (replace_byte CHR 0x00 CHR '' '' demo_cmd) = demo_cmd"
    by (simp add: replace_byte_def demo_cmd_def trim_space_ascii class_defs)
  moreover have "contains (to_lower u demo_cmd) ''ssh''"
    by (simp add: to_lower_ascii demo_cmd_def ascii_def contains_def lower_c_def is_upper_c_def has_prefix_def)
  moreover have "match_string ssh_l_re demo_cmd"
    unfolding match_ssh_l_re
    by (intro exI [of _ "''ssh ''"] exI [of _ "''N''"] exI [of _ "'' 15432:db:5432 h''"])
      (simp add: demo_cmd_def class_defs)
  ultimately show ?thesis by (simp add: classify_text_def classify_ssh_def)
qed

lemma demo_parsed: "forward_of u 7 15432 demo_cmd ''ssh'' = demo_tunnel"
proof -
  have itoa: "itoa 15432 = ''15432''" "itoa 5432 = ''5432''" by (simp_all add: itoa_def nat_dec.simps)
  have "l_spec 15432 ''db'' 5432 ''15432:db:5432''"
    using itoa by (simp add: l_spec_def)
  moreover have "l_args ''15432:db:5432'' [''-NL'', ''15432:db:5432'']"
    unfolding l_args_def by (intro disjI2 exI [of _ "''NL''"]) (simp add: class_defs)
  ultimately have "parse_ssh_info u demo_cmd 15432 = (''db'', 5432)"
    using parse_ssh_args [where pre = "[''ssh'']" and post = "[''h'']" and args = "[''-NL'', ''15432:db:5432'']"
        and lp = 15432 and rp = 5432 and host = "''db''" and spec = "''15432:db:5432''" and u = u]
    by (simp add: plain_field_def class_defs has_prefix_def demo_cmd_def)
  then show ?thesis by (simp add: forward_of_def parse_remote_info_def demo_tunnel_def)
qed

lemma demo_scan: "\<exists>w'. scan_ports demo_env w = (Inr [demo_tunnel], w')"
proof -
  have sh: "run_cmd demo_env [''ss'', ''-tlnp''] '''' w
      = ((True, ''State Recv-Q'' @ [CHR 0x0A] @ demo_line @ [CHR 0x0A]),
         (ticked w)\<lparr>ran := ran w @ [([''ss'', ''-tlnp''], '''')]\<rparr>)"
    by (simp add: run_cmd_def demo_env_def)
  have p: "join_path [''/proc'', itoa 7, ''cmdline''] = ''/proc/7/cmdline''"
    by (simp add: join_path_def clean_path_def has_prefix_def itoa_def nat_dec.simps)
  have "read_proc demo_env ''/proc/7/cmdline'' v = (Some demo_cmd, ticked v)" for v
    by (simp add: read_proc_def demo_env_def)
  then have "classify_cmdline_linux demo_env 7 v = (Some (demo_cmd, ''ssh''), ticked v)" for v
    by (simp add: classify_cmdline_linux_def p demo_classified)
  then show ?thesis
    unfolding scan_ports_def scan_linux_def
    by (simp add: sh demo_candidates demo_parsed del: append.simps append_Cons)
qed

section \<open>The daemon there\<close>

definition demo_state_dir :: string where
  "demo_state_dir = ''/etc/dnsmasq.d/local-auto-domain''"

definition demo_files :: world where
  "demo_files = (dir_world ''/r'')\<lparr>files :=
     [(''/r'', DirNode mode_755), (''/r/local-auto-domain'', DirNode mode_755), (''/etc'', DirNode mode_755),
      (''/etc/dnsmasq.d'', DirNode mode_755), (demo_state_dir, DirNode mode_755),
      (''/etc/dnsmasq.d/local-auto-domain/hosts'', FileNode mode_644 '''')]\<rparr>"

abbreviation demo_daemon :: daemon where
  "demo_daemon \<equiv> fst (new_daemon demo_env demo_crypto default_config demo_files)"

end
