(* ===== verification/Daemon_Steps.thy ===== *)
theory Daemon_Steps
  imports Daemon_Invariant
begin

text \<open>
  The daemon in small steps. Its goroutine and the server's share the store, whose operations are
  atomic; a request therefore sees the store as it is after some number of calls of \<open>add\<close> and
  \<open>remove\<close>, also in the middle of a poll. The relation \<open>daemon_step\<close> has these calls as its steps; every
  run of the loop is a sequence of them, so what they keep holds at the moment of every request.
\<close>

definition scannable :: "os_env \<Rightarrow> port_forward \<Rightarrow> bool" where
  "scannable e pf \<longleftrightarrow> (\<exists>v pfs v'. scan_ports e v = (Inr pfs, v') \<and> pf \<in> set pfs)"

inductive daemon_step :: "os_env \<Rightarrow> daemon \<times> world \<Rightarrow> daemon \<times> world \<Rightarrow> bool" for e where
  scans: "scan_ports e w = (s, w') \<Longrightarrow> daemon_step e (d, w) (d, w')"
| adds: "scannable e pf \<Longrightarrow> map_of (active d) (pf_port pf) = None \<Longrightarrow> daemon_add e pf d w = (d', w') \<Longrightarrow>
    daemon_step e (d, w) (d', w')"
| removes: "map_of (active d) port = Some ae \<Longrightarrow> daemon_remove e port d w = (Returns d', w') \<Longrightarrow>
    daemon_step e (d, w) (d', w')"

inductive_cases daemon_stepE: "daemon_step e (d, w) (d', w')"
lemmas daemon_step_cases = daemon_stepE [case_names scans adds removes, consumes 1]

abbreviation daemon_steps :: "os_env \<Rightarrow> daemon \<times> world \<Rightarrow> daemon \<times> world \<Rightarrow> bool" where
  "daemon_steps e \<equiv> (daemon_step e)\<^sup>*\<^sup>*"

lemma steps_trans: "daemon_steps e x y \<Longrightarrow> daemon_steps e y z \<Longrightarrow> daemon_steps e x z"
  by (rule rtranclp_trans)

lemma step_then: "daemon_step e x y \<Longrightarrow> daemon_steps e y z \<Longrightarrow> daemon_steps e x z"
  by (rule converse_rtranclp_into_rtranclp)

section \<open>A run is a sequence of steps\<close>

lemma add_new_steps:
  assumes "\<And>port pf. map_of current port = Some pf \<Longrightarrow> pf_port pf = port \<and> scannable e pf"
    and "add_new e current ports d w = (d', w')"
  shows "daemon_steps e (d, w) (d', w')"
  using assms(2)
proof (induction ports arbitrary: d w)
  case (Cons port ports)
  show ?case
  proof (cases "\<exists>pf. map_of current port = Some pf \<and> map_of (active d) port = None")
    case False
    then have "add_new e current ports d w = (d', w')" using Cons.prems by (auto split: option.splits)
    then show ?thesis by (rule Cons.IH)
  next
    case True
    then obtain pf where pf: "map_of current port = Some pf" "map_of (active d) port = None" by blast
    then have n: "map_of (active d) (pf_port pf) = None" "scannable e pf" using assms(1) by auto
    obtain d1 w1 where d1: "daemon_add e pf d w = (d1, w1)" by fastforce
    with Cons.prems pf have "add_new e current ports d1 w1 = (d', w')" by simp
    from step_then [OF daemon_step.adds [OF n(2,1) d1] Cons.IH [OF this]] show ?thesis .
  qed
qed simp

lemma remove_gone_steps: "remove_gone e keep ports d w = (Returns d', w') \<Longrightarrow> daemon_steps e (d, w) (d', w')"
proof (induction ports arbitrary: d w)
  case (Cons port ports)
  show ?case
  proof (cases "keep port")
    case True
    with Cons show ?thesis by simp
  next
    case False
    obtain r1 w1 where r1: "daemon_remove e port d w = (r1, w1)" by fastforce
    with Cons.prems False obtain d1 where
      d1: "r1 = Returns d1" "remove_gone e keep ports d1 w1 = (Returns d', w')" by (cases r1) auto
    from r1 d1(1) obtain ae where ae: "map_of (active d) port = Some ae"
      by (auto simp: daemon_remove_def split: option.splits)
    from step_then [OF daemon_step.removes [OF ae r1 [unfolded d1(1)]] Cons.IH [OF d1(2)]] show ?thesis .
  qed
qed simp

lemma daemon_poll_steps:
  assumes "daemon_poll e d w = (Returns d', w')"
  shows "daemon_steps e (d, w) (d', w')"
proof -
  obtain s w1 where s: "scan_ports e w = (s, w1)" by fastforce
  note scan = daemon_step.scans [OF s, of d]
  show ?thesis
  proof (cases s)
    case (Inl er)
    with s assms scan show ?thesis by (auto simp: daemon_poll_def)
  next
    case (Inr pfs)
    let ?c = "current_forwards pfs"
    obtain d2 w2 where a: "add_new e ?c (range_keys e w1 (map fst ?c)) d w1 = (d2, w2)" by fastforce
    have "pf_port pf = port \<and> scannable e pf" if "map_of ?c port = Some pf" for port pf
      using current_forwards_Some [OF that] s Inr unfolding scannable_def by blast
    from add_new_steps [OF this a] have "daemon_steps e (d, w1) (d2, w2)" by blast
    moreover have "daemon_steps e (d2, w2) (d', w')"
      using assms s Inr a by (auto simp: daemon_poll_def apply_scan_def intro: remove_gone_steps)
    ultimately show ?thesis by (rule step_then [OF scan steps_trans])
  qed
qed

lemma run_loop_steps:
  "run_loop e evs d w = (Returns (st, d'), w') \<Longrightarrow> daemon_steps e (d, w) (d', w')"
proof (induction evs arbitrary: d w)
  case (Cons ev evs)
  show ?case
  proof (cases ev)
    case TimerTick
    obtain r1 w1 where p: "daemon_poll e d w = (r1, w1)" by fastforce
    with Cons.prems TimerTick obtain d1 where
      "r1 = Returns d1" "run_loop e evs d1 w1 = (Returns (st, d'), w')" by (cases r1) auto
    with p steps_trans [OF daemon_poll_steps Cons.IH] show ?thesis by blast
  next
    case ContextDone
    obtain r1 w1 where c: "daemon_cleanup e d w = (r1, w1)" by fastforce
    with Cons.prems ContextDone have "r1 = Returns d'" "w1 = w'" by (cases r1; auto)+
    with c show ?thesis unfolding daemon_cleanup_def by (blast intro: remove_gone_steps)
  qed
qed simp

section \<open>What every step keeps\<close>

lemma daemon_step_inv:
  assumes "daemon_step e (d, w) (d', w')" and "daemon_inv others d w"
  shows "daemon_inv others d' w' \<and> same_setup d d'"
  using assms(1)
proof (cases rule: daemon_step_cases)
  case (scans s)
  then show ?thesis using daemon_inv_quiet [OF assms(2) any_scan.scan_quiet] by simp
next
  case (adds pf)
  then show ?thesis using daemon_add_inv [OF assms(2)] daemon_add_active [OF assms(2)] by blast
next
  case (removes port ae)
  then show ?thesis using daemon_remove_inv [OF assms(2)] by (fastforce simp: same_setup_def)
qed

lemma steps_inv:
  assumes "daemon_steps e (d, w) (d', w')" and "daemon_inv others d w"
  shows "daemon_inv others d' w' \<and> same_setup d d'"
  using assms(1)
proof (induction rule: rtranclp_induct2)
  case refl
  then show ?case using assms(2) by simp
next
  case (step d1 w1 d2 w2)
  then show ?case using daemon_step_inv same_setup_trans by blast
qed

text \<open>
  A further property that the scan, \<open>add\<close> and \<open>remove\<close> each keep holds at every moment of a run.
\<close>

locale daemon_property =
  fixes P :: "os_env \<Rightarrow> daemon \<Rightarrow> world \<Rightarrow> bool"
  assumes scan_keeps: "P e d w \<Longrightarrow> quietly e w w' \<Longrightarrow> P e d w'"
    and add_keeps: "daemon_inv others d w \<Longrightarrow> P e d w \<Longrightarrow> scannable e pf \<Longrightarrow>
      map_of (active d) (pf_port pf) = None \<Longrightarrow> daemon_add e pf d w = (d', w') \<Longrightarrow> P e d' w'"
    and remove_keeps: "daemon_inv others d w \<Longrightarrow> P e d w \<Longrightarrow>
      map_of (active d) port = Some ae \<Longrightarrow> daemon_remove e port d w = (Returns d', w') \<Longrightarrow> P e d' w'"
begin

lemma step_keeps:
  assumes "daemon_step e (d, w) (d', w')" and "daemon_inv others d w" and "P e d w"
  shows "P e d' w'"
  using assms(1)
proof (cases rule: daemon_step_cases)
  case (scans s)
  then show ?thesis using scan_keeps [OF assms(3) any_scan.scan_quiet] by simp
next
  case (adds pf)
  then show ?thesis by (rule add_keeps [OF assms(2,3)])
next
  case (removes port ae)
  then show ?thesis by (rule remove_keeps [OF assms(2,3)])
qed

lemma steps_keep:
  assumes "daemon_steps e (d, w) (d', w')" and "daemon_inv others d w" and "P e d w"
  shows "P e d' w'"
  using assms(1)
proof (induction rule: rtranclp_induct2)
  case refl
  then show ?case using assms(3) .
next
  case (step d1 w1 d2 w2)
  then show ?case using steps_inv [OF step(1) assms(2)] step_keeps by blast
qed

end

end
