(* ===== verification/Daemon_Life.thy ===== *)
theory Daemon_Life
  imports Daemon_Demo Daemon_Steps
begin

text \<open>
  The properties of a whole run of the daemon, and of its operations \<open>add\<close>, \<open>remove\<close> and \<open>poll\<close>, that
  hold whatever the system refuses.
\<close>

section \<open>The server does not touch the TCP addresses\<close>

lemma server_start_bound: "server_start e s w = ((r, s'), w') \<Longrightarrow> bound w' = bound w"
proof -
  have c: "bound (snd (chmod_path e p m v)) = bound v" for p m v
    by (auto simp: chmod_path_def split: fault.splits option.splits)
  have l: "bound (snd (listen_unix e p v)) = bound v" for p v
    by (auto simp: listen_unix_def split: fault.splits)
  assume s: "server_start e s w = ((r, s'), w')"
  let ?d = "dir_name (sock_path s)" and ?p = "sock_path s"
  obtain r1 w1 where w1: "mkdir_all e ?d mode_700 w = (r1, w1)" by fastforce
  obtain r2 w2 where w2: "chmod_path e ?d mode_700 w1 = (r2, w2)" by fastforce
  obtain r3 w3 where w3: "remove_file e ?p w2 = (r3, w3)" by fastforce
  obtain r4 w4 where w4: "listen_unix e ?p w3 = (r4, w4)" by fastforce
  obtain r5 w5 where w5: "chmod_path e ?p mode_600 w4 = (r5, w5)" by fastforce
  have "bound w1 = bound w" using mkdir_all_other [OF w1] by simp
  moreover have "bound w2 = bound w1" using c [of ?d mode_700 w1] w2 by simp
  moreover have "bound w3 = bound w2" using remove_file_bound [of e ?p w2] w3 by simp
  moreover have "bound w4 = bound w3" using l [of ?p w3] w4 by simp
  moreover have "bound w5 = bound w4" using c [of ?p mode_600 w4] w5 by simp
  ultimately show ?thesis using s w1 w2 w3 w4 w5
    by (cases r1; cases r2; cases r4; cases r5) (auto simp: server_start_def Let_def unlink_socket_def)
qed

lemma server_stop_bound [simp]: "bound (server_stop e s w) = bound w"
  by (simp add: server_stop_def Let_def unlink_socket_def remove_file_bound)

section \<open>A whole run\<close>

abbreviation fresh_daemon :: "os_env \<Rightarrow> crypto \<Rightarrow> config \<Rightarrow> world \<Rightarrow> daemon" where
  "fresh_daemon e c cfg v \<equiv> fst (new_daemon e c cfg v)"

lemma new_daemon_fields:
  "active (fresh_daemon e c cfg v) = []" "d_cfg (fresh_daemon e c cfg v) = cfg"
  "d_srv (fresh_daemon e c cfg v) = new_server e" "d_alloc (fresh_daemon e c cfg v) = new_allocator"
  "d_store (fresh_daemon e c cfg v) = new_state_store"
  by (simp_all add: new_daemon_def split: prod.splits)

lemma fresh_daemon_inv: "daemon_inv (mset (bound w)) (fresh_daemon e c cfg v) w"
proof -
  have "in_use new_allocator = {}" by (simp add: in_use_def new_allocator_def)
  moreover have "addresses (fresh_daemon e c cfg v) = Map.empty"
    by (rule ext) (simp add: addresses_def new_daemon_fields)
  ultimately show ?thesis
    by (simp add: daemon_inv_def new_daemon_fields alloc_wf_new tracks_empty new_state_store_def open_listeners_def)
qed

lemma daemon_run_result:
  assumes inv: "daemon_inv others d w" and int: "0 < poll_interval (d_cfg d)"
    and ne: "dir_name (sock_path (d_srv d)) \<noteq> sock_path (d_srv d)"
    and run: "daemon_run e evs d w = (r, w')"
  shows "\<exists>st d'. r = Returns (st, d') \<and> daemon_inv others d' w'
    \<and> d_cfg d' = d_cfg d \<and> d_cert d' = d_cert d \<and> d_dns d' = d_dns d
    \<and> (case st of
         RunWaiting \<Rightarrow> ContextDone \<notin> set evs
       | RunReturned None \<Rightarrow> active d' = [] \<and> node_at w' (sock_path (d_srv d)) = None
       | RunReturned (Some er) \<Rightarrow> active d' = active d)
    \<and> (fst (fst (server_start e (d_srv d) w)) = None
         \<longrightarrow> st = (if ContextDone \<in> set evs then RunReturned None else RunWaiting))"
proof -
  obtain sr s w1 where ss: "server_start e (d_srv d) w = ((sr, s), w1)" by (metis prod.collapse)
  have i1: "daemon_inv others (d\<lparr>d_srv := s\<rparr>) w1"
    using inv server_start_bound [OF ss]
    by (simp add: daemon_inv_def open_listeners_def addresses_def [abs_def])
  show ?thesis
  proof (cases sr)
    case (Some er)
    with run ss have "r = Returns (RunReturned (Some er), d\<lparr>d_srv := s\<rparr>)" "w' = w1"
      by (simp_all add: daemon_run_def)
    with i1 ss Some show ?thesis by auto
  next
    case None
    note st = server_start_ok(1) [OF ss [unfolded None] ne]
    obtain r2 w2 where lp: "run_loop e (TimerTick # evs) (d\<lparr>d_srv := s\<rparr>) w1 = (r2, w2)" by fastforce
    from run_loop_inv [OF i1 lp] obtain st2 d2 where
      d2: "r2 = Returns (st2, d2)" "daemon_inv others d2 w2" "same_setup (d\<lparr>d_srv := s\<rparr>) d2"
        "st2 = (if ContextDone \<in> set (TimerTick # evs) then RunReturned None else RunWaiting)"
        "ContextDone \<in> set (TimerTick # evs) \<longrightarrow> active d2 = []" by blast
    show ?thesis
    proof (cases "ContextDone \<in> set evs")
      case True
      then have "daemon_run e evs d w = (Returns (RunReturned None, d2), server_stop e s w2)"
        using ss None int lp d2(1,4) by (simp add: daemon_run_def del: run_loop.simps)
      then have r: "r = Returns (RunReturned None, d2)" and w': "w' = server_stop e s w2"
        using run by simp_all
      have "daemon_inv others d2 w'" using d2(2) by (simp add: w' daemon_inv_def)
      moreover have "node_at w' (sock_path (d_srv d)) = None"
        using server_stop_gone [of s e w2] by (simp add: w' st)
      ultimately show ?thesis using r d2(3,5) True ss by (auto simp: same_setup_def)
    next
      case False
      then have "daemon_run e evs d w = (Returns (RunWaiting, d2), w2)"
        using ss None int lp d2(1,4) by (simp add: daemon_run_def del: run_loop.simps)
      then have "r = Returns (RunWaiting, d2)" "w' = w2" using run by simp_all
      with False d2(2,3) ss show ?thesis by (auto simp: same_setup_def)
    qed
  qed
qed

text \<open>
  C2: whatever the scanner reports, whatever the system refuses and however long the daemon runs, it
  does not panic, and its map, the allocator, the store and the bound addresses agree: each forward
  has one address of its own, which is reserved for it alone; the store shows exactly the active
  entries; and exactly the listeners of the active proxies are bound, beside what was bound before.
\<close>

theorem daemon_run_safe:
  assumes "0 < poll_interval cfg"
    and "daemon_run e evs (fresh_daemon e c cfg v) w = (r, w')"
  shows "\<exists>st d'. r = Returns (st, d') \<and> daemon_inv (mset (bound w)) d' w'"
proof -
  have "dir_name (sock_path (d_srv (fresh_daemon e c cfg v))) \<noteq> sock_path (d_srv (fresh_daemon e c cfg v))"
    using socket_not_dir by (simp add: new_daemon_fields new_server_def)
  from daemon_run_result [OF fresh_daemon_inv _ this assms(2)] assms(1) show ?thesis
    by (auto simp: new_daemon_fields)
qed

lemma demo_start: "\<exists>s w1. server_start demo_env (d_srv demo_daemon) demo_files = ((None, s), w1)"
proof (rule server_start_runs)
  have p: "socket_path demo_env = ''/r/local-auto-domain/daemon.sock''"
    using runtime_paths(1) by (simp add: socket_path_def data_dir_def demo_env_def runtime_env_def)
  have "ancestors ''/r/local-auto-domain'' = [''/r'']" by (simp add: ancestors_def upt_rec)
  then show "dir_ready demo_files (dir_name (sock_path (d_srv demo_daemon)))"
    by (simp add: new_daemon_fields new_server_def p runtime_paths(2) dir_ready_def)
      (simp add: demo_files_def dir_world_def)
  show "dir_name (sock_path (d_srv demo_daemon)) \<noteq> sock_path (d_srv demo_daemon)"
    using socket_not_dir by (simp add: new_daemon_fields new_server_def)
  show "node_at demo_files (sock_path (d_srv demo_daemon)) = None
      \<or> node_at demo_files (sock_path (d_srv demo_daemon)) = Some (SockNode mode_755)"
    by (simp add: new_daemon_fields new_server_def p) (simp add: demo_files_def demo_state_dir_def)
  show "all_fine demo_env" by (simp add: all_fine_def)
qed

lemma demo_run:
  "\<exists>d' w'. daemon_run demo_env evs demo_daemon demo_files
     = (Returns (if ContextDone \<in> set evs then RunReturned None else RunWaiting, d'), w')"
proof -
  obtain r w' where run: "daemon_run demo_env evs demo_daemon demo_files = (r, w')" by fastforce
  have "dir_name (sock_path (d_srv demo_daemon)) \<noteq> sock_path (d_srv demo_daemon)"
    using socket_not_dir by (simp add: new_daemon_fields new_server_def)
  from daemon_run_result [OF fresh_daemon_inv _ this run] demo_start run show ?thesis
    by (auto simp: new_daemon_fields default_config_def)
qed

theorem daemon_run_safe_witness:
  "\<exists>st d' w'. daemon_run demo_env [TimerTick, ContextDone] demo_daemon demo_files = (Returns (st, d'), w')
     \<and> daemon_inv (mset (bound demo_files)) d' w'"
proof -
  obtain r w' where run: "daemon_run demo_env [TimerTick, ContextDone] demo_daemon demo_files = (r, w')"
    by fastforce
  have "0 < poll_interval default_config" by (simp add: default_config_def)
  from daemon_run_safe [OF this run] show ?thesis using run by auto
qed

text \<open>
  C3: a run that ends, ends clean: no forward, address, entry or listener is left, and the socket is
  gone.
\<close>

theorem daemon_run_releases:
  assumes "0 < poll_interval cfg"
    and "daemon_run e evs (fresh_daemon e c cfg v) w = (Returns (RunReturned None, d'), w')"
  shows "active d' = [] \<and> in_use (d_alloc d') = {} \<and> entries (d_store d') = Map.empty
    \<and> mset (bound w') = mset (bound w) \<and> node_at w' (socket_path e) = None"
proof -
  let ?d = "fresh_daemon e c cfg v"
  have ne: "dir_name (sock_path (d_srv ?d)) \<noteq> sock_path (d_srv ?d)"
    using socket_not_dir by (simp add: new_daemon_fields new_server_def)
  from daemon_run_result [OF fresh_daemon_inv _ ne assms(2)] assms(1)
  have "daemon_inv (mset (bound w)) d' w'" "active d' = []" "node_at w' (sock_path (d_srv ?d)) = None"
    by (auto simp: new_daemon_fields)
  with daemon_inv_empty show ?thesis by (auto simp: new_daemon_fields new_server_def)
qed

theorem daemon_run_releases_witness:
  "\<exists>d' w'. daemon_run demo_env [TimerTick, ContextDone] demo_daemon demo_files = (Returns (RunReturned None, d'), w')
     \<and> active d' = [] \<and> node_at w' (socket_path demo_env) = None"
proof -
  obtain d' w' where run: "daemon_run demo_env [TimerTick, ContextDone] demo_daemon demo_files
      = (Returns (RunReturned None, d'), w')" using demo_run [of "[TimerTick, ContextDone]"] by auto
  from daemon_run_releases [OF _ run] run show ?thesis by (auto simp: default_config_def)
qed

text \<open>
  An interval that is not positive, which the configuration file may well say, makes \<open>Run\<close> panic
  as soon as the server has started, before the first poll.
\<close>

theorem daemon_run_interval_panics:
  assumes "poll_interval (d_cfg d) \<le> 0" and "server_start e (d_srv d) w = ((None, s), w1)"
  shows "daemon_run e evs d w = (Panics, server_stop e s w1)"
  using assms by (simp add: daemon_run_def)

theorem daemon_run_interval_panics_witness:
  "fst (daemon_run demo_env [] (demo_daemon\<lparr>d_cfg := default_config\<lparr>poll_interval := 0\<rparr>\<rparr>) demo_files) = Panics"
proof -
  obtain s w1 where "server_start demo_env (d_srv demo_daemon) demo_files = ((None, s), w1)"
    using demo_start by blast
  with daemon_run_interval_panics [of "demo_daemon\<lparr>d_cfg := default_config\<lparr>poll_interval := 0\<rparr>\<rparr>" demo_env demo_files s w1]
  show ?thesis by simp
qed

section \<open>Addresses\<close>

lemma pool_string_inj:
  "x \<in> pool \<Longrightarrow> y \<in> pool \<Longrightarrow> ip4_string x = ip4_string y \<Longrightarrow> x = y"
  by (auto simp: pool_def ip4_string_def word_unat_eq_iff dest!: nat_dec_inj)

lemma daemon_inv_pool: "daemon_inv others d w \<Longrightarrow> (port, ae) \<in> set (active d) \<Longrightarrow> ae_ip ae \<in> pool"
proof -
  assume i: "daemon_inv others d w" and p: "(port, ae) \<in> set (active d)"
  then have "addresses d port = Some (ae_ip ae)" by (simp add: daemon_inv_def addresses_def)
  with i have "ae_ip ae \<in> in_use (d_alloc d)" by (auto simp: daemon_inv_def tracks_def intro: Map.ranI)
  with i show ?thesis using alloc_wf_pool by (auto simp: daemon_inv_def)
qed

lemma daemon_inv_own_address:
  assumes "daemon_inv others d w" "(p, a) \<in> set (active d)" "(q, b) \<in> set (active d)"
    and "e_ip (ae_entry a) = e_ip (ae_entry b)"
  shows "p = q"
proof -
  have "e_ip (ae_entry x) = ip4_string (ae_ip x)" if "(k, x) \<in> set (active d)" for k x
    using assms(1) that by (fastforce simp: daemon_inv_def list_all_iff Let_def)
  then have "ip4_string (ae_ip a) = ip4_string (ae_ip b)" using assms(2-4) by metis
  then have "ae_ip a = ae_ip b" using pool_string_inj daemon_inv_pool assms by metis
  moreover have "addresses d p = Some (ae_ip a)" "addresses d q = Some (ae_ip b)"
    using assms by (auto simp: daemon_inv_def addresses_def)
  ultimately show ?thesis using assms(1) unfolding daemon_inv_def tracks_def by metis
qed

lemma daemon_inv_capacity: "daemon_inv others d w \<Longrightarrow> length (active d) \<le> 254"
proof -
  assume i: "daemon_inv others d w"
  have "card (dom (addresses d)) \<le> card pool"
    using i lad_pool.tracks_bounded alloc_wf_pool by (auto simp: daemon_inv_def)
  moreover have "dom (addresses d) = fst ` set (active d)"
    by (auto simp: addresses_def dom_map_of_conv_image_fst [symmetric])
  moreover have "card (fst ` set (active d)) = length (active d)"
    using i distinct_card [of "map fst (active d)"] by (simp add: daemon_inv_def)
  ultimately show ?thesis by (simp add: card_pool)
qed

text \<open>
  C11: at any point of a run, each active forward has a loopback address that no other active forward
  has, so at most 254 forwards are active.
\<close>

theorem daemon_run_addresses:
  assumes "0 < poll_interval cfg"
    and "daemon_run e evs (fresh_daemon e c cfg v) w = (Returns (st, d'), w')"
  shows "length (active d') \<le> 254 \<and> distinct (map (\<lambda>(_, ae). e_ip (ae_entry ae)) (active d'))"
proof -
  have "dir_name (sock_path (d_srv (fresh_daemon e c cfg v))) \<noteq> sock_path (d_srv (fresh_daemon e c cfg v))"
    using socket_not_dir by (simp add: new_daemon_fields new_server_def)
  from daemon_run_result [OF fresh_daemon_inv _ this assms(2)] assms(1)
  have i: "daemon_inv (mset (bound w)) d' w'" by (auto simp: new_daemon_fields)
  then have "distinct (active d')" by (simp add: daemon_inv_def distinct_map)
  moreover have "inj_on (\<lambda>(_, ae). e_ip (ae_entry ae)) (set (active d'))"
  proof (rule inj_onI)
    fix x y assume xy: "x \<in> set (active d')" "y \<in> set (active d')"
      "(\<lambda>(_, ae). e_ip (ae_entry ae)) x = (\<lambda>(_, ae). e_ip (ae_entry ae)) y"
    obtain p a q b where "x = (p, a)" "y = (q, b)" by fastforce
    with xy daemon_inv_own_address [OF i] have "p = q" by auto
    with xy i \<open>x = (p, a)\<close> \<open>y = (q, b)\<close> show "x = y"
      by (auto simp: daemon_inv_def dest: eq_key_imp_eq_value)
  qed
  ultimately show ?thesis using daemon_inv_capacity [OF i] by (simp add: distinct_map)
qed

theorem daemon_run_addresses_witness:
  "\<exists>d' w'. daemon_run demo_env [TimerTick] demo_daemon demo_files = (Returns (RunWaiting, d'), w')
     \<and> length (active d') \<le> 254"
proof -
  obtain d' w' where run: "daemon_run demo_env [TimerTick] demo_daemon demo_files
      = (Returns (RunWaiting, d'), w')" using demo_run [of "[TimerTick]"] by auto
  from daemon_run_addresses [OF _ run] run show ?thesis by (auto simp: default_config_def)
qed

section \<open>The operations\<close>

text \<open>
  C13: an \<open>add\<close> that does not make the forward active, because no address is left or the resolver
  refuses the name, leaves the daemon exactly as it was: the address is free again, and no
  listener stays open.
\<close>

theorem daemon_add_fails_clean:
  assumes "daemon_inv others d w" and "daemon_add e pf d w = (d', w')"
    and "map_of (active d') (pf_port pf) = None"
  shows "d' = d \<and> bound w' = bound w"
proof -
  from assms(1) have "alloc_wf (d_alloc d)" by (simp add: daemon_inv_def)
  from this assms(2) show ?thesis
  proof (cases rule: daemon_add_cases)
    case (refused x a1 er w1 r)
    then show ?thesis
      using ensure_alias_quietly dns_add_bound by (metis quietly_def snd_conv)
  next
    case (added x a1 er w1 w2 r p w3 now)
    with assms(3) show ?thesis by simp
  qed simp
qed

text \<open>A top-level domain that is no host-name text makes the resolver refuse every name.\<close>

definition bad_tld_daemon :: daemon where
  "bad_tld_daemon = fst (new_daemon demo_env demo_crypto (default_config\<lparr>tld := ''a!b''\<rparr>) demo_files)"

lemma bad_tld_refused: "map_of (active (fst (daemon_add demo_env demo_tunnel bad_tld_daemon demo_files))) 15432 = None"
proof -
  obtain d' w' where add: "daemon_add demo_env demo_tunnel bad_tld_daemon demo_files = (d', w')" by fastforce
  have f: "active bad_tld_daemon = []" "d_alloc bad_tld_daemon = new_allocator"
    "tld (d_cfg bad_tld_daemon) = ''a!b''"
    by (simp_all add: bad_tld_daemon_def new_daemon_fields)
  have "\<not> valid_hostname (trim_space (l @ ''.'' @ ''a!b''))" if "dns_label l" for l
  proof -
    have asc: "all_ascii (l @ ''.'' @ ''a!b'')" and sp: "list_all (\<lambda>c. \<not> is_space_c c) (l @ ''.'' @ ''a!b'')"
      using that by (auto simp: dns_label_def list_all_iff label_c_def class_defs)
    show ?thesis unfolding trim_space_none [OF asc sp] valid_hostname_iff
      by (simp add: host_c_def alnum_c_def class_defs)
  qed
  moreover have "dns_label (generate_label demo_u demo_tunnel (d_cfg bad_tld_daemon) [])"
    by (rule label_dns) (simp_all add: bad_tld_daemon_def new_daemon_fields base_identifier_def demo_tunnel_def
        default_config_def map_get_def ascii_def)
  ultimately have bad: "\<not> valid_hostname (trim_space (name_for demo_env bad_tld_daemon demo_tunnel))"
    by (simp add: generate_def f active_names_def)
  have "alloc_wf (d_alloc bad_tld_daemon)" by (simp add: f alloc_wf_new)
  from this add have "active d' = []"
  proof (cases rule: daemon_add_cases)
    case (added x a1 er w1 w2 r p w3 now)
    with bad show ?thesis by (auto simp: dns_add_def Let_def split: if_splits)
  qed (simp_all add: f)
  then show ?thesis by (simp add: add)
qed

theorem daemon_add_fails_clean_witness:
  "fst (daemon_add demo_env demo_tunnel bad_tld_daemon demo_files) = bad_tld_daemon"
proof -
  obtain d' w' where add: "daemon_add demo_env demo_tunnel bad_tld_daemon demo_files = (d', w')" by fastforce
  with bad_tld_refused have "map_of (active d') (pf_port demo_tunnel) = None" by (simp add: demo_tunnel_def)
  from daemon_add_fails_clean [OF fresh_daemon_inv [of demo_files demo_env demo_crypto "default_config\<lparr>tld := ''a!b''\<rparr>" demo_files,
        folded bad_tld_daemon_def] add this] add
  show ?thesis by simp
qed

text \<open>
  C14: a poll whose scan succeeds returns; an active forward whose local port is still in the scan
  keeps its entry, address and proxy untouched, even when the process or the remote end behind the
  port has changed; every other active forward is removed, and nothing outside the scan is active.
  When the scan fails the daemon is left as it was.
\<close>

theorem daemon_poll_keeps:
  assumes "daemon_inv others d w" and "scan_ports e w = (s, w1)"
  shows "case s of
      Inl er \<Rightarrow> daemon_poll e d w = (Returns d, w1)
    | Inr pfs \<Rightarrow> \<exists>d' w'. daemon_poll e d w = (Returns d', w')
        \<and> (\<forall>port \<in> pf_port ` set pfs. map_of (active d) port \<noteq> None
             \<longrightarrow> map_of (active d') port = map_of (active d) port)
        \<and> ports_of d' \<subseteq> pf_port ` set pfs"
proof (cases s)
  case (Inl er)
  with assms(2) show ?thesis by (simp add: daemon_poll_def)
next
  case (Inr pfs)
  have i: "daemon_inv others d w1"
    by (rule daemon_inv_quiet [OF assms(1) any_scan.scan_quiet [OF assms(2)]])
  obtain r w' where ap: "apply_scan e pfs d w1 = (r, w')" by fastforce
  from apply_scan_result [OF i ap] obtain d' news where
    d': "r = Returns d'" "daemon_inv others d' w'"
      "active d' = filter (\<lambda>(p, _). p \<in> pf_port ` set pfs) (active d) @ news"
      "fst ` set news \<subseteq> pf_port ` set pfs" by blast
  have "map_of (active d') port = map_of (active d) port"
    if "port \<in> pf_port ` set pfs" "map_of (active d) port = Some ae" for port ae
  proof -
    have "(port, ae) \<in> set (active d')" using that map_of_SomeD by (fastforce simp: d'(3))
    then show ?thesis using d'(2) that(2) by (simp add: daemon_inv_def)
  qed
  moreover have "ports_of d' \<subseteq> pf_port ` set pfs" using d'(4) by (auto simp: d'(3))
  moreover have "daemon_poll e d w = (Returns d', w')"
    using assms(2) Inr ap d'(1) by (simp add: daemon_poll_def)
  ultimately show ?thesis using Inr by auto
qed


theorem daemon_poll_keeps_witness:
  "\<exists>d' w'. daemon_poll demo_env demo_daemon demo_files = (Returns d', w') \<and> ports_of d' \<subseteq> {15432}"
proof -
  obtain w1 where "scan_ports demo_env demo_files = (Inr [demo_tunnel], w1)" using demo_scan by blast
  from daemon_poll_keeps [OF fresh_daemon_inv [where e = demo_env and c = demo_crypto and cfg = default_config
        and v = demo_files] this]
  show ?thesis by (auto simp: demo_tunnel_def)
qed

end
