(* ===== verification/Daemon_Published.thy ===== *)
theory Daemon_Published
  imports Daemon_Life
begin

text \<open>
  What the resolver is told about the active forwards, in any environment whose commands leave the
  files alone: calls may fail at any time. The state file of a port is only touched by the calls
  for that port.
\<close>

lemma shell_quiet_reload: "shell_quiet e \<Longrightarrow> reload_quiet e"
  by (simp add: shell_quiet_def reload_quiet_def)

lemma conf_path_join_neq:
  "plain_name n \<Longrightarrow> n \<noteq> conf_name p \<Longrightarrow> join_path [dns_dir m, n] \<noteq> conf_path m p"
  unfolding conf_path_def using join_path_inj conf_name_plain by blast

lemma hosts_path_join_neq:
  "plain_name n \<Longrightarrow> is_conf_name n \<Longrightarrow> join_path [dns_dir m, n] \<noteq> hosts_path m"
  unfolding hosts_path_def using join_path_inj hosts_plain by metis

lemma sync_entry: "reload_quiet e \<Longrightarrow> sync_and_reload e m w = (r, w') \<Longrightarrow> dns_entry (files w') m n = dns_entry (files w) m n"
  using sync_files hosts_path_join_neq by (simp add: dns_entry_def)

lemma dns_add_entry:
  assumes q: "reload_quiet e" and add: "dns_add e m port name ip w = (r, w')"
  shows "n \<noteq> conf_name port \<Longrightarrow> dns_entry (files w') m n = dns_entry (files w) m n"
    and "r = None \<Longrightarrow> dns_entry (files w') m (conf_name port) = Some (dns_line (trim_space ip) (trim_space name))"
proof -
  let ?l = "dns_line (trim_space ip) (trim_space name)"
  obtain r1 w1 where w1: "mkdir_all e (dns_dir m) mode_755 w = (r1, w1)" by fastforce
  obtain r2 w2 where w2: "write_file e (conf_path m port) (?l @ [CHR 0x0A]) mode_644 w1 = (r2, w2)" by fastforce
  obtain r3 w3 where w3: "sync_and_reload e m w2 = (r3, w3)" by fastforce
  have m: "dns_entry (files w1) m k = dns_entry (files w) m k" for k
    unfolding dns_entry_def using mkdir_all_file [OF w1] mkdir_all_keeps [OF w1]
    by (auto split: option.splits node.splits)
  have o: "dns_entry (files w2) m k = dns_entry (files w1) m k" if "k \<noteq> conf_name port" for k
  proof -
    have "node_at w2 p = node_at w1 p" if "p \<noteq> conf_path m port" for p
      using write_file_frame [OF that, of e "?l @ [CHR 0x0A]" mode_644 w1] w2 by simp
    then show ?thesis using conf_path_join_neq [OF _ that, of m] by (simp add: dns_entry_def)
  qed
  note s = sync_entry [OF q w3]
  show "n \<noteq> conf_name port \<Longrightarrow> dns_entry (files w') m n = dns_entry (files w) m n"
    using add w1 w2 w3 m o s by (auto simp: dns_add_def Let_def split: if_splits option.splits)
  show "dns_entry (files w') m (conf_name port) = Some ?l" if "r = None"
  proof -
    have ok: "parse_ip_ok (trim_space ip)" "valid_hostname (trim_space name)" "r2 = None" "w' = w3"
      using add w1 w2 w3 that by (auto simp: dns_add_def Let_def split: if_splits option.splits)
    then have el: "entry_line ?l" by (auto simp: entry_line_def)
    obtain k where "files w2 = AList.update (conf_path m port) (FileNode k (?l @ [CHR 0x0A])) (files w1)"
      using write_file_result [OF w2 [unfolded ok(3)]] by auto
    then show ?thesis
      using entry_line_trim [OF el] entry_line_nonempty [OF el] by (simp add: ok(4) s dns_entry_update)
  qed
qed

lemma dns_remove_entry:
  assumes q: "reload_quiet e" and rem: "dns_remove e m port w = (r, w')" and n: "n \<noteq> conf_name port"
  shows "dns_entry (files w') m n = dns_entry (files w) m n"
proof -
  obtain r1 w1 where w1: "remove_file e (conf_path m port) w = (r1, w1)" by fastforce
  have "node_at w1 p = node_at w p" if "p \<noteq> conf_path m port" for p
    using remove_file_frame [OF that, of e w] w1 by simp
  then have "dns_entry (files w1) m n = dns_entry (files w) m n"
    using conf_path_join_neq [OF _ n, of m] by (simp add: dns_entry_def)
  then show ?thesis
    using rem w1 sync_entry [OF q] by (auto simp: dns_remove_def split: option.splits os_err.splits)
qed

section \<open>Every active forward is published\<close>

definition published_line :: "active_entry \<Rightarrow> string" where
  "published_line ae = dns_line (e_ip (ae_entry ae)) (trim_space (e_domain (ae_entry ae)))"

definition published :: "daemon \<Rightarrow> world \<Rightarrow> bool" where
  "published d w \<longleftrightarrow> (\<forall>(port, ae) \<in> set (active d).
     dns_entry (files w) (d_dns d) (conf_name port) = Some (published_line ae))"

lemma publishedI:
  "(\<And>k ae. (k, ae) \<in> set (active d) \<Longrightarrow> dns_entry (files w) (d_dns d) (conf_name k) = Some (published_line ae))
   \<Longrightarrow> published d w"
  by (auto simp: published_def)

lemma publishedD:
  "published d w \<Longrightarrow> (k, ae) \<in> set (active d) \<Longrightarrow> dns_entry (files w) (d_dns d) (conf_name k) = Some (published_line ae)"
  by (auto simp: published_def)

lemma published_files: "published d w \<Longrightarrow> files w' = files w \<Longrightarrow> published d w'"
  by (simp add: published_def)

lemma published_quiet: "shell_quiet e \<Longrightarrow> published d w \<Longrightarrow> quietly e w w' \<Longrightarrow> published d w'"
  by (simp add: published_def quietly_def)

lemma pool_string:
  "x \<in> pool \<Longrightarrow> parse_ip_ok (ip4_string x) \<and> trim_space (ip4_string x) = ip4_string x"
proof -
  assume "x \<in> pool"
  then obtain k where x: "x = [127, 0, 1, k]" and "k < 255" by (auto simp: pool_def)
  then have "unat k \<le> 255" by (simp add: word_less_nat_alt)
  then have ok: "parse_ip_ok (ip4_string x)"
    using parse_ip_ok_dotted [of 127 0 1 "unat k"] by (simp add: x ip4_string_def)
  then have "all_ascii (ip4_string x)" "list_all (\<lambda>c. \<not> is_space_c c) (ip4_string x)"
    using parse_ip_ok_chars ip_char_ascii by (auto simp: list_all_iff)
  with ok trim_space_none show ?thesis by simp
qed

lemma daemon_add_published:
  assumes q: "shell_quiet e" and inv: "daemon_inv others d w" and pub: "published d w"
    and new: "map_of (active d) (pf_port pf) = None" and add: "daemon_add e pf d w = (d', w')"
  shows "published d' w'"
proof -
  from inv have wf: "alloc_wf (d_alloc d)" by (simp add: daemon_inv_def)
  note abs = map_of_absent [OF new]
  have other: "conf_name k \<noteq> conf_name (pf_port pf)" if "(k, ae) \<in> set (active d)" for k ae
    using that abs conf_name_inj by force
  have keep: "published d v'" if "ensure_alias e x w = (er, v)"
      "dns_add e (d_dns d) (pf_port pf) name ip v = (r, v')" for er x v name ip r v'
  proof -
    have v: "published d v" using published_quiet [OF q pub ensure_alias_quietly [OF that(1)]] .
    show ?thesis
    proof (rule publishedI)
      fix k ae assume k: "(k, ae) \<in> set (active d)"
      show "dns_entry (files v') (d_dns d) (conf_name k) = Some (published_line ae)"
        using dns_add_entry(1) [OF shell_quiet_reload [OF q] that(2) other [OF k]] publishedD [OF v k] by simp
    qed
  qed
  from wf add show ?thesis
  proof (cases rule: daemon_add_cases)
    case full
    with pub show ?thesis by simp
  next
    case (refused x a1 er w1 r)
    with keep show ?thesis by blast
  next
    case (added x a1 er w1 w2 r p w3 now)
    let ?n = "name_for e d pf"
    have x: "trim_space (ip4_string x) = ip4_string x"
      using allocate_pool [OF added(1)] pool_string by blast
    have f: "files w' = files w2"
      using added(4,5) by (auto simp: proxy_start_def listen_tcp_def Let_def split: prod.splits sum.splits if_splits)
    have p2: "published d w2" using keep [OF added(2,3)] .
    let ?ae = "added_entry d pf ?n x now r p"
    have act: "active d' = active d @ [(pf_port pf, ?ae)]" "d_dns d' = d_dns d"
      by (simp_all add: added(6) AList_update_new [OF abs])
    have "dns_entry (files w2) (d_dns d) (conf_name (pf_port pf)) = Some (published_line ?ae)"
      using dns_add_entry(2) [OF shell_quiet_reload [OF q] added(3) refl] x
      by (simp add: published_line_def added_entry_def make_entry_def)
    with publishedD [OF p2] show ?thesis by (intro publishedI) (auto simp: f act)
  qed
qed

lemma daemon_remove_published:
  assumes q: "shell_quiet e" and inv: "daemon_inv others d w" and pub: "published d w"
    and p: "map_of (active d) port = Some ae" and rem: "daemon_remove e port d w = (Returns d', w')"
  shows "published d' w'"
proof -
  let ?w1 = "case ae_proxy ae of None \<Rightarrow> w | Some p \<Rightarrow> snd (proxy_stop p w)"
  have f1: "files ?w1 = files w" by (auto simp: proxy_stop_def split: option.splits)
  obtain r2 w2 where dn: "dns_remove e (d_dns d) port ?w1 = (r2, w2)" by fastforce
  have w': "w' = snd (remove_alias e (ae_ip ae) w2)" and d': "active d' = AList.delete port (active d)" "d_dns d' = d_dns d"
    using rem p dn by (auto simp: daemon_remove_def Let_def split: prod.splits)
  have "files w' = files w2" using remove_alias_quietly [of e w2 "ae_ip ae"] q by (simp add: w' quietly_def)
  moreover have "dns_entry (files w2) (d_dns d) (conf_name k) = dns_entry (files w) (d_dns d) (conf_name k)"
    if "k \<noteq> port" for k
    using dns_remove_entry [OF shell_quiet_reload [OF q] dn] conf_name_inj that f1 by metis
  ultimately show ?thesis
    using publishedD [OF pub] by (intro publishedI) (auto simp: d' AList.delete_eq)
qed

text \<open>So it holds at every moment of a run.\<close>

interpretation lad_published: daemon_property "\<lambda>e d w. shell_quiet e \<longrightarrow> published d w"
proof
  fix e d w w' assume "shell_quiet e \<longrightarrow> published d w" "quietly e w w'"
  then show "shell_quiet e \<longrightarrow> published d w'" using published_quiet by blast
next
  fix others e d w pf d' w'
  assume "daemon_inv others d w" "shell_quiet e \<longrightarrow> published d w" "map_of (active d) (pf_port pf) = None"
    "daemon_add e pf d w = (d', w')"
  then show "shell_quiet e \<longrightarrow> published d' w'" using daemon_add_published by blast
next
  fix others e d w port ae d' w'
  assume "daemon_inv others d w" "shell_quiet e \<longrightarrow> published d w" "map_of (active d) port = Some ae"
    "daemon_remove e port d w = (Returns d', w')"
  then show "shell_quiet e \<longrightarrow> published d' w'" using daemon_remove_published by blast
qed

end
