(* ===== verification/Daemon_Converge.thy ===== *)
theory Daemon_Converge
  imports Daemon_Published
begin

text \<open>
  When nothing is in the way, what the daemon does is what it is for: after a poll exactly the
  forwards of the scan are active, and the resolver is told exactly those. The proofs use the contract
  \<open>lad_dns\<close> of the manager.
\<close>

section \<open>An environment where nothing is in the way\<close>

definition healthy_env :: "os_env \<Rightarrow> bool" where
  "healthy_env e \<longleftrightarrow> all_fine e \<and> shell_quiet e \<and> reload_works e"

definition state_ready :: "manager \<Rightarrow> world \<Rightarrow> bool" where
  "state_ready m w \<longleftrightarrow> dir_ready w (dns_dir m) \<and> distinct_paths w \<and> \<not> is_conf_name (base_name (dns_dir m))
     \<and> may_hold_file w (hosts_path m) \<and> (\<forall>port. may_hold_file w (conf_path m port))"

text \<open>What changes are files, or become ones, or go away.\<close>

definition files_only :: "world \<Rightarrow> world \<Rightarrow> bool" where
  "files_only w w' \<longleftrightarrow> (\<forall>p. node_at w' p = node_at w p \<or> may_hold_file w p \<and> may_hold_file w' p)"

lemma files_only_same: "files w' = files w \<Longrightarrow> files_only w w'"
  by (simp add: files_only_def)

lemma may_hold_cong: "node_at w' p = node_at w p \<Longrightarrow> may_hold_file w' p = may_hold_file w p"
  by (simp add: may_hold_file_def)

lemma files_only_trans: "files_only w w1 \<Longrightarrow> files_only w1 w2 \<Longrightarrow> files_only w w2"
  unfolding files_only_def by (metis may_hold_cong)

lemma files_only_write: "files_only w (snd (write_file e p c mode w))"
  by (auto simp: files_only_def write_file_def put_file_def may_hold_file_def
      split: fault.splits option.splits node.splits if_splits)

lemma files_only_remove: "may_hold_file w p \<Longrightarrow> files_only w (snd (remove_file e p w))"
  by (auto simp: files_only_def remove_file_def may_hold_file_def
      split: fault.splits option.splits node.splits)

lemma dir_ready_iff: "dir_ready w d \<longleftrightarrow> (\<forall>p \<in> set (ancestors d @ [d]). \<exists>k. node_at w p = Some (DirNode k))"
proof -
  have "(case node_at w p of Some (DirNode _) \<Rightarrow> True | _ \<Rightarrow> False) \<longleftrightarrow> (\<exists>k. node_at w p = Some (DirNode k))" for p
    by (auto split: option.splits node.splits)
  then show ?thesis by (simp add: dir_ready_def list_all_iff)
qed

lemma files_only_ready:
  assumes "state_ready m w" "files_only w w'" "distinct_paths w'"
  shows "state_ready m w'"
proof -
  have "may_hold_file w' p" if "may_hold_file w p" for p
    using assms(2) that may_hold_cong unfolding files_only_def by metis
  moreover have "node_at w' p = Some (DirNode k)" if "node_at w p = Some (DirNode k)" for p k
  proof -
    have "\<not> may_hold_file w p" using that by (simp add: may_hold_file_def)
    with assms(2) that show ?thesis unfolding files_only_def by metis
  qed
  then have "dir_ready w' (dns_dir m)"
    using assms(1) unfolding state_ready_def dir_ready_iff by blast
  ultimately show ?thesis using assms by (simp add: state_ready_def)
qed

lemma healthy_wf: "healthy_env e \<Longrightarrow> state_ready m w \<Longrightarrow> dns_wf e m w"
proof -
  assume h: "healthy_env e" and s: "state_ready m w"
  then obtain k where "node_at w (dns_dir m) = Some (DirNode k)"
    by (auto simp: state_ready_def dir_ready_def split: option.splits node.splits)
  with h s show ?thesis
    by (simp add: dns_wf_def healthy_env_def state_ready_def shell_quiet_reload reads_fine_def all_fine_def)
qed

lemma files_only_sync:
  assumes "reload_quiet e" "may_hold_file w (hosts_path m)" "sync_and_reload e m w = (r, w')"
    and "may_hold_file w' (hosts_path m)"
  shows "files_only w w'"
  using assms sync_files [OF assms(1,3)] unfolding files_only_def by metis

section \<open>The manager there\<close>

lemma dns_add_healthy:
  assumes h: "healthy_env e" and s: "state_ready m w" and add: "dns_add e m port name ip w = (r, w')"
  shows "state_ready m w' \<and>
    (if parse_ip_ok (trim_space ip) \<and> valid_hostname (trim_space name) then r = None \<and> hosts_synced m w'
     else r \<noteq> None \<and> w' = w)"
proof (cases "parse_ip_ok (trim_space ip) \<and> valid_hostname (trim_space name)")
  case False
  with add s show ?thesis by (auto simp: dns_add_def Let_def split: if_splits)
next
  case True
  let ?l = "dns_line (trim_space ip) (trim_space name)"
  have "fst (dns_add e m port name ip w) = None"
    using h s True by (intro dns_add_runs) (simp_all add: healthy_env_def state_ready_def)
  then have r: "r = None" using add by simp
  have wf: "dns_wf e m w" by (rule healthy_wf [OF h s])
  then have env: "reads_fine e" "reload_quiet e" "distinct_paths w" "\<not> is_conf_name (base_name (dns_dir m))"
    by (auto simp: dns_wf_def)
  note a = dns_add_applied [OF env add, unfolded applied_def, OF disjI1 [OF r]]
  obtain w2 where w2: "write_file e (conf_path m port) (?l @ [CHR 0x0A]) mode_644 w = (None, w2)"
      "sync_and_reload e m w2 = (r, w')"
    using add True r mkdir_all_ready [of w "dns_dir m" e mode_755] s
    by (auto simp: dns_add_def Let_def state_ready_def split: prod.splits option.splits)
  have f2: "files_only w w2" using files_only_write [of w e _ _ mode_644] w2(1) by (metis snd_conv)
  have "may_hold_file w2 (hosts_path m)"
    using write_file_frame [of "hosts_path m" "conf_path m port" e _ mode_644 w] w2(1)
      conf_path_not_hosts [of m port] s may_hold_cong by (metis snd_conv state_ready_def)
  moreover have "may_hold_file w' (hosts_path m)" using a(3) by (auto simp: hosts_synced_def may_hold_file_def)
  ultimately have "files_only w2 w'" using files_only_sync [OF env(2) _ w2(2)] by blast
  then have "state_ready m w'"
    using files_only_ready [OF s files_only_trans [OF f2]] a(1) by (simp add: dns_wf_def)
  with r a(3) True show ?thesis by simp
qed

lemma dns_remove_healthy:
  assumes h: "healthy_env e" and s: "state_ready m w" and rem: "dns_remove e m port w = (r, w')"
  shows "state_ready m w' \<and> r = None \<and> hosts_synced m w'"
proof -
  have fine: "all_fine e" "reload_works e" "reload_quiet e"
    using h shell_quiet_reload by (auto simp: healthy_env_def)
  obtain r1 w1 where w1: "remove_file e (conf_path m port) w = (r1, w1)" by fastforce
  have c: "may_hold_file w (conf_path m port)" using s by (simp add: state_ready_def)
  have r1: "r1 \<noteq> Some EOther"
    using w1 c fine(1) by (auto simp: remove_file_def may_hold_file_def all_fine_def split: option.splits node.splits)
  have f1: "files_only w w1" using files_only_remove [OF c, of e] w1 by simp
  have h1: "may_hold_file w1 (hosts_path m)"
    using remove_file_frame [of "hosts_path m" "conf_path m port" e w] w1 conf_path_not_hosts [of m port]
      s may_hold_cong by (metis snd_conv state_ready_def)
  have sy: "sync_and_reload e m w1 = (r, w')"
    using rem w1 r1 by (auto simp: dns_remove_def split: option.splits os_err.splits)
  have "is_dir w (dns_dir m)" using s by (simp add: state_ready_def dir_ready_def is_dir_def)
  then have "is_dir w1 (dns_dir m)" using is_dir_remove [OF _ c, of _ e] w1 by (metis snd_conv)
  with sy have r: "r = None" using sync_and_reload_completes [OF fine(1,2) h1] by auto
  note a = dns_remove_applied [OF healthy_wf [OF h s] rem, unfolded applied_def, OF disjI1 [OF r]]
  have "may_hold_file w' (hosts_path m)" using a(3) by (auto simp: hosts_synced_def may_hold_file_def)
  then have "files_only w w'" using files_only_trans [OF f1] files_only_sync [OF fine(3) h1 sy] by blast
  then have "state_ready m w'" using files_only_ready [OF s] a(1) by (simp add: dns_wf_def)
  with r a(3) show ?thesis by simp
qed

section \<open>The resolver in step with the daemon\<close>

text \<open>
  The resolver's view is that of the active map: each active forward's line, and no other; and \<open>hosts\<close>
  shows it.
\<close>

definition in_step :: "os_env \<Rightarrow> daemon \<Rightarrow> world \<Rightarrow> bool" where
  "in_step e d w \<longleftrightarrow> state_ready (d_dns d) w \<and> hosts_synced (d_dns d) w
     \<and> dns_look (e, d_dns d, w)
         = (\<lambda>port. map_option (\<lambda>ae. dns_shown (e_domain (ae_entry ae), e_ip (ae_entry ae)))
              (map_of (active d) port))"

lemma in_step_files: "in_step e d w \<Longrightarrow> files w' = files w \<Longrightarrow> in_step e d w'"
proof -
  assume s: "in_step e d w" and f: "files w' = files w"
  have "state_ready (d_dns d) w' = state_ready (d_dns d) w" "hosts_synced (d_dns d) w' = hosts_synced (d_dns d) w"
    "dns_look (e, d_dns d, w') = dns_look (e, d_dns d, w)"
    by (auto simp: state_ready_def dir_ready_iff may_hold_file_def hosts_synced_def f fun_eq_iff)
  with s show ?thesis by (simp add: in_step_def)
qed

lemma in_step_quiet: "healthy_env e \<Longrightarrow> in_step e d w \<Longrightarrow> quietly e w w' \<Longrightarrow> in_step e d w'"
  by (rule in_step_files) (auto simp: quietly_def healthy_env_def)

lemma in_step_daemon: "in_step e d w \<Longrightarrow> active d' = active d \<Longrightarrow> d_dns d' = d_dns d \<Longrightarrow> in_step e d' w"
  by (simp add: in_step_def)

text \<open>
  \<open>add\<close> when nothing is in the way: the resolver stays in step, and the forward becomes active if the
  name is one and an address is left.
\<close>

lemma daemon_add_healthy:
  assumes h: "healthy_env e" and inv: "daemon_inv others d w" and step: "in_step e d w"
    and new: "map_of (active d) (pf_port pf) = None" and add: "daemon_add e pf d w = (d', w')"
  shows "in_step e d' w' \<and>
    (valid_hostname (trim_space (name_for e d pf)) \<and> length (active d) < 254
      \<longrightarrow> (\<exists>ae. active d' = active d @ [(pf_port pf, ae)]))"
proof -
  from inv have wf: "alloc_wf (d_alloc d)" and tr: "tracks (addresses d) (in_use (d_alloc d))"
    by (simp_all add: daemon_inv_def)
  note abs = map_of_absent [OF new]
  have quiet: "in_step e d v" if "ensure_alias e x w = (er, v)" for x er v
    by (rule in_step_quiet [OF h step ensure_alias_quietly [OF that]])
  from wf add show ?thesis
  proof (cases rule: daemon_add_cases)
    case (full a1)
    have "card (dom (addresses d)) = card pool"
      using lad_pool.alloc_fail_full [OF tr alloc_wf_pool [OF wf] full(1)] .
    moreover have "dom (addresses d) = fst ` set (active d)"
      by (auto simp: addresses_def dom_map_of_conv_image_fst [symmetric])
    ultimately have "card (fst ` set (active d)) = 254" by (simp add: card_pool)
    then have "254 \<le> length (active d)" using card_length [of "map fst (active d)"] by simp
    with full step show ?thesis by simp
  next
    case (refused x a1 er w1 r)
    note s1 = quiet [OF refused(2)]
    have "parse_ip_ok (trim_space (ip4_string x))" using pool_string allocate_pool [OF refused(1)] by simp
    then have "w' = w1 \<and> \<not> valid_hostname (trim_space (name_for e d pf))"
      using dns_add_healthy [OF h _ refused(3)] s1 by (auto simp: in_step_def split: if_splits)
    with s1 refused show ?thesis by simp
  next
    case (added x a1 er w1 w2 r p w3 now)
    let ?n = "name_for e d pf" and ?ae = "added_entry d pf (name_for e d pf) x now r p"
    let ?f = "\<lambda>ae. (e_domain (ae_entry ae), e_ip (ae_entry ae))"
    note s1 = quiet [OF added(2)]
    then have w1: "state_ready (d_dns d) w1" by (simp add: in_step_def)
    have f: "files w' = files w2"
      using added(4,5) by (auto simp: proxy_start_def listen_tcp_def Let_def split: prod.splits sum.splits if_splits)
    have act: "active d' = active d @ [(pf_port pf, ?ae)]" "d_dns d' = d_dns d"
      by (simp_all add: added(6) AList_update_new [OF abs])
    have m: "map_of (active d') = (map_of (active d))(pf_port pf \<mapsto> ?ae)"
      by (rule ext) (simp add: added(6))
    have "dns_put (pf_port pf) (?f ?ae) (e, d_dns d, w1) = (True, e, d_dns d, w2)"
      using added(3) by (simp add: added_entry_def make_entry_def applied_def)
    from lad_dns.put_mirrors [of "(e, d_dns d, w1)" ?f "map_of (active d)", OF _ _ this]
    have "dns_look (e, d_dns d, w2) = (\<lambda>q. map_option (\<lambda>ae. dns_shown (?f ae)) (map_of (active d') q))"
      using healthy_wf [OF h w1] s1 by (simp only: m) (simp add: in_step_def)
    moreover have "state_ready (d_dns d) w2" "hosts_synced (d_dns d) w2"
      using dns_add_healthy [OF h w1 added(3)] by (auto split: if_splits)
    ultimately have "in_step e d' w2" by (simp only: in_step_def act(2))
    then show ?thesis using in_step_files [OF _ f] act(1) by blast
  qed
qed

lemma daemon_remove_healthy:
  assumes h: "healthy_env e" and step: "in_step e d w"
    and p: "map_of (active d) port = Some ae" and rem: "daemon_remove e port d w = (Returns d', w')"
  shows "in_step e d' w'"
proof -
  let ?w1 = "case ae_proxy ae of None \<Rightarrow> w | Some p \<Rightarrow> snd (proxy_stop p w)"
  let ?f = "\<lambda>ae. (e_domain (ae_entry ae), e_ip (ae_entry ae))"
  have s1: "in_step e d ?w1"
    by (rule in_step_files [OF step]) (auto simp: proxy_stop_def split: option.splits)
  then have w1: "state_ready (d_dns d) ?w1" by (simp add: in_step_def)
  obtain r2 w2 where dn: "dns_remove e (d_dns d) port ?w1 = (r2, w2)" by fastforce
  have w': "w' = snd (remove_alias e (ae_ip ae) w2)"
    and d': "active d' = AList.delete port (active d)" "d_dns d' = d_dns d"
    using rem p dn by (auto simp: daemon_remove_def Let_def split: prod.splits)
  have m: "map_of (active d') = (map_of (active d))(port := None)" by (rule ext) (simp add: d')
  note rm = dns_remove_healthy [OF h w1 dn]
  have "dns_del port (e, d_dns d, ?w1) = (True, e, d_dns d, w2)" using dn rm by (simp add: applied_def)
  from lad_dns.del_mirrors [of "(e, d_dns d, ?w1)" ?f "map_of (active d)", OF _ _ this]
  have "dns_look (e, d_dns d, w2) = (\<lambda>q. map_option (\<lambda>ae. dns_shown (?f ae)) (map_of (active d') q))"
    using healthy_wf [OF h w1] s1 by (simp only: m) (simp add: in_step_def)
  then have "in_step e d' w2" using rm by (simp only: in_step_def d'(2))
  then show ?thesis using in_step_quiet [OF h _ remove_alias_quietly] w' by blast
qed

section \<open>A poll when nothing is in the way\<close>

definition nameable :: "unicode \<Rightarrow> config \<Rightarrow> port_forward \<Rightarrow> bool" where
  "nameable u cfg pf \<longleftrightarrow> (\<forall>names. valid_hostname (trim_space (generate u pf cfg names)))"

lemma daemon_inv_ports: "daemon_inv others d w \<Longrightarrow> card (ports_of d) = length (active d)"
  using distinct_card [of "map fst (active d)"] by (simp add: daemon_inv_def)

lemma add_new_healthy:
  assumes c: "\<And>port pf. map_of current port = Some pf \<Longrightarrow> pf_port pf = port" and h: "healthy_env e"
    and "daemon_inv others d w" and "in_step e d w" and "add_new e current ports d w = (d', w')"
  shows "in_step e d' w' \<and>
    ((\<forall>port pf. map_of current port = Some pf \<longrightarrow> nameable (unicode_tables e) (d_cfg d) pf)
       \<and> card (ports_of d \<union> set ports) \<le> 254
     \<longrightarrow> set ports \<inter> fst ` set current \<subseteq> ports_of d')"
  using assms(3-5)
proof (induction ports arbitrary: d w)
  case (Cons port ports)
  show ?case
  proof (cases "\<exists>pf. map_of current port = Some pf \<and> map_of (active d) port = None")
    case False
    then have rest: "add_new e current ports d w = (d', w')" using Cons.prems(3) by (auto split: option.splits)
    have "ports_of d \<subseteq> ports_of d'" using add_new_result [OF c Cons.prems(1) rest] by auto
    moreover have "port \<in> fst ` set current \<longrightarrow> port \<in> ports_of d"
      using False by (metis map_of_eq_None_iff not_None_eq)
    moreover have "card (ports_of d \<union> set ports) \<le> card (ports_of d \<union> set (port # ports))"
      by (intro card_mono) auto
    ultimately show ?thesis using Cons.IH [OF Cons.prems(1,2) rest] by auto
  next
    case True
    then obtain pf where pf: "map_of current port = Some pf" "map_of (active d) port = None" by blast
    then have p: "pf_port pf = port" using c by blast
    obtain d1 w1 where d1: "daemon_add e pf d w = (d1, w1)" by fastforce
    with Cons.prems(3) pf have rest: "add_new e current ports d1 w1 = (d', w')" by simp
    note i1 = daemon_add_inv [OF Cons.prems(1) _ d1, unfolded p, OF pf(2)]
    note a1 = daemon_add_active [OF Cons.prems(1) _ d1, unfolded p, OF pf(2)]
    note h1 = daemon_add_healthy [OF h Cons.prems(1,2) _ d1, unfolded p, OF pf(2)]
    note r1 = Cons.IH [OF i1 conjunct1 [OF h1] rest]
    have sub: "ports_of d1 \<subseteq> ports_of d'" using add_new_result [OF c i1 rest] by auto
    have "set (port # ports) \<inter> fst ` set current \<subseteq> ports_of d'"
      if n: "\<forall>port pf. map_of current port = Some pf \<longrightarrow> nameable (unicode_tables e) (d_cfg d) pf"
        and cap: "card (ports_of d \<union> set (port # ports)) \<le> 254"
    proof -
      have "port \<notin> ports_of d" using map_of_absent [OF pf(2)] .
      then have "card (insert port (ports_of d)) = Suc (length (active d))"
        using daemon_inv_ports [OF Cons.prems(1)] by simp
      moreover have "card (insert port (ports_of d)) \<le> card (ports_of d \<union> set (port # ports))"
        by (intro card_mono) auto
      ultimately have len: "length (active d) < 254" using cap by simp
      have "valid_hostname (trim_space (name_for e d pf))" using n pf(1) by (simp add: nameable_def)
      with h1 len obtain ae where ae: "active d1 = active d @ [(port, ae)]" by blast
      then have "ports_of d1 \<union> set ports = ports_of d \<union> set (port # ports)" by auto
      moreover have "d_cfg d1 = d_cfg d" using a1 by (simp add: same_setup_def)
      ultimately have "set ports \<inter> fst ` set current \<subseteq> ports_of d'" using r1 n cap by simp
      moreover have "port \<in> ports_of d'" using ae sub by auto
      ultimately show ?thesis by auto
    qed
    with r1 show ?thesis by blast
  qed
qed simp

lemma remove_gone_healthy:
  assumes "healthy_env e" and "daemon_inv others d w" and "in_step e d w"
    and "remove_gone e keep ports d w = (Returns d', w')"
  shows "in_step e d' w'"
  using assms(2-4)
proof (induction ports arbitrary: d w)
  case (Cons port ports)
  show ?case
  proof (cases "keep port")
    case True
    with Cons show ?thesis by auto
  next
    case False
    obtain r1 w1 where r1: "daemon_remove e port d w = (r1, w1)" by fastforce
    with Cons.prems(3) False obtain d1 where
      d1: "r1 = Returns d1" "remove_gone e keep ports d1 w1 = (Returns d', w')" by (cases r1) auto
    from r1 d1(1) obtain ae where ae: "map_of (active d) port = Some ae"
      by (auto simp: daemon_remove_def split: option.splits)
    have "daemon_inv others d1 w1" using daemon_remove_inv [OF Cons.prems(1) ae r1] d1(1) by auto
    with Cons.IH d1 daemon_remove_healthy [OF assms(1) Cons.prems(2) ae] r1 show ?thesis by blast
  qed
qed simp

lemma daemon_poll_healthy:
  assumes h: "healthy_env e" and inv: "daemon_inv others d w" and step: "in_step e d w"
    and scan: "scan_ports e w = (s, w1)"
  shows "\<exists>d' w'. daemon_poll e d w = (Returns d', w') \<and> daemon_inv others d' w' \<and> in_step e d' w'
    \<and> (\<forall>pfs. s = Inr pfs \<and> (\<forall>pf \<in> set pfs. nameable (unicode_tables e) (d_cfg d) pf)
          \<and> card (ports_of d \<union> pf_port ` set pfs) \<le> 254 \<longrightarrow> ports_of d' = pf_port ` set pfs)"
proof -
  note qs = any_scan.scan_quiet [OF scan]
  have i: "daemon_inv others d w1" by (rule daemon_inv_quiet [OF inv qs])
  have p: "in_step e d w1" by (rule in_step_quiet [OF h step qs])
  show ?thesis
  proof (cases s)
    case (Inl er)
    with scan i p show ?thesis by (simp add: daemon_poll_def)
  next
    case (Inr pfs)
    let ?c = "current_forwards pfs"
    let ?ks = "range_keys e w1 (map fst ?c)"
    obtain d2 w2 where a: "add_new e ?c ?ks d w1 = (d2, w2)" by fastforce
    have c: "pf_port pf = port" if "map_of ?c port = Some pf" for port pf
      using current_forwards_Some [OF that] by simp
    note ah = add_new_healthy [OF c h i p a]
    note ar = add_new_result [OF c i a]
    obtain r w' where ap: "apply_scan e pfs d w1 = (r, w')" by fastforce
    from apply_scan_result [OF i ap] obtain d' news where
      d': "r = Returns d'" "daemon_inv others d' w'"
        "active d' = filter (\<lambda>(p, _). p \<in> pf_port ` set pfs) (active d) @ news"
        "fst ` set news \<subseteq> pf_port ` set pfs" by blast
    have rg: "remove_gone e (\<lambda>port. map_of ?c port \<noteq> None) (range_keys e w2 (map fst (active d2))) d2 w2
        = (Returns d', w')" using ap a d'(1) by (simp add: apply_scan_def)
    have st: "in_step e d' w'"
      using remove_gone_healthy [OF h conjunct1 [OF ar] conjunct1 [OF ah] rg] .
    have "ports_of d' = pf_port ` set pfs"
      if n: "\<forall>pf \<in> set pfs. nameable (unicode_tables e) (d_cfg d) pf"
        and cap: "card (ports_of d \<union> pf_port ` set pfs) \<le> 254"
    proof
      show "ports_of d' \<subseteq> pf_port ` set pfs" using d'(4) by (auto simp: d'(3))
      have k: "set ?ks = pf_port ` set pfs" "fst ` set ?c = pf_port ` set pfs"
        using current_forwards_keys [of pfs] by simp_all
      have "nameable (unicode_tables e) (d_cfg d) pf" if "map_of ?c port = Some pf" for port pf
        using current_forwards_Some [OF that] n by blast
      with ah cap k have sub: "pf_port ` set pfs \<subseteq> ports_of d2" by simp
      have "daemon_inv others d2 w2" using ar by blast
      then have "distinct (map fst (active d2))" by (simp add: daemon_inv_def)
      with remove_gone_result [OF conjunct1 [OF ar] _ _ rg] have
        "active d' = filter (\<lambda>(p, _). p \<in> set (range_keys e w2 (map fst (active d2))) \<longrightarrow> map_of ?c p \<noteq> None) (active d2)"
        by auto
      moreover have "map_of ?c p \<noteq> None" if "p \<in> pf_port ` set pfs" for p
        using that k(2) by (simp add: map_of_eq_None_iff)
      ultimately show "pf_port ` set pfs \<subseteq> ports_of d'" using sub by force
    qed
    with st d'(1,2) scan Inr ap show ?thesis by (simp add: daemon_poll_def)
  qed
qed

lemma daemon_poll_scanned:
  assumes "healthy_env e" and "daemon_inv others d w" and "in_step e d w"
    and "scan_ports e w = (Inr pfs, w1)"
    and n: "\<forall>pf \<in> set pfs. nameable (unicode_tables e) (d_cfg d) pf"
    and cap: "card (ports_of d \<union> pf_port ` set pfs) \<le> 254"
  shows "\<exists>d' w'. daemon_poll e d w = (Returns d', w') \<and> in_step e d' w' \<and> ports_of d' = pf_port ` set pfs"
proof -
  from daemon_poll_healthy [OF assms(1-4)] obtain d' w' where
    d': "daemon_poll e d w = (Returns d', w')" "in_step e d' w'" and
    imp: "\<forall>qs. (Inr pfs :: scan_error + port_forward list) = Inr qs
      \<and> (\<forall>pf \<in> set qs. nameable (unicode_tables e) (d_cfg d) pf)
      \<and> card (ports_of d \<union> pf_port ` set qs) \<le> 254 \<longrightarrow> ports_of d' = pf_port ` set qs" by (elim exE conjE)
  have "ports_of d' = pf_port ` set pfs" using imp [rule_format, of pfs] n cap by simp
  with d' show ?thesis by blast
qed

text \<open>A forward is nameable when its identifier is ASCII text and the top-level domain is host-name text.\<close>

lemma generate_nameable:
  assumes "all_ascii (base_identifier pf cfg)" "0 \<le> remote_port pf" "list_all host_c (tld cfg)"
  shows "nameable u cfg pf"
  unfolding nameable_def
proof
  fix names
  let ?l = "generate_label u pf cfg names"
  have l: "dns_label ?l" by (rule label_dns [OF assms(1,2)])
  have "host_c c" if "label_c c \<or> c = CHR ''-''" for c
    using that by (auto simp: label_c_def host_c_def alnum_c_def is_letter_c_def)
  then have hc: "list_all host_c (generate u pf cfg names)"
    using l assms(3) by (auto simp: generate_def dns_label_def list_all_iff host_c_def)
  moreover have "generate u pf cfg names \<noteq> []" "alnum_c (hd (generate u pf cfg names))"
    using l by (auto simp: generate_def dns_label_def label_c_def alnum_c_def is_letter_c_def)
  moreover have "trim_space (generate u pf cfg names) = generate u pf cfg names"
    using hc host_c_plain by (intro trim_space_none) (auto simp: list_all_iff)
  ultimately show "valid_hostname (trim_space (generate u pf cfg names))" using hc by (simp add: valid_hostname_iff)
qed

end
