(* ===== verification/Daemon_Demo_Step.thy ===== *)
theory Daemon_Demo_Step
  imports Daemon_Converge
begin

text \<open>The example system is one where nothing is in the way, and the fresh daemon is in step there.\<close>

lemma demo_healthy: "healthy_env demo_env"
proof -
  have "all_fine demo_env" by (simp add: all_fine_def)
  then show ?thesis by (simp add: healthy_env_def shell_quiet_def reload_works_def) (simp add: demo_env_def)
qed

lemma demo_dns: "d_dns demo_daemon = new_manager demo_state_dir"
  by (simp add: new_daemon_def drop_in_dir_def linux_drop_in_dir_def demo_state_dir_def split: prod.splits)

lemma demo_keys_no_conf: "k \<in> fst ` set (files demo_files) \<Longrightarrow> \<not> is_conf_name (base_name k)"
  by (auto simp: demo_files_def demo_state_dir_def base_name_def is_conf_name_def has_prefix_def)

lemma demo_no_conf: "is_conf_name n \<Longrightarrow> plain_name n \<Longrightarrow> node_at demo_files (join_path [d, n]) = None"
  using demo_keys_no_conf [of "join_path [d, n]"] base_name_join by (fastforce simp: map_of_eq_None_iff)

lemma demo_hosts: "hosts_path (new_manager demo_state_dir) = ''/etc/dnsmasq.d/local-auto-domain/hosts''"
  by (simp add: hosts_path_def new_manager_def demo_state_dir_def join_path_def clean_path_def has_prefix_def)

lemma demo_ready: "state_ready (new_manager demo_state_dir) demo_files"
proof -
  have "ancestors demo_state_dir = [''/etc'', ''/etc/dnsmasq.d'']"
    by (simp add: ancestors_def demo_state_dir_def upt_rec)
  then have "dir_ready demo_files demo_state_dir"
    by (simp add: dir_ready_def) (simp add: demo_files_def demo_state_dir_def)
  moreover have "\<not> is_conf_name (base_name demo_state_dir)"
    by (simp add: demo_state_dir_def base_name_def is_conf_name_def has_prefix_def)
  moreover have "distinct_paths demo_files" by (simp add: demo_files_def demo_state_dir_def)
  moreover have "may_hold_file demo_files (conf_path m port)" for m port
    using demo_no_conf [OF conf_name_is_conf conf_name_plain] by (simp add: may_hold_file_def conf_path_def)
  moreover have "may_hold_file demo_files (hosts_path (new_manager demo_state_dir))"
    unfolding demo_hosts by (simp add: may_hold_file_def demo_files_def demo_state_dir_def)
  ultimately show ?thesis by (simp add: state_ready_def new_manager_def)
qed

lemma demo_in_step: "in_step demo_env demo_daemon demo_files"
proof -
  have none: "dns_entry (files demo_files) m n = None" for m n
    using demo_no_conf by (simp add: dns_entry_def)
  have "entry_lines (files demo_files) (new_manager demo_state_dir) = []"
    using healthy_wf [OF demo_healthy demo_ready] none by (auto simp: dns_wf_def entry_lines_view dom_def)
  then have "hosts_synced (new_manager demo_state_dir) demo_files"
    unfolding hosts_synced_def demo_hosts
    by (simp add: hosts_text_def) (simp add: demo_files_def demo_state_dir_def)
  then show ?thesis
    using demo_ready none by (simp add: in_step_def demo_dns new_daemon_fields fun_eq_iff)
qed

lemma demo_nameable: "nameable demo_u default_config demo_tunnel"
  by (rule generate_nameable)
    (simp_all add: base_identifier_def demo_tunnel_def default_config_def map_get_def ascii_def host_c_def
      alnum_c_def class_defs)

end
