(* ===== verification/Daemon_Promises.thy ===== *)
theory Daemon_Promises
  imports Daemon_Demo_Step
begin

text \<open>
  What the daemon promises to its user: the active forwards are those of the scan, the resolver is
  told exactly those, and stopping takes everything back.
\<close>

section \<open>Convergence\<close>

text \<open>
  C1: when nothing is in the way, a poll does what the daemon is for: the active forwards are exactly
  those of the scan, and the resolver is told exactly their names and addresses, in its state files
  and in \<open>hosts\<close>.
\<close>

theorem daemon_poll_converges:
  assumes "healthy_env e" and "daemon_inv others d w" and "in_step e d w"
    and "scan_ports e w = (Inr pfs, w1)" and "list_all host_c (tld (d_cfg d))"
    and "\<forall>pf \<in> set pfs. all_ascii (base_identifier pf (d_cfg d))"
    and "card (ports_of d \<union> pf_port ` set pfs) \<le> 254"
  shows "\<exists>d' w'. daemon_poll e d w = (Returns d', w') \<and> ports_of d' = pf_port ` set pfs
    \<and> (\<forall>port. dns_entry (files w') (d_dns d') (conf_name port)
         = map_option (\<lambda>ae. dns_shown (e_domain (ae_entry ae), e_ip (ae_entry ae))) (map_of (active d') port))
    \<and> hosts_synced (d_dns d') w'"
proof -
  have "nameable (unicode_tables e) (d_cfg d) pf" if "pf \<in> set pfs" for pf
    using generate_nameable assms(5,6) that any_scan.scan_remote_port_nonneg [OF assms(4) that] by blast
  then have "\<forall>pf \<in> set pfs. nameable (unicode_tables e) (d_cfg d) pf" by blast
  from daemon_poll_scanned [OF assms(1-4) this assms(7)] obtain d' w' where
    d': "daemon_poll e d w = (Returns d', w')" "in_step e d' w'" "ports_of d' = pf_port ` set pfs" by blast
  have "dns_entry (files w') (d_dns d') (conf_name port) =
      map_option (\<lambda>ae. dns_shown (e_domain (ae_entry ae), e_ip (ae_entry ae))) (map_of (active d') port)" for port
    using d'(2) unfolding in_step_def by (auto dest: fun_cong [of _ _ port])
  with d' show ?thesis unfolding in_step_def by blast
qed

theorem daemon_poll_converges_witness:
  "\<exists>d' w'. daemon_poll demo_env demo_daemon demo_files = (Returns d', w') \<and> ports_of d' = {15432}
     \<and> hosts_synced (d_dns d') w'"
proof -
  obtain w1 where scan: "scan_ports demo_env demo_files = (Inr [demo_tunnel], w1)" using demo_scan by blast
  have "list_all host_c (tld (d_cfg demo_daemon))"
    by (simp add: new_daemon_fields default_config_def host_c_def alnum_c_def class_defs)
  moreover have "\<forall>pf \<in> set [demo_tunnel]. all_ascii (base_identifier pf (d_cfg demo_daemon))"
    by (simp add: new_daemon_fields base_identifier_def demo_tunnel_def default_config_def map_get_def ascii_def)
  moreover have "card (ports_of demo_daemon \<union> pf_port ` set [demo_tunnel]) \<le> 254"
    by (simp add: new_daemon_fields)
  ultimately show ?thesis
    using daemon_poll_converges [OF demo_healthy fresh_daemon_inv demo_in_step scan]
    by (auto simp: demo_tunnel_def)
qed

text \<open>
  C12: \<open>add\<close> followed by \<open>remove\<close> restores the daemon exactly, its allocator and its store included,
  and closes what was opened.
\<close>

theorem daemon_add_remove_undo:
  assumes inv: "daemon_inv others d w" and new: "map_of (active d) (pf_port pf) = None"
    and add: "daemon_add e pf d w = (d1, w1)" and there: "map_of (active d1) (pf_port pf) \<noteq> None"
    and rem: "daemon_remove e (pf_port pf) d1 w1 = (r, w2)"
  shows "r = Returns d \<and> mset (bound w2) = mset (bound w)"
proof -
  from inv have wf: "alloc_wf (d_alloc d)"
    and st: "entries (d_store d) = (\<lambda>port. map_option ae_entry (map_of (active d) port))"
    and bd: "mset (bound w) = others + mset (open_listeners d)" by (simp_all add: daemon_inv_def)
  note i1 = daemon_add_inv [OF inv new add]
  from there obtain ae where ae: "map_of (active d1) (pf_port pf) = Some ae" by blast
  have none: "entries (d_store d) (pf_port pf) = None" using new by (simp add: st)
  from wf add have r: "r = Returns d"
  proof (cases rule: daemon_add_cases)
    case (added x a1 er wa wb rp p wc now)
    have "ae_ip ae = x" using ae by (auto simp: added(6) added_entry_def)
    moreover have "free_ip a1 x = d_alloc d" using lad_pool.alloc_free [OF wf added(1)] .
    moreover have "AList.delete (pf_port pf) (active d1) = active d"
      by (simp add: added(6) AList.delete_update_same AList_delete_absent [OF map_of_absent [OF new]])
    moreover have "store_delete (pf_port pf) (d_store d1) = d_store d"
      using none by (simp add: added(6) store_set_def store_delete_def make_entry_def fun_upd_idem)
    ultimately show ?thesis using daemon_remove_result [OF ae rem] by (simp add: added(6))
  qed (use there new in auto)
  moreover from daemon_remove_inv [OF i1 ae rem] r have "daemon_inv others d w2" by auto
  ultimately show ?thesis using bd by (simp add: daemon_inv_def)
qed

lemma demo_added:
  "\<exists>d1 w1. daemon_add demo_env demo_tunnel demo_daemon demo_files = (d1, w1) \<and> map_of (active d1) 15432 \<noteq> None"
proof -
  obtain d1 w1 where add: "daemon_add demo_env demo_tunnel demo_daemon demo_files = (d1, w1)" by fastforce
  have "valid_hostname (trim_space (name_for demo_env demo_daemon demo_tunnel))"
    using demo_nameable by (simp add: nameable_def new_daemon_fields)
  with daemon_add_healthy [OF demo_healthy fresh_daemon_inv demo_in_step _ add]
  obtain ae where "active d1 = active demo_daemon @ [(pf_port demo_tunnel, ae)]" by (auto simp: new_daemon_fields)
  with add show ?thesis by (simp add: new_daemon_fields demo_tunnel_def)
qed

theorem daemon_add_remove_undo_witness:
  "\<exists>d1 w1. daemon_add demo_env demo_tunnel demo_daemon demo_files = (d1, w1)
     \<and> fst (daemon_remove demo_env 15432 d1 w1) = Returns demo_daemon"
proof -
  obtain d1 w1 where add: "daemon_add demo_env demo_tunnel demo_daemon demo_files = (d1, w1)"
    and there: "map_of (active d1) (pf_port demo_tunnel) \<noteq> None"
    using demo_added by (auto simp: demo_tunnel_def)
  obtain r w2 where rem: "daemon_remove demo_env (pf_port demo_tunnel) d1 w1 = (r, w2)" by fastforce
  have "map_of (active demo_daemon) (pf_port demo_tunnel) = None" by (simp add: new_daemon_fields)
  from daemon_add_remove_undo [OF fresh_daemon_inv this add there rem] add rem show ?thesis
    by (simp add: demo_tunnel_def)
qed

section \<open>What the resolver is told\<close>

text \<open>
  C6: whichever calls fail, every active forward has its state file, with its address and its name as
  the command line shows them, at every moment: before and after each \<open>add\<close> and \<open>remove\<close> of a poll.
  Commands must leave the files alone.
\<close>

theorem daemon_run_published:
  assumes "shell_quiet e" and "daemon_steps e (fresh_daemon e c cfg v, w) (d', w')"
    and "(port, ae) \<in> set (active d')"
  shows "dns_entry (files w') (d_dns d') (conf_name port)
    = Some (dns_line (e_ip (ae_entry ae)) (trim_space (e_domain (ae_entry ae))))"
proof -
  have "published (fresh_daemon e c cfg v) w" by (simp add: published_def new_daemon_fields)
  then have "published d' w'" using lad_published.steps_keep [OF assms(2) fresh_daemon_inv] assms(1) by blast
  from publishedD [OF this assms(3)] show ?thesis by (simp add: published_line_def)
qed

lemma demo_poll: "\<exists>d' w'. daemon_poll demo_env demo_daemon demo_files = (Returns d', w') \<and> ports_of d' = {15432}"
proof -
  obtain w1 where scan: "scan_ports demo_env demo_files = (Inr [demo_tunnel], w1)" using demo_scan by blast
  have cap: "card (ports_of demo_daemon \<union> pf_port ` set [demo_tunnel]) \<le> 254"
    by (simp add: new_daemon_fields)
  have n: "\<forall>pf \<in> set [demo_tunnel]. nameable (unicode_tables demo_env) (d_cfg demo_daemon) pf"
    using demo_nameable by (simp add: new_daemon_fields)
  have p: "pf_port ` set [demo_tunnel] = {15432}" by (simp add: demo_tunnel_def)
  from daemon_poll_scanned [OF demo_healthy fresh_daemon_inv demo_in_step scan n cap]
  show ?thesis unfolding p by blast
qed

theorem daemon_run_published_witness:
  "\<exists>d' w' ae. run_loop demo_env [TimerTick] demo_daemon demo_files = (Returns (RunWaiting, d'), w')
     \<and> (15432, ae) \<in> set (active d')
     \<and> dns_entry (files w') (d_dns d') (conf_name 15432)
         = Some (dns_line (e_ip (ae_entry ae)) (trim_space (e_domain (ae_entry ae))))"
proof -
  obtain d' w' where p: "daemon_poll demo_env demo_daemon demo_files = (Returns d', w')" "ports_of d' = {15432}"
    using demo_poll by blast
  have run: "run_loop demo_env [TimerTick] demo_daemon demo_files = (Returns (RunWaiting, d'), w')"
    unfolding run_loop.simps p(1) by simp
  have "15432 \<in> ports_of d'" unfolding p(2) by simp
  then obtain x where x: "x \<in> set (active d')" "fst x = 15432" by (elim imageE) simp
  have "(15432, snd x) = x" unfolding x(2) [symmetric] by simp
  with x(1) have ae: "(15432, snd x) \<in> set (active d')" by simp
  have "shell_quiet demo_env" using demo_healthy by (simp add: healthy_env_def)
  note line = daemon_run_published [OF this run_loop_steps [OF run] ae]
  show ?thesis by (intro exI conjI) (fact run, fact ae, fact line)
qed

section \<open>A whole run in step\<close>

lemma run_loop_healthy:
  assumes "healthy_env e" and "daemon_inv others d w" and "in_step e d w"
    and "run_loop e evs d w = (Returns (st, d'), w')"
  shows "in_step e d' w'"
  using assms(2-4)
proof (induction evs arbitrary: d w)
  case (Cons ev evs)
  show ?case
  proof (cases ev)
    case TimerTick
    obtain s w0 where "scan_ports e w = (s, w0)" by fastforce
    from daemon_poll_healthy [OF assms(1) Cons.prems(1,2) this] obtain d1 w1 where
      "daemon_poll e d w = (Returns d1, w1)" "daemon_inv others d1 w1" "in_step e d1 w1" by blast
    with Cons.IH Cons.prems(3) TimerTick show ?thesis by simp
  next
    case ContextDone
    obtain r1 w1 where c: "daemon_cleanup e d w = (r1, w1)" by fastforce
    then have "r1 = Returns d'" "w1 = w'"
      using Cons.prems(3) ContextDone by (auto split: outcome.splits)
    with c remove_gone_healthy [OF assms(1) Cons.prems(1,2)] show ?thesis by (auto simp: daemon_cleanup_def)
  qed
qed simp

text \<open>
  C4: in a system that refuses nothing the resolver follows the daemon through its whole life, with any
  scans and any names: as long as the loop runs, the state files are those of the active forwards and
  \<open>hosts\<close> shows them, and when it ends there is no state file left and \<open>hosts\<close> is empty.
\<close>

theorem run_loop_in_step:
  assumes "healthy_env e" and "daemon_inv others d w" and "in_step e d w"
    and "run_loop e evs d w = (r, w')"
  shows "\<exists>st d'. r = Returns (st, d') \<and> in_step e d' w'
    \<and> (ContextDone \<in> set evs \<longrightarrow> (\<forall>port. dns_entry (files w') (d_dns d) (conf_name port) = None))"
proof -
  from run_loop_inv [OF assms(2,4)] obtain st d' where
    d': "r = Returns (st, d')" "same_setup d d'" "ContextDone \<in> set evs \<longrightarrow> active d' = []" by blast
  have s: "in_step e d' w'" using run_loop_healthy [OF assms(1-3)] assms(4) d'(1) by blast
  have "dns_entry (files w') (d_dns d) (conf_name port) = None" if "ContextDone \<in> set evs" for port
    using s d'(2,3) that by (auto simp: in_step_def same_setup_def dest: fun_cong [of _ _ port])
  with d'(1) s show ?thesis by blast
qed

theorem run_loop_in_step_witness:
  "\<exists>st d' w'. run_loop demo_env [TimerTick, ContextDone] demo_daemon demo_files = (Returns (st, d'), w')
     \<and> (\<forall>port. dns_entry (files w') (new_manager demo_state_dir) (conf_name port) = None)"
proof -
  obtain r w' where "run_loop demo_env [TimerTick, ContextDone] demo_daemon demo_files = (r, w')" by fastforce
  from run_loop_in_step [OF demo_healthy fresh_daemon_inv demo_in_step this] this show ?thesis
    by (auto simp: demo_dns)
qed

end
