(* ===== verification/Daemon_Names.thy ===== *)
theory Daemon_Names
  imports Daemon_Promises
begin

text \<open>
  The names of the active forwards: as long as the texts they are made of fit into a label, no two
  active forwards share a name.
\<close>

definition domains :: "daemon \<Rightarrow> string list" where
  "domains d = map (\<lambda>(_, ae). e_domain (ae_entry ae)) (active d)"

fun named :: "unicode \<Rightarrow> config \<Rightarrow> int \<times> active_entry \<Rightarrow> bool" where
  "named u cfg (port, ae) \<longleftrightarrow>
     (\<exists>pf act. e_domain (ae_entry ae) = generate u pf cfg act \<and> fits pf cfg \<and> pf_port pf = port)"

definition names_ok :: "unicode \<Rightarrow> daemon \<Rightarrow> bool" where
  "names_ok u d \<longleftrightarrow> list_all (named u (d_cfg d)) (active d) \<and> distinct (domains d)"

text \<open>The name without its domain is the label it was made from.\<close>

lemma strip_tld_generate: "fits pf cfg \<Longrightarrow> strip_tld cfg (generate u pf cfg act) = generate_label u pf cfg act"
proof -
  assume "fits pf cfg"
  then have "dns_label (generate_label u pf cfg act)" by (intro label_dns) (auto simp: fits_def)
  then have "generate_label u pf cfg act \<noteq> []" by (simp add: dns_label_def)
  then show ?thesis by (simp add: strip_tld_def generate_def)
qed

lemma name_for_fresh:
  assumes ok: "names_ok (unicode_tables e) d" and fit: "fits pf (d_cfg d)" and new: "pf_port pf \<notin> ports_of d"
  shows "name_for e d pf \<notin> set (domains d)"
proof
  let ?u = "unicode_tables e" and ?cfg = "d_cfg d"
  have act: "\<exists>pf' act'. e_domain (ae_entry ae) = generate ?u pf' ?cfg act' \<and> fits pf' ?cfg \<and> pf_port pf' \<noteq> pf_port pf"
    if "(port, ae) \<in> set (active d)" for port ae
  proof -
    have "port \<noteq> pf_port pf" using that new by force
    moreover have "named ?u ?cfg (port, ae)" using ok that by (auto simp: names_ok_def list_all_iff)
    ultimately show ?thesis by auto
  qed
  have "\<exists>pf' cfg' act'. n = generate_label ?u pf' cfg' act' \<and> fits pf' cfg' \<and> pf_port pf' \<noteq> pf_port pf"
    if "n \<in> set (active_names d)" for n
  proof -
    from that obtain port ae where p: "(port, ae) \<in> set (active d)" "n = strip_tld ?cfg (e_domain (ae_entry ae))"
      by (auto simp: active_names_def)
    from act [OF p(1)] show ?thesis using p(2) strip_tld_generate by metis
  qed
  then have "generate_label ?u pf ?cfg (active_names d) \<notin> set (active_names d)"
    by (intro label_fresh [OF fit]) blast
  moreover assume "name_for e d pf \<in> set (domains d)"
  then have "strip_tld ?cfg (name_for e d pf) \<in> set (active_names d)"
    by (auto simp: domains_def active_names_def)
  ultimately show False by (simp add: strip_tld_generate [OF fit])
qed

lemma daemon_add_names:
  assumes "daemon_inv others d w" and ok: "names_ok (unicode_tables e) d" and fit: "fits pf (d_cfg d)"
    and new: "map_of (active d) (pf_port pf) = None" and add: "daemon_add e pf d w = (d', w')"
  shows "names_ok (unicode_tables e) d'"
proof -
  from assms(1) have "alloc_wf (d_alloc d)" by (simp add: daemon_inv_def)
  from this add show ?thesis
  proof (cases rule: daemon_add_cases)
    case (added x a1 er w1 w2 r p w3 now)
    let ?n = "name_for e d pf"
    have "named (unicode_tables e) (d_cfg d) (pf_port pf, added_entry d pf ?n x now r p)"
      using fit by (auto simp: added_entry_def make_entry_def)
    moreover have "active d' = active d @ [(pf_port pf, added_entry d pf ?n x now r p)]" "d_cfg d' = d_cfg d"
      by (simp_all add: added(6) AList_update_new [OF map_of_absent [OF new]])
    ultimately show ?thesis
      using ok name_for_fresh [OF ok fit map_of_absent [OF new]]
      by (simp add: names_ok_def domains_def added_entry_def make_entry_def del: named.simps)
  qed (simp_all add: ok)
qed

lemma names_ok_filter:
  "names_ok u d \<Longrightarrow> active d' = filter P (active d) \<Longrightarrow> d_cfg d' = d_cfg d \<Longrightarrow> names_ok u d'"
  by (auto simp: names_ok_def domains_def list_all_iff distinct_map_filter)

text \<open>Names stay distinct as long as whatever a scan can find fits into a label.\<close>

interpretation lad_names: daemon_property
  "\<lambda>e d w. (\<forall>pf. scannable e pf \<longrightarrow> fits pf (d_cfg d)) \<longrightarrow> names_ok (unicode_tables e) d"
proof
  fix others e d w pf d' w'
  assume inv: "daemon_inv others d w" and p: "(\<forall>pf. scannable e pf \<longrightarrow> fits pf (d_cfg d)) \<longrightarrow> names_ok (unicode_tables e) d"
    and sc: "scannable e pf" and new: "map_of (active d) (pf_port pf) = None" and add: "daemon_add e pf d w = (d', w')"
  have "d_cfg d' = d_cfg d" using daemon_add_active [OF inv new add] by (simp add: same_setup_def)
  then show "(\<forall>pf. scannable e pf \<longrightarrow> fits pf (d_cfg d')) \<longrightarrow> names_ok (unicode_tables e) d'"
    using p sc daemon_add_names [OF inv _ _ new add] by auto
next
  fix others e d w port ae d' w'
  assume inv: "daemon_inv others d w" and p: "(\<forall>pf. scannable e pf \<longrightarrow> fits pf (d_cfg d)) \<longrightarrow> names_ok (unicode_tables e) d"
    and ae: "map_of (active d) port = Some ae" and rem: "daemon_remove e port d w = (Returns d', w')"
  from daemon_remove_inv [OF inv ae rem] have a: "active d' = AList.delete port (active d)" "d_cfg d' = d_cfg d" by auto
  show "(\<forall>pf. scannable e pf \<longrightarrow> fits pf (d_cfg d')) \<longrightarrow> names_ok (unicode_tables e) d'"
    using p names_ok_filter [OF _ a(1) [unfolded AList.delete_eq] a(2)] a(2) by auto
qed simp

text \<open>
  C7: two active forwards never have the same name at any moment of a run, as long as every forward
  that is ever found has ASCII texts that fit into a label with the collision suffix.
\<close>

theorem daemon_run_names_distinct:
  assumes "\<forall>pf. scannable e pf \<longrightarrow> fits pf cfg" and "daemon_steps e (fresh_daemon e c cfg v, w) (d', w')"
  shows "distinct (map (\<lambda>(_, ae). e_domain (ae_entry ae)) (active d'))"
proof -
  have "names_ok (unicode_tables e) (fresh_daemon e c cfg v)"
    by (simp add: names_ok_def domains_def new_daemon_fields)
  then have "(\<forall>pf. scannable e pf \<longrightarrow> fits pf (d_cfg d')) \<longrightarrow> names_ok (unicode_tables e) d'"
    using lad_names.steps_keep [OF assms(2) fresh_daemon_inv] by blast
  moreover have "d_cfg d' = cfg"
    using steps_inv [OF assms(2) fresh_daemon_inv] by (simp add: same_setup_def new_daemon_fields)
  ultimately have "names_ok (unicode_tables e) d'" using assms(1) by blast
  then show ?thesis by (simp add: names_ok_def domains_def)
qed

lemma demo_tunnel_fits: "fits demo_tunnel default_config"
  by (simp add: fits_def demo_tunnel_def base_identifier_def default_config_def map_get_def ascii_def
      label_text_def service_label_def service_name_def service_name_by_port_def itoa_def nat_dec.simps)

theorem daemon_run_names_distinct_witness:
  "\<exists>d' w'. run_loop demo_env [TimerTick] demo_daemon demo_files = (Returns (RunWaiting, d'), w')
     \<and> distinct (map (\<lambda>(_, ae). e_domain (ae_entry ae)) (active d'))"
proof -
  obtain d' w' where "daemon_poll demo_env demo_daemon demo_files = (Returns d', w')"
    using demo_poll by blast
  then have run: "run_loop demo_env [TimerTick] demo_daemon demo_files = (Returns (RunWaiting, d'), w')"
    unfolding run_loop.simps by simp
  have "pf = demo_tunnel" if sc: "scannable demo_env pf" for pf
  proof -
    obtain v pfs v' where "scan_ports demo_env v = (Inr pfs, v')" "pf \<in> set pfs" using sc by (auto simp: scannable_def)
    then show ?thesis using demo_scan [of v] by auto
  qed
  then have "scannable demo_env pf \<longrightarrow> fits pf default_config" for pf using demo_tunnel_fits by blast
  with daemon_run_names_distinct [OF _ run_loop_steps [OF run]] run show ?thesis by blast
qed

end
