(* ===== verification/Cli.thy ===== *)
theory Cli
  imports Install Daemon_Names
begin

text \<open>
  \<open>cmd/local-auto-domain/main.go\<close>: what each command runs. The parsing of the command line is
  cobra's, and the HTTP transport is an argument. A warning that ends with the text of
  an error is modelled up to that text.
\<close>

datatype cli_error =
    CliMessage string | CliConfig config_error | CliClient client_error | CliSetup setup_error
  | CliCert cert_error | CliOs os_err

section \<open>\<open>daemon\<close>, \<open>setup\<close>, \<open>ca-cert\<close> and \<open>uninstall\<close>\<close>

definition cmd_daemon ::
  "os_env \<Rightarrow> yaml \<Rightarrow> crypto \<Rightarrow> run_event list \<Rightarrow> world \<Rightarrow> (cli_error option \<times> daemon option) outcome \<times> world" where
  "cmd_daemon e y c evs w =
     (case load_config e y w of
        ((_, Some er), w1) \<Rightarrow> (Returns (Some (CliConfig er), None), w1)
      | ((None, None), w1) \<Rightarrow> (Panics, w1)
      | ((Some cfg, None), w1) \<Rightarrow>
          (case new_daemon e c cfg w1 of
             (d, w2) \<Rightarrow>
               (case daemon_run e evs d w2 of
                  (Panics, w3) \<Rightarrow> (Panics, w3)
                | (Returns (RunReturned (Some er), d1), w3) \<Rightarrow> (Returns (Some (CliOs er), Some d1), w3)
                | (Returns (_, d1), w3) \<Rightarrow> (Returns (None, Some d1), w3))))"

definition dnsmasq_setup :: "os_env \<Rightarrow> world \<Rightarrow> setup_error option \<times> world" where
  "dnsmasq_setup e w = (case platform e of Linux \<Rightarrow> setup_linux e w | Darwin \<Rightarrow> setup_darwin e w)"

definition dnsmasq_teardown :: "os_env \<Rightarrow> world \<Rightarrow> world" where
  "dnsmasq_teardown e w = (case platform e of Linux \<Rightarrow> teardown_linux e w | Darwin \<Rightarrow> teardown_darwin e w)"

definition cmd_setup :: "os_env \<Rightarrow> crypto \<Rightarrow> world \<Rightarrow> cli_error option outcome \<times> world" where
  "cmd_setup e c w =
     (case dnsmasq_setup e w of
        (Some er, w1) \<Rightarrow> (Returns (Some (CliSetup er)), w1)
      | (None, w1) \<Rightarrow>
     (case ensure_cert e c (data_dir e) (say_line ''Generating TLS certificate for *.tunnel.test...'' w1) of
        (Panics, w2) \<Rightarrow> (Panics, w2)
      | (Returns (Inl er), w2) \<Rightarrow> (Returns (Some (CliCert er)), w2)
      | (Returns (Inr (cert, caFile)), w2) \<Rightarrow>
     (case install_ca e caFile (say_line ''Installing CA into system keychain (requires sudo)...'' w2) of
        (er, w3) \<Rightarrow>
     (let w4 = (if er = None then say_line ''CA installed (browsers + /usr/bin/curl).'' w3
                else say_line ''Browsers may still show certificate warnings.''
                       (say ''Warning: CA installation failed: '' w3))
      in (Returns None, say_lines ['''',
            ''Homebrew curl and other OpenSSL-based tools ignore the system keychain.'',
            ''Add to ~/.zshrc or ~/.bashrc to trust the cert there too:'',
            ''  export CURL_CA_BUNDLE='' @ caFile, '''',
            ''CA path: '' @ caFile @ ''  (run '' @ [CHR 0x27] @ ''lad ca-cert'' @ [CHR 0x27] @ '' to print this)''] w4)))))"

definition cmd_ca_cert :: "os_env \<Rightarrow> world \<Rightarrow> world" where
  "cmd_ca_cert e w = say_line (join_path [data_dir e, ''ca.crt'']) w"

definition warn_if :: "setup_error option \<Rightarrow> world \<Rightarrow> world" where
  "warn_if er w = (if er = None then w else say ''  warning: '' w)"

definition cmd_uninstall :: "os_env \<Rightarrow> world \<Rightarrow> world" where
  "cmd_uninstall e w =
     (let (er1, w1) = service_uninstall e (say_line ''Stopping and removing service...'' w);
          w2 = dnsmasq_teardown e
                 (say_line ''Removing dnsmasq configuration (may require sudo)...'' (warn_if er1 w1));
          (er2, w3) = remove_ca e (say_line ''Removing CA from system trust store (requires sudo)...'' w2);
          dataDir = data_dir e;
          w4 = snd (remove_all e dataDir
                 (say_line (''Removing data directory '' @ dataDir @ ''...'') (warn_if er2 w3)));
          cfgPath = config_path e;
          w5 = snd (remove_file e cfgPath (say_line (''Removing config file '' @ cfgPath @ ''...'') w4));
          w6 = snd (remove_file e (dir_name cfgPath) w5)
      in say_line ''Uninstall complete.'' w6)"

section \<open>\<open>list\<close> and \<open>status\<close>\<close>

text \<open>
  \<open>time.Since(t).Round(time.Second)\<close>, halfway values away from zero, and \<open>ago\<close>. The conversions to
  seconds, minutes and hours cut towards zero; at whole seconds the floating-point values are exact
  enough for that.
\<close>

definition round_second :: "int \<Rightarrow> int" where
  "round_second d =
     (if d < 0 then - ((- d + 500000000) div second * second) else (d + 500000000) div second * second)"

definition ago :: "os_env \<Rightarrow> int \<Rightarrow> world \<Rightarrow> string \<times> world" where
  "ago e t w =
     (case time_now e w of
        (now, w1) \<Rightarrow>
          (let d = round_second (now - t) in
           (if d < minute then (if d < 0 then itoa (- (- d div second)) else itoa (d div second)) @ ''s ago''
            else if d < hour then itoa (d div minute) @ ''m ago''
            else itoa (d div hour) @ ''h ago'', w1)))"

text \<open>
  \<open>tabwriter\<close> with padding 3 and left-aligned cells, for rows that all have the same number of cells and
  cells without tabs or newlines: every column but the last is as wide as its widest cell, counted
  in runes, and three spaces.
\<close>

definition cell_width :: "string \<Rightarrow> nat" where
  "cell_width s = length (runes s)"

fun column_widths :: "string list list \<Rightarrow> nat \<Rightarrow> nat list" where
  "column_widths rows 0 = []"
| "column_widths rows (Suc n) =
     (foldr max (map (\<lambda>r. cell_width (hd r)) rows) 0 + 3) # column_widths (map tl rows) n"

fun render_row :: "nat list \<Rightarrow> string list \<Rightarrow> string" where
  "render_row (wd # wds) (s # ss) = s @ replicate (wd - cell_width s) CHR '' '' @ render_row wds ss"
| "render_row [] ss = concat ss"
| "render_row wds [] = []"

definition render_table :: "string list list \<Rightarrow> nat \<Rightarrow> string" where
  "render_table rows cols =
     text_of (map (render_row (column_widths rows (cols - 1))) rows)"

definition list_header :: "string list" where
  "list_header = [''PORT'', ''DOMAIN'', ''IP'', ''PROXY'', ''TLS'', ''TOOL'', ''PID'', ''SINCE'']"

fun list_rows :: "os_env \<Rightarrow> entry list \<Rightarrow> world \<Rightarrow> string list list \<times> world" where
  "list_rows e [] w = ([], w)"
| "list_rows e (en # ens) w =
     (case ago e (e_since en) w of
        (since, w1) \<Rightarrow>
          (case list_rows e ens w1 of
             (rows, w2) \<Rightarrow>
               ([itoa (e_port en), e_domain en, e_ip en, '':'' @ itoa (e_proxy_port en),
                 (if e_tls en then ''yes'' else ''no''), e_tool en, itoa (e_pid en), since] # rows, w2)))"

definition cmd_list :: "os_env \<Rightarrow> json \<Rightarrow> transport \<Rightarrow> world \<Rightarrow> cli_error option \<times> world" where
  "cmd_list e j tr w =
     (case get_state j tr (new_client e) w of
        ((_, Some er), w1) \<Rightarrow> (Some (CliClient er), w1)
      | ((ens, None), w1) \<Rightarrow>
          if ens = [] then (None, say_line ''No active port-forwards detected.'' w1)
          else
            (case list_rows e (sort_key e_port ens) w1 of
               (rows, w2) \<Rightarrow> (None, say (render_table (list_header # rows) 8) w2)))"

text \<open>The status asks the daemon twice; the second answer's error is ignored.\<close>

definition cmd_status :: "os_env \<Rightarrow> json \<Rightarrow> transport \<Rightarrow> world \<Rightarrow> world" where
  "cmd_status e j tr w =
     (let client = new_client e;
          w2 = (case is_daemon_running j tr client w of
                  (True, w1) \<Rightarrow>
                    (case get_state j tr client w1 of
                       ((ens, _), v) \<Rightarrow> say (text_of [''Daemon:  running'',
                          ''Active:  '' @ nat_dec (length ens) @ '' domain(s)'']) v)
                | (False, w1) \<Rightarrow> say_line ''Daemon:  stopped'' w1)
      in case service_status e w2 of (st, w3) \<Rightarrow> say_line (''Service: '' @ st) w3)"

section \<open>\<open>set\<close>, \<open>unset\<close> and the rest\<close>

definition arrow :: string where
  "arrow = [CHR 0xE2, CHR 0x86, CHR 0x92]"

definition cmd_set :: "os_env \<Rightarrow> yaml \<Rightarrow> string \<Rightarrow> string \<Rightarrow> world \<Rightarrow> cli_error option outcome \<times> world" where
  "cmd_set e y portArg name w =
     (case atoi portArg of
        (_, Some er) \<Rightarrow> (Returns (Some (CliMessage (''invalid port: '' @ portArg))), w)
      | (port, None) \<Rightarrow>
     (case load_config e y w of
        ((_, Some er), w1) \<Rightarrow> (Returns (Some (CliConfig er)), w1)
      | ((None, None), w1) \<Rightarrow> (Panics, w1)
      | ((Some cfg, None), w1) \<Rightarrow>
     (case set_override e y cfg port name w1 of
        (Panics, w2) \<Rightarrow> (Panics, w2)
      | (Returns (_, Some er), w2) \<Rightarrow> (Returns (Some (CliConfig er)), w2)
      | (Returns (cfg', None), w2) \<Rightarrow>
          (Returns None, say_lines
             [''Override set: port '' @ itoa port @ '' '' @ arrow @ '' '' @ name @ ''.'' @ tld cfg',
              ''Restart the daemon for changes to take effect.''] w2))))"

definition cmd_unset :: "os_env \<Rightarrow> yaml \<Rightarrow> string \<Rightarrow> world \<Rightarrow> cli_error option outcome \<times> world" where
  "cmd_unset e y portArg w =
     (case atoi portArg of
        (_, Some er) \<Rightarrow> (Returns (Some (CliMessage (''invalid port: '' @ portArg))), w)
      | (port, None) \<Rightarrow>
     (case load_config e y w of
        ((_, Some er), w1) \<Rightarrow> (Returns (Some (CliConfig er)), w1)
      | ((None, None), w1) \<Rightarrow> (Panics, w1)
      | ((Some cfg, None), w1) \<Rightarrow>
     (case remove_override e y cfg port w1 of
        ((_, Some er), w2) \<Rightarrow> (Returns (Some (CliConfig er)), w2)
      | ((cfg', None), w2) \<Rightarrow>
          (Returns None, say_line (''Override removed for port '' @ itoa port @ ''.'') w2))))"

text \<open>\<open>os.Executable\<close> is an argument: \<open>None\<close> for its error.\<close>

definition cmd_install_service :: "os_env \<Rightarrow> string option \<Rightarrow> world \<Rightarrow> cli_error option \<times> world" where
  "cmd_install_service e executable w =
     (case executable of
        None \<Rightarrow> (Some (CliMessage ''could not determine binary path''), w)
      | Some bin \<Rightarrow> (case service_install e bin w of (er, w1) \<Rightarrow> (map_option CliSetup er, w1)))"

definition cmd_uninstall_service :: "os_env \<Rightarrow> world \<Rightarrow> cli_error option \<times> world" where
  "cmd_uninstall_service e w = (case service_uninstall e w of (er, w1) \<Rightarrow> (map_option CliSetup er, w1))"

definition cmd_version :: "string \<Rightarrow> world \<Rightarrow> world" where
  "cmd_version version w = say_line (''local-auto-domain '' @ version) w"

section \<open>\<open>main\<close>\<close>

text \<open>
  The commands \<open>main\<close> registers, with their arguments. Which of them a command line asks for is
  cobra's to say: \<open>Inl\<close> for a usage error, \<open>None\<close> when it only prints a help text.
\<close>

datatype command =
    RunDaemon | RunSetup | RunUninstall | RunCACert | RunList | RunStatus | RunSet string string
  | RunUnset string | RunInstallService | RunUninstallService | RunVersion

record libraries =
  lib_yaml :: yaml
  lib_crypto :: crypto
  lib_json :: json
  lib_http :: transport
  lib_cobra :: "string list \<Rightarrow> string + command option"

text \<open>\<open>os.Executable\<close>, the events the daemon's loop receives, and the linked version.\<close>

record process =
  executable_path :: "string option"
  loop_events :: "run_event list"
  linked_version :: string

fun run_command :: "os_env \<Rightarrow> libraries \<Rightarrow> process \<Rightarrow> command \<Rightarrow> world \<Rightarrow> cli_error option outcome \<times> world" where
  "run_command e l p RunDaemon w =
     (case cmd_daemon e (lib_yaml l) (lib_crypto l) (loop_events p) w of
        (Panics, w1) \<Rightarrow> (Panics, w1)
      | (Returns (er, _), w1) \<Rightarrow> (Returns er, w1))"
| "run_command e l p RunSetup w = cmd_setup e (lib_crypto l) w"
| "run_command e l p RunUninstall w = (Returns None, cmd_uninstall e w)"
| "run_command e l p RunCACert w = (Returns None, cmd_ca_cert e w)"
| "run_command e l p RunList w = (case cmd_list e (lib_json l) (lib_http l) w of (er, w1) \<Rightarrow> (Returns er, w1))"
| "run_command e l p RunStatus w = (Returns None, cmd_status e (lib_json l) (lib_http l) w)"
| "run_command e l p (RunSet port name) w = cmd_set e (lib_yaml l) port name w"
| "run_command e l p (RunUnset port) w = cmd_unset e (lib_yaml l) port w"
| "run_command e l p RunInstallService w =
     (case cmd_install_service e (executable_path p) w of (er, w1) \<Rightarrow> (Returns er, w1))"
| "run_command e l p RunUninstallService w = (case cmd_uninstall_service e w of (er, w1) \<Rightarrow> (Returns er, w1))"
| "run_command e l p RunVersion w = (Returns None, cmd_version (linked_version p) w)"

text \<open>The exit status: 1 for an error, which cobra prints, and 2 for a panic, which the Go runtime reports.\<close>

definition lad_main :: "os_env \<Rightarrow> libraries \<Rightarrow> process \<Rightarrow> string list \<Rightarrow> world \<Rightarrow> nat \<times> world" where
  "lad_main e l p argv w =
     (case lib_cobra l argv of
        Inl er \<Rightarrow> (1, w)
      | Inr None \<Rightarrow> (0, w)
      | Inr (Some cmd) \<Rightarrow>
          (case run_command e l p cmd w of
             (Panics, w1) \<Rightarrow> (2, w1)
           | (Returns (Some er), w1) \<Rightarrow> (1, w1)
           | (Returns None, w1) \<Rightarrow> (0, w1)))"

end
