(* ===== verification/Setup_Linux_Laws.thy ===== *)
theory Setup_Linux_Laws
  imports Setup_Linux
begin

text \<open>
  What \<open>Setup\<close> and \<open>Teardown\<close> do to \<open>/etc/dnsmasq.conf\<close>, when the split DNS enables networkd, and
  which rule the sudoers file gets. \<open>sudo tee\<close> is a command of the system; what the code relies on
  is the hypothesis \<open>tee_works\<close>.
\<close>

definition text_at :: "fs \<Rightarrow> string \<Rightarrow> string" where
  "text_at f p = (case map_of f p of Some (FileNode m c) \<Rightarrow> c | _ \<Rightarrow> '''')"

definition holds_text :: "fs \<Rightarrow> string \<Rightarrow> string \<Rightarrow> bool" where
  "holds_text f p c \<longleftrightarrow> (\<exists>m. map_of f p = Some (FileNode m c))"

text \<open>\<open>tee\<close> that succeeds has written its input, or appended it, to the file, and to no other.\<close>

definition tee_works :: "os_env \<Rightarrow> bool" where
  "tee_works e \<longleftrightarrow> (\<forall>t p i f out f'.
     (shell e t [''sudo'', ''tee'', ''-a'', p] i f = (True, out, f')
        \<longrightarrow> holds_text f' p (text_at f p @ i) \<and> (\<forall>q. q \<noteq> p \<longrightarrow> map_of f' q = map_of f q))
     \<and> (shell e t [''sudo'', ''tee'', p] i f = (True, out, f')
        \<longrightarrow> holds_text f' p i \<and> (\<forall>q. q \<noteq> p \<longrightarrow> map_of f' q = map_of f q)))"

definition tee_allowed :: "os_env \<Rightarrow> bool" where
  "tee_allowed e \<longleftrightarrow> (\<forall>t p i f. fst (shell e t [''sudo'', ''tee'', p] i f))"

lemma holds_text_at: "holds_text f p c \<Longrightarrow> text_at f p = c"
  by (auto simp: holds_text_def text_at_def)

lemma run_tee_append:
  "tee_works e \<Longrightarrow> run_cmd e [''sudo'', ''tee'', ''-a'', p] i w = ((True, out), w') \<Longrightarrow>
   holds_text (files w') p (text_at (files w) p @ i) \<and> (\<forall>q. q \<noteq> p \<longrightarrow> node_at w' q = node_at w q)"
  unfolding tee_works_def run_cmd_def by (auto split: prod.splits)

lemma run_tee_write:
  "tee_works e \<Longrightarrow> run_cmd e [''sudo'', ''tee'', p] i w = ((True, out), w') \<Longrightarrow>
   holds_text (files w') p i \<and> (\<forall>q. q \<noteq> p \<longrightarrow> node_at w' q = node_at w q)"
  unfolding tee_works_def run_cmd_def by (auto split: prod.splits)

lemma read_text:
  "read_file e p w = (r, w1) \<Longrightarrow> r \<noteq> Inl EOther \<Longrightarrow>
   w1 = ticked w \<and> (case r of Inl _ \<Rightarrow> '''' | Inr d \<Rightarrow> d) = text_at (files w) p"
  by (auto simp: read_file_def text_at_def split: fault.splits option.splits node.splits)

section \<open>The lines of \<open>dnsmasq.conf\<close>\<close>

lemma ensure_conf_result:
  assumes "tee_works e" and "ensure_conf e line w = (None, w')"
  shows "text_at (files w') main_conf
      = (if has_line (text_at (files w) main_conf) line then text_at (files w) main_conf
         else add_line (text_at (files w) main_conf) line)"
proof -
  obtain r w1 where r: "read_file e main_conf w = (r, w1)" by fastforce
  with assms(2) have ne: "r \<noteq> Inl EOther" by (auto simp: ensure_conf_def)
  note t = read_text [OF r ne]
  show ?thesis
  proof (cases "has_line (text_at (files w) main_conf) line")
    case True
    with assms(2) r ne t show ?thesis by (auto simp: ensure_conf_def Let_def)
  next
    case False
    let ?i = "newline @ line @ newline"
    obtain ok out w2 where c: "run_cmd e [''sudo'', ''tee'', ''-a'', main_conf] ?i w1 = ((ok, out), w2)"
      by (metis prod.collapse)
    with assms(2) r ne t False have "ok \<and> w' = w2"
      by (auto simp: ensure_conf_def Let_def check_cmd_def split: if_splits)
    with c have "run_cmd e [''sudo'', ''tee'', ''-a'', main_conf] ?i w1 = ((True, out), w')" by (simp only: simp_thms)
    then have "holds_text (files w') main_conf (text_at (files w1) main_conf @ ?i)"
      using run_tee_append [OF assms(1)] by blast
    then show ?thesis using t False holds_text_at by (simp add: add_line_def)
  qed
qed

definition conf_text :: "string \<Rightarrow> bool" where
  "conf_text l \<longleftrightarrow> CHR 0x0A \<notin> set l \<and> trim_space l \<noteq> ''''"

lemma conf_text_nonempty: "conf_text l \<Longrightarrow> l \<noteq> ''''"
  by (auto simp: conf_text_def)

lemma ensure_confs_content:
  assumes "tee_works e" and "list_all conf_text ls" and "ensure_confs e ls w = (None, w')"
  shows "\<exists>new. content_of (text_at (files w') main_conf) = content_of (text_at (files w) main_conf) @ new
    \<and> set new \<subseteq> set ls"
  using assms(2,3)
proof (induction ls arbitrary: w)
  case (Cons l ls)
  obtain r w1 where c: "ensure_conf e l w = (r, w1)" by fastforce
  with Cons.prems(2) have r: "r = None" "ensure_confs e ls w1 = (None, w')" by (auto split: option.splits)
  from Cons.IH [OF _ r(2)] Cons.prems(1) obtain new where
    new: "content_of (text_at (files w') main_conf) = content_of (text_at (files w1) main_conf) @ new"
      "set new \<subseteq> set ls" by auto
  have "content_of (text_at (files w1) main_conf) = content_of (text_at (files w) main_conf)
      \<or> content_of (text_at (files w1) main_conf) = content_of (text_at (files w) main_conf) @ [l]"
    using ensure_conf_result [OF assms(1)] c r(1) Cons.prems(1) conf_text_nonempty [of l]
    by (auto simp: content_added conf_text_def)
  then show ?case
  proof
    assume "content_of (text_at (files w1) main_conf) = content_of (text_at (files w) main_conf)"
    with new show ?thesis by auto
  next
    assume "content_of (text_at (files w1) main_conf) = content_of (text_at (files w) main_conf) @ [l]"
    with new show ?thesis by (intro exI [of _ "l # new"]) auto
  qed
qed simp

lemma ensure_confs_has:
  assumes "tee_works e" and "list_all conf_text ls" and "ensure_confs e ls w = (None, w')" and "l \<in> set ls"
  shows "has_line (text_at (files w') main_conf) l"
  using assms(2-4)
proof (induction ls arbitrary: w)
  case (Cons x ls)
  obtain r w1 where c: "ensure_conf e x w = (r, w1)" by fastforce
  with Cons.prems(2) have r: "r = None" "ensure_confs e ls w1 = (None, w')" by (auto split: option.splits)
  show ?case
  proof (cases "l \<in> set ls")
    case True
    with Cons r show ?thesis by auto
  next
    case False
    with Cons.prems have l: "l = x" "conf_text l" by auto
    have "has_line (text_at (files w1) main_conf) l"
      using ensure_conf_result [OF assms(1)] c r(1) l by (auto simp: has_line_added conf_text_def)
    moreover obtain new where "content_of (text_at (files w') main_conf) = content_of (text_at (files w1) main_conf) @ new"
      using ensure_confs_content [OF assms(1) _ r(2)] Cons.prems(1) by auto
    ultimately show ?thesis using has_line_content l(2) by (auto simp: conf_text_def)
  qed
qed simp

text \<open>When all lines are there, nothing is run.\<close>

lemma ensure_confs_present:
  assumes "\<forall>l \<in> set ls. has_line (text_at (files w) main_conf) l" and "reads_fine e"
    and "\<forall>m. node_at w main_conf \<noteq> Some (DirNode m)" "\<forall>m. node_at w main_conf \<noteq> Some (SockNode m)"
  shows "\<exists>k. ensure_confs e ls w = (None, w\<lparr>tick := k\<rparr>)"
  using assms(1,3,4)
proof (induction ls arbitrary: w)
  case (Cons l ls)
  have "fst (read_file e main_conf w) \<noteq> Inl EOther"
    using Cons.prems(2,3) assms(2) by (auto simp: read_file_def reads_fine_def split: option.splits node.splits)
  moreover have "snd (read_file e main_conf w) = ticked w" by simp
  ultimately obtain r where r: "read_file e main_conf w = (r, ticked w)" "r \<noteq> Inl EOther"
    by (metis prod.collapse)
  have "ensure_conf e l w = (None, ticked w)"
    using r read_text [OF r] Cons.prems(1) by (simp add: ensure_conf_def Let_def)
  moreover obtain k where "ensure_confs e ls (ticked w) = (None, (ticked w)\<lparr>tick := k\<rparr>)"
    using Cons.IH [of "ticked w"] Cons.prems by auto
  ultimately show ?case by auto
qed simp

lemma remove_lines_content:
  assumes "tee_works e" "tee_allowed e" "reads_fine e" "list_all conf_text ls"
  shows "content_of (text_at (files (remove_lines_sudo e path ls w)) path)
    = filter (\<lambda>l. \<not> (\<exists>x \<in> set ls. same_line l x)) (content_of (text_at (files w) path))"
  using assms(4)
proof (induction ls arbitrary: w)
  case (Cons x ls)
  obtain r w1 where r: "read_file e path w = (r, w1)" by fastforce
  then have w1: "w1 = ticked w" using read_file_world by (metis snd_conv)
  have "content_of (text_at (files (remove_line_sudo e path x w)) path)
      = filter (\<lambda>l. \<not> same_line l x) (content_of (text_at (files w) path))"
  proof (cases r)
    case (Inl er)
    then have "text_at (files w) path = ''''"
      using r assms(3) by (auto simp: read_file_def text_at_def reads_fine_def split: option.splits node.splits)
    moreover have "files (remove_line_sudo e path x w) = files w"
      using r Inl w1 by (simp add: remove_line_sudo_def)
    ultimately show ?thesis by (simp add: content_of_def lines_of_def)
  next
    case (Inr data)
    with r have d: "data = text_at (files w) path" using read_text [OF r] by simp
    obtain ok out w2 where c: "run_cmd e [''sudo'', ''tee'', path] (drop_lines data x) w1 = ((ok, out), w2)"
      by (metis prod.collapse)
    then have "ok" using assms(2) by (auto simp: run_cmd_def tee_allowed_def split: prod.splits) (metis fst_conv)
    with c have "run_cmd e [''sudo'', ''tee'', path] (drop_lines data x) w1 = ((True, out), w2)"
      by (simp only: simp_thms)
    then have "holds_text (files w2) path (drop_lines data x)" using run_tee_write [OF assms(1)] by blast
    moreover have "remove_line_sudo e path x w = w2" using r Inr c by (simp add: remove_line_sudo_def)
    ultimately show ?thesis using holds_text_at by (simp add: d content_dropped)
  qed
  with Cons show ?case by (simp add: conj_commute)
qed simp

lemma setup_lines_conf_text: "list_all conf_text setup_conf_lines"
  by (simp add: conf_text_def setup_conf_lines_def conf_dir_line_def addn_hosts_line_def linux_drop_in_dir_def
      trim_space_ascii class_defs)

lemma teardown_lines_set: "set teardown_conf_lines = set setup_conf_lines"
  by (auto simp: setup_conf_lines_def teardown_conf_lines_def)

text \<open>
  C35: the configuration step of \<open>lad setup\<close> adds the four lines that are missing, behind what the file
  had, and nothing else; and doing it again runs no command at all.
\<close>

theorem setup_conf_idempotent:
  assumes "tee_works e" and "reads_fine e" and "ensure_confs e setup_conf_lines w = (None, w1)"
  shows "(\<forall>l \<in> set setup_conf_lines. has_line (text_at (files w1) main_conf) l)
    \<and> (\<exists>new. content_of (text_at (files w1) main_conf) = content_of (text_at (files w) main_conf) @ new
         \<and> set new \<subseteq> set setup_conf_lines)
    \<and> (\<exists>k. ensure_confs e setup_conf_lines w1 = (None, w1\<lparr>tick := k\<rparr>))"
proof -
  note has = ensure_confs_has [OF assms(1) setup_lines_conf_text assms(3)]
  have "''bind-interfaces'' \<in> set setup_conf_lines" by (simp add: setup_conf_lines_def)
  then have "has_line (text_at (files w1) main_conf) ''bind-interfaces''" by (rule has)
  moreover have "\<not> has_line '''' ''bind-interfaces''"
    by (simp add: has_line_def lines_of_def same_line_def trim_space_ascii class_defs)
  ultimately have "text_at (files w1) main_conf \<noteq> ''''" by metis
  then have "\<forall>m. node_at w1 main_conf \<noteq> Some (DirNode m)" "\<forall>m. node_at w1 main_conf \<noteq> Some (SockNode m)"
    by (auto simp: text_at_def)
  with ensure_confs_present [OF _ assms(2)] has
    ensure_confs_content [OF assms(1) setup_lines_conf_text assms(3)] show ?thesis by blast
qed

text \<open>A system where \<open>tee\<close> does what it is for, and a file with lines of the user's.\<close>

definition tee_env :: os_env where
  "tee_env = (calm_env Linux)\<lparr>shell := \<lambda>_ argv i f.
     (True, '''',
      if length argv = 4 \<and> take 3 argv = [''sudo'', ''tee'', ''-a'']
        then AList.update (argv ! 3) (FileNode mode_644 (text_at f (argv ! 3) @ i)) f
      else if length argv = 3 \<and> take 2 argv = [''sudo'', ''tee'']
        then AList.update (argv ! 2) (FileNode mode_644 i) f
      else f)\<rparr>"

lemma tee_env_works: "tee_works tee_env" "tee_allowed tee_env" "reads_fine tee_env"
  by (auto simp: tee_works_def tee_allowed_def reads_fine_def tee_env_def holds_text_def calm_env_def)

definition user_conf :: world where
  "user_conf = (dir_world ''/etc'')\<lparr>files := [(''/etc'', DirNode mode_755),
     (main_conf, FileNode mode_644 (''bind-interfaces'' @ newline @ ''user=bob'' @ newline))]\<rparr>"

lemma ensure_confs_runs:
  assumes "\<And>t i f. fst (shell e t [''sudo'', ''tee'', ''-a'', main_conf] i f)" and "tee_works e" and "reads_fine e"
  shows "\<exists>m c. node_at w main_conf = Some (FileNode m c) \<Longrightarrow> \<exists>w'. ensure_confs e ls w = (None, w')"
proof (induction ls arbitrary: w)
  case (Cons l ls)
  then obtain m c where f: "node_at w main_conf = Some (FileNode m c)" by blast
  then have r: "read_file e main_conf w = (Inr c, ticked w)"
    using assms(3) by (simp add: read_file_def reads_fine_def)
  show ?case
  proof (cases "has_line c l")
    case True
    then have "ensure_conf e l w = (None, ticked w)" using r by (simp add: ensure_conf_def)
    with Cons.IH [of "ticked w"] f show ?thesis by simp
  next
    case False
    let ?i = "newline @ l @ newline"
    obtain out f' where sh: "shell e (tick (ticked w)) [''sudo'', ''tee'', ''-a'', main_conf] ?i (files (ticked w)) = (True, out, f')"
      using assms(1) by (metis prod.collapse)
    then have run: "run_cmd e [''sudo'', ''tee'', ''-a'', main_conf] ?i (ticked w)
        = ((True, out), (ticked (ticked w))\<lparr>files := f', ran := ran w @ [([''sudo'', ''tee'', ''-a'', main_conf], ?i)]\<rparr>)"
      by (simp add: run_cmd_def)
    let ?w = "(ticked (ticked w))\<lparr>files := f', ran := ran w @ [([''sudo'', ''tee'', ''-a'', main_conf], ?i)]\<rparr>"
    have "\<exists>m c. node_at ?w main_conf = Some (FileNode m c)"
      using run_tee_append [OF assms(2) run] by (auto simp: holds_text_def)
    from Cons.IH [OF this] obtain w' where "ensure_confs e ls ?w = (None, w')" by blast
    moreover have "ensure_conf e l w = (None, ?w)"
      using r False run by (simp add: ensure_conf_def check_cmd_def)
    ultimately show ?thesis by simp
  qed
qed simp

lemma user_conf_setup: "\<exists>w1. ensure_confs tee_env setup_conf_lines user_conf = (None, w1)"
proof (rule ensure_confs_runs [OF _ tee_env_works(1,3)])
  show "fst (shell tee_env t [''sudo'', ''tee'', ''-a'', main_conf] i f)" for t i f by (simp add: tee_env_def)
  show "\<exists>m c. node_at user_conf main_conf = Some (FileNode m c)" by (simp add: user_conf_def main_conf_def)
qed

theorem setup_conf_idempotent_witness:
  "\<exists>w1 k. ensure_confs tee_env setup_conf_lines user_conf = (None, w1)
     \<and> has_line (text_at (files w1) main_conf) ''listen-address=127.0.0.1''
     \<and> ensure_confs tee_env setup_conf_lines w1 = (None, w1\<lparr>tick := k\<rparr>)"
proof -
  obtain w1 where w1: "ensure_confs tee_env setup_conf_lines user_conf = (None, w1)" using user_conf_setup by blast
  have "''listen-address=127.0.0.1'' \<in> set setup_conf_lines" by (simp add: setup_conf_lines_def)
  with setup_conf_idempotent [OF tee_env_works(1,3) w1] w1 show ?thesis by blast
qed

text \<open>
  C36: \<open>lad uninstall\<close> takes out of \<open>dnsmasq.conf\<close> what \<open>lad setup\<close> put in, and keeps every other line in
  its order, up to empty lines. But a line the user had before goes as well when it is one of the
  four, such as \<open>bind-interfaces\<close>.
\<close>

theorem teardown_conf_lines_gone:
  assumes "tee_works e" and "tee_allowed e" and "reads_fine e"
    and "ensure_confs e setup_conf_lines w = (None, w1)"
  shows "content_of (text_at (files (remove_lines_sudo e main_conf teardown_conf_lines w1)) main_conf)
    = filter (\<lambda>l. \<not> (\<exists>x \<in> set setup_conf_lines. same_line l x)) (content_of (text_at (files w) main_conf))"
proof -
  obtain new where new: "content_of (text_at (files w1) main_conf) = content_of (text_at (files w) main_conf) @ new"
      "set new \<subseteq> set setup_conf_lines"
    using ensure_confs_content [OF assms(1) setup_lines_conf_text assms(4)] by blast
  have "filter (\<lambda>l. \<not> (\<exists>x \<in> set setup_conf_lines. same_line l x)) new = []"
    using new(2) by (auto simp: filter_empty_conv same_line_def)
  moreover have "list_all conf_text teardown_conf_lines"
    using setup_lines_conf_text teardown_lines_set by (simp add: list_all_iff)
  ultimately show ?thesis
    using remove_lines_content [OF assms(1-3), of teardown_conf_lines main_conf w1]
    by (simp add: new(1) teardown_lines_set)
qed

theorem teardown_conf_lines_gone_witness:
  "\<exists>w1. ensure_confs tee_env setup_conf_lines user_conf = (None, w1)
     \<and> content_of (text_at (files (remove_lines_sudo tee_env main_conf teardown_conf_lines w1)) main_conf) = [''user=bob'']"
proof -
  obtain w1 where w1: "ensure_confs tee_env setup_conf_lines user_conf = (None, w1)" using user_conf_setup by blast
  have "content_of (text_at (files user_conf) main_conf) = [''bind-interfaces'', ''user=bob'']"
    by (simp add: user_conf_def text_at_def main_conf_def content_of_def lines_of_def)
  moreover have "filter (\<lambda>l. \<not> (\<exists>x \<in> set setup_conf_lines. same_line l x)) [''bind-interfaces'', ''user=bob''] = [''user=bob'']"
    by (simp add: setup_conf_lines_def same_line_def conf_dir_line_def addn_hosts_line_def linux_drop_in_dir_def
        trim_space_ascii class_defs)
  ultimately show ?thesis
    using teardown_conf_lines_gone [OF tee_env_works(1,2,3) w1] w1 by simp
qed

section \<open>When networkd is enabled\<close>

lemma say_ran [simp]: "ran (say s w) = ran w" "ran (say_line s w) = ran w" "ran (say_lines ss w) = ran w"
proof -
  have "ran (say_lines ss w) = ran w" for ss w by (induction ss arbitrary: w) (simp_all add: say_line_def say_def)
  then show "ran (say_lines ss w) = ran w" .
qed (simp_all add: say_line_def say_def)

lemma run_only_ran: "ran (run_only e argv w) = ran w @ [(argv, '''')]"
  by (simp add: run_only_def run_cmd_def split: prod.splits)

lemma check_cmd_ran: "check_cmd e what argv i w = (r, w') \<Longrightarrow> ran w' = ran w @ [(argv, i)]"
  by (auto simp: check_cmd_def run_cmd_def split: prod.splits if_splits)

lemma write_networkd_ran:
  "write_networkd_dns_config e w = (r, w') \<Longrightarrow>
   \<exists>new. ran w' = ran w @ new \<and> enable_networkd \<notin> fst ` set new"
  by (auto simp: write_networkd_dns_config_def Let_def enable_networkd_def run_only_ran
      split: prod.splits option.splits dest!: check_cmd_ran)

lemma conflict_in_result:
  assumes "reads_fine e" and "conflict_in e dirs w = (r, w')"
  shows "ran w' = ran w \<and> files w' = files w \<and>
    (r = None \<longrightarrow> (\<forall>d \<in> set dirs. \<forall>m. node_at w d = Some (DirNode m)
       \<longrightarrow> (\<forall>n \<in> set (dir_names (files w) d). \<not> networkd_file n)))"
  using assms(2)
proof (induction dirs arbitrary: w)
  case (Cons d dirs)
  obtain names er w1 where rd: "read_dir e d w = ((names, er), w1)" by (metis prod.collapse)
  then have w1: "w1 = ticked w" using read_dir_world by (metis snd_conv)
  show ?case
  proof (cases er)
    case Some
    with rd have "\<forall>m. node_at w d \<noteq> Some (DirNode m)"
      using assms(1) by (auto simp: read_dir_def reads_fine_def split: option.splits)
    with Cons.IH [of w1] Cons.prems rd Some w1 show ?thesis by auto
  next
    case Inr: None
    then have names: "names = dir_names (files w) d"
      using rd by (auto simp: read_dir_def split: fault.splits option.splits node.splits if_splits)
    show ?thesis
    proof (cases "find networkd_file names")
      case None
      then have "\<forall>n \<in> set names. \<not> networkd_file n" by (simp add: find_None_iff)
      with Cons.IH [of w1] Cons.prems rd Inr None w1 names show ?thesis by auto
    next
      case (Some n)
      with Cons.prems rd Inr w1 show ?thesis by auto
    qed
  qed
qed simp

text \<open>
  C37: on a system that NetworkManager manages, networkd is only enabled when, at that moment, none of
  its two directories has a configuration that is not this program's own, so that it will not take
  over an interface.
\<close>

theorem nm_enables_without_conflict:
  assumes "reads_fine e" and "enable_networkd \<notin> fst ` set (ran w)"
    and "enable_networkd \<in> fst ` set (ran (configure_split_dns_nm e w))"
    and "write_networkd_dns_config e w = (r, w1)"
    and "d \<in> {networkd_dir, ''/usr/lib/systemd/network''}" and "node_at w1 d = Some (DirNode m)"
    and "n \<in> set (dir_names (files w1) d)"
  shows "n \<in> set our_networkd_files \<or> path_ext n \<notin> {''.network'', ''.netdev''}"
proof -
  obtain new where new: "ran w1 = ran w @ new" "enable_networkd \<notin> fst ` set new"
    using write_networkd_ran [OF assms(4)] by blast
  then have no: "enable_networkd \<notin> fst ` set (ran w1)" using assms(2) by auto
  have "r = None" using assms(3,4) no by (auto simp: configure_split_dns_nm_def split: option.splits)
  moreover obtain c w2 where c: "networkd_conflict e w1 = (c, w2)" by fastforce
  note cr = conflict_in_result [OF assms(1) c [unfolded networkd_conflict_def]]
  ultimately have "c = None"
    using assms(3,4) no c cr by (auto simp: configure_split_dns_nm_def split: option.splits)
  with cr assms(5-7) have "\<not> networkd_file n" by auto
  then show ?thesis by (auto simp: networkd_file_def)
qed

definition networkd_world :: world where
  "networkd_world = (dir_world networkd_dir)\<lparr>files := [(networkd_dir, DirNode mode_755),
     (networkd_netdev, FileNode mode_644 netdev_text)]\<rparr>"

lemma networkd_world_names: "dir_names (files networkd_world) networkd_dir = [''10-local-auto-domain-dns.netdev'']"
  by (simp add: dir_names_def networkd_world_def networkd_dir_def networkd_netdev_def base_name_def join_path_def
      clean_path_def has_prefix_def)

lemma networkd_world_enables:
  "\<exists>w1. write_networkd_dns_config (calm_env Linux) networkd_world = (None, w1) \<and> files w1 = files networkd_world
     \<and> enable_networkd \<in> fst ` set (ran (configure_split_dns_nm (calm_env Linux) networkd_world))"
proof -
  have quiet: "run_cmd (calm_env Linux) a i w = ((True, ''''), (ticked w)\<lparr>ran := ran w @ [(a, i)]\<rparr>)" for a i w
    by (simp add: run_cmd_def calm_env_def)
  obtain r w1 where w1: "write_networkd_dns_config (calm_env Linux) networkd_world = (r, w1)" by fastforce
  then have r: "r = None" "files w1 = files networkd_world"
    by (auto simp: write_networkd_dns_config_def run_only_def check_cmd_def quiet Let_def)
  have fine: "fault_at (calm_env Linux) t op p = Fine" for t op p by (simp add: calm_env_def)
  have names: "dir_names (files w1) networkd_dir = [''10-local-auto-domain-dns.netdev'']"
    using networkd_world_names r(2) by simp
  have "\<not> networkd_file ''10-local-auto-domain-dns.netdev''"
    by (simp add: networkd_file_def our_networkd_files_def networkd_netdev_def base_name_def)
  moreover have "node_at w1 networkd_dir = Some (DirNode mode_755)" "node_at w1 ''/usr/lib/systemd/network'' = None"
    using r(2) by (simp_all add: networkd_world_def networkd_dir_def networkd_netdev_def)
  ultimately have "fst (networkd_conflict (calm_env Linux) w1) = None"
    by (simp add: networkd_conflict_def read_dir_def fine names)
  then have "enable_networkd \<in> fst ` set (ran (configure_split_dns_nm (calm_env Linux) networkd_world))"
    using w1 r(1) by (auto simp: configure_split_dns_nm_def run_only_ran split: prod.splits)
  with w1 r show ?thesis by blast
qed

theorem nm_enables_without_conflict_witness:
  "enable_networkd \<in> fst ` set (ran (configure_split_dns_nm (calm_env Linux) networkd_world))
     \<and> ''10-local-auto-domain-dns.netdev'' \<in> set our_networkd_files"
proof -
  let ?n = "''10-local-auto-domain-dns.netdev''"
  have n: "?n \<in> set (dir_names (files networkd_world) networkd_dir)" by (simp add: networkd_world_names)
  have x: "path_ext ?n = ''.netdev''" by (simp add: path_ext_def)
  obtain w1 where w1: "write_networkd_dns_config (calm_env Linux) networkd_world = (None, w1)"
      "files w1 = files networkd_world"
      "enable_networkd \<in> fst ` set (ran (configure_split_dns_nm (calm_env Linux) networkd_world))"
    using networkd_world_enables by blast
  have "enable_networkd \<notin> fst ` set (ran networkd_world)" by (simp add: networkd_world_def dir_world_def)
  moreover have "node_at w1 networkd_dir = Some (DirNode mode_755)"
    using w1(2) by (simp add: networkd_world_def)
  ultimately have "?n \<in> set our_networkd_files \<or> path_ext ?n \<notin> {''.network'', ''.netdev''}"
    using nm_enables_without_conflict [OF _ _ w1(3,1), of networkd_dir mode_755 ?n] n w1(2)
    by (simp add: calm_reads)
  with w1(3) x show ?thesis by simp
qed

section \<open>The sudoers rule\<close>

text \<open>
  The rule that \<open>lad setup\<close> writes lets one user that is not root run one command; when the user
  cannot be told, no command is run and an error is returned.
\<close>

theorem write_sudoers_rule:
  "(let user = sudoers_user e in
    if user = '''' \<or> user = ''root'' then fst (write_sudoers e w) \<noteq> None \<and> snd (write_sudoers e w) = w
    else \<exists>path more. ran (snd (write_sudoers e w))
        = ran w @ ([''sudo'', ''tee'', sudoers_path], user @ '' ALL=(ALL) NOPASSWD: '' @ path @ '' reload dnsmasq'' @ newline) # more
      \<and> (more = [] \<or> more = [([''sudo'', ''chmod'', ''0440'', sudoers_path], '''')]))"
proof (cases "sudoers_user e = '''' \<or> sudoers_user e = ''root''")
  case True
  then show ?thesis by (simp add: write_sudoers_def Let_def)
next
  case False
  obtain f w1 where f: "find_exe e ''systemctl'' w = (f, w1)" by fastforce
  then have w1: "ran w1 = ran w" by (auto simp: find_exe_def)
  let ?p = "case f of None \<Rightarrow> ''/usr/bin/systemctl'' | Some p \<Rightarrow> p"
  let ?c = "sudoers_user e @ '' ALL=(ALL) NOPASSWD: '' @ ?p @ '' reload dnsmasq'' @ newline"
  obtain r w2 where c: "check_cmd e (''writing '' @ sudoers_path) [''sudo'', ''tee'', sudoers_path] ?c w1 = (r, w2)" by fastforce
  have "ran w2 = ran w @ [([''sudo'', ''tee'', sudoers_path], ?c)]" using check_cmd_ran [OF c] w1 by simp
  moreover have "write_sudoers e w = (case r of Some er \<Rightarrow> (Some er, w2)
      | None \<Rightarrow> (None, run_only e [''sudo'', ''chmod'', ''0440'', sudoers_path] w2))"
    using False f c by (simp add: write_sudoers_def Let_def split: option.splits)
  ultimately show ?thesis
    using False by (cases r) (auto simp: run_only_ran Let_def)
qed

end
