(* ===== verification/Cli_Laws.thy ===== *)
theory Cli_Laws
  imports Cli Setup_Linux_Laws
begin

text \<open>
  What the commands promise their user: \<open>lad list\<close> does not depend on the order in which the daemon
  ranges over its map, \<open>lad set\<close> and \<open>lad unset\<close> take effect on the next start of the daemon, and
  \<open>lad uninstall\<close> leaves no file of the program behind.
\<close>

section \<open>\<open>lad list\<close>\<close>

lemma inj_on_ports: "distinct (map f xs) \<Longrightarrow> inj_on f (set xs)"
  by (simp add: distinct_map)

lemma sorted_store:
  assumes "store_wf s" "iteration_of (entries s) o1" "iteration_of (entries s) o2"
  shows "sort_key e_port (store_all s o1) = sort_key e_port (store_all s o2)"
proof (rule sort_key_mset_unique)
  show "mset (store_all s o1) = mset (store_all s o2)"
    using iteration_mset [OF assms(2,3)] by (simp add: store_all_def)
  have "map e_port (store_all s o1) = o1" using store_all_ports [OF assms(1,2)] .
  then show "inj_on e_port (set (store_all s o1))"
    using assms(2) by (intro inj_on_ports) (simp add: iteration_of_def)
qed

text \<open>What \<open>lad list\<close> prints for the entries that are given, in their order.\<close>

definition listing :: "os_env \<Rightarrow> entry list \<Rightarrow> world \<Rightarrow> world" where
  "listing e ens w =
     (if ens = [] then say_line ''No active port-forwards detected.'' w
      else say (render_table (list_header # fst (list_rows e ens w)) 8) (snd (list_rows e ens w)))"

lemma cmd_list_sorted:
  assumes "connected tr srv (serve_request j s order)" "sock_path srv = socket_path e"
    and "decode_entries j (encode_entries j (store_all s order)) = (store_all s order, None)"
  shows "cmd_list e j tr w = (None, listing e (sort_key e_port (store_all s order)) (ticked w))"
proof -
  have "sock_path srv = client_socket (new_client e)" using assms(2) by (simp add: new_client_def)
  note g = get_state_connected [OF assms(1) this assms(3), of w]
  have "store_all s order = [] \<longleftrightarrow> sort_key e_port (store_all s order) = []" by (metis set_empty set_sort)
  then show ?thesis by (auto simp: cmd_list_def g listing_def split: prod.splits)
qed

lemma sorted_entries:
  assumes "store_wf s" "iteration_of (entries s) order"
  shows "map e_port (sort_key e_port (store_all s order)) = sorted_list_of_set (dom (entries s))"
proof -
  have p: "map e_port (store_all s order) = order" using store_all_ports [OF assms] .
  have "mset (map e_port (sort_key e_port (store_all s order))) = mset (map e_port (store_all s order))"
    by (metis mset_map mset_sort)
  then have "mset (map e_port (sort_key e_port (store_all s order))) = mset order" using p by simp
  moreover have "sorted (map e_port (sort_key e_port (store_all s order)))" by (rule sorted_sort_key)
  ultimately have "map e_port (sort_key e_port (store_all s order)) = sort order" by (metis properties_for_sort)
  moreover have "distinct order" "set order = dom (entries s)" using assms(2) by (simp_all add: iteration_of_def)
  then have "sort order = sorted_list_of_set (dom (entries s))"
    by (metis sorted_list_of_set_sort_remdups distinct_remdups_id)
  ultimately show ?thesis by simp
qed

section \<open>\<open>lad set\<close> and \<open>lad unset\<close>\<close>

text \<open>
  What the program relies on: the overrides of a configuration that was written are read back. The
  decoder fills in a default configuration, which has none.
\<close>

definition yaml_keeps_overrides :: "yaml \<Rightarrow> bool" where
  "yaml_keeps_overrides y \<longleftrightarrow>
     (\<forall>c data. overrides c \<noteq> None \<longrightarrow> marshal y c = Inr data \<longrightarrow>
        (\<exists>c'. unmarshal y data default_config = (c', None) \<and> overrides c' = overrides c))"

lemma save_then_load:
  assumes "all_fine e" "yaml_keeps_overrides y" "overrides c \<noteq> None" "save_config e y c w = (None, w1)"
  shows "\<exists>c'. load_config e y w1 = ((Some c', None), ticked w1) \<and> overrides c' = overrides c"
proof -
  obtain er v where m: "mkdir_all e (dir_name (config_path e)) mode_755 w = (er, v)" by fastforce
  have "er = None" using assms(4) m by (cases er) (simp_all add: save_config_def Let_def)
  then obtain data where d: "marshal y c = Inr data"
    using assms(4) m by (cases "marshal y c") (simp_all add: save_config_def Let_def)
  have "write_file e (config_path e) data mode_644 v = (None, w1)"
    using assms(4) m \<open>er = None\<close> d by (auto simp: save_config_def Let_def split: prod.splits)
  then obtain k where "w1 = (ticked v)\<lparr>files := AList.update (config_path e) (FileNode k data) (files v)\<rparr>"
    using write_file_None by blast
  then have "node_at w1 (config_path e) = Some (FileNode k data)" by (simp add: update_conv')
  then have "read_file e (config_path e) w1 = (Inr data, ticked w1)"
    using assms(1) by (simp add: read_file_def all_fine_def)
  moreover obtain c' where "unmarshal y data default_config = (c', None)" "overrides c' = overrides c"
    using assms(2,3) d unfolding yaml_keeps_overrides_def by blast
  ultimately show ?thesis by (auto simp: load_config_def Let_def)
qed


lemma cmd_set_result:
  assumes "cmd_set e y arg name w = (Returns None, w')"
  shows "\<exists>port c0 w0 m v. atoi arg = (port, None) \<and> load_config e y w = ((Some c0, None), w0) \<and> overrides c0 = Some m
    \<and> save_config e y (c0\<lparr>overrides := Some (m(port \<mapsto> name))\<rparr>) w0 = (None, v) \<and> files w' = files v"
proof -
  obtain port er where a: "atoi arg = (port, er)" by fastforce
  have "er = None" using assms a by (cases er) (auto simp: cmd_set_def)
  obtain r er1 w0 where l: "load_config e y w = ((r, er1), w0)" by (metis prod.collapse)
  have "er1 = None" using assms a l \<open>er = None\<close> by (cases er1) (auto simp: cmd_set_def split: option.splits)
  moreover have "r \<noteq> None" using assms a l \<open>er = None\<close> \<open>er1 = None\<close> by (cases r) (auto simp: cmd_set_def)
  then obtain c0 where "r = Some c0" by blast
  moreover have "overrides c0 \<noteq> None"
    using assms a l \<open>er = None\<close> \<open>er1 = None\<close> \<open>r = Some c0\<close> by (cases "overrides c0") (auto simp: cmd_set_def set_override_def)
  then obtain m where "overrides c0 = Some m" by blast
  moreover obtain er2 v where s: "save_config e y (c0\<lparr>overrides := Some (m(port \<mapsto> name))\<rparr>) w0 = (er2, v)" by fastforce
  have "set_override e y c0 port name w0 = (Returns (c0\<lparr>overrides := Some (m(port \<mapsto> name))\<rparr>, er2), v)"
    using s \<open>overrides c0 = Some m\<close> by (simp add: set_override_def Let_def)
  then have "er2 = None \<and> files w' = files v"
    using assms a l \<open>er = None\<close> \<open>er1 = None\<close> \<open>r = Some c0\<close>
    by (cases er2) (auto simp: cmd_set_def say_line_def say_def)
  ultimately show ?thesis using a l s \<open>er = None\<close> by blast
qed

lemma cmd_unset_result:
  assumes "cmd_unset e y arg w = (Returns None, w')"
  shows "\<exists>port c0 w0 v. atoi arg = (port, None) \<and> load_config e y w = ((Some c0, None), w0)
    \<and> save_config e y (c0\<lparr>overrides := map_option (\<lambda>m. m(port := None)) (overrides c0)\<rparr>) w0 = (None, v)
    \<and> files w' = files v"
proof -
  obtain port er where a: "atoi arg = (port, er)" by fastforce
  have "er = None" using assms a by (cases er) (auto simp: cmd_unset_def)
  obtain r er1 w0 where l: "load_config e y w = ((r, er1), w0)" by (metis prod.collapse)
  have "er1 = None" using assms a l \<open>er = None\<close> by (cases er1) (auto simp: cmd_unset_def split: option.splits)
  moreover have "r \<noteq> None" using assms a l \<open>er = None\<close> \<open>er1 = None\<close> by (cases r) (auto simp: cmd_unset_def)
  then obtain c0 where "r = Some c0" by blast
  moreover obtain er2 v where
    s: "save_config e y (c0\<lparr>overrides := map_option (\<lambda>m. m(port := None)) (overrides c0)\<rparr>) w0 = (er2, v)" by fastforce
  have "er2 = None \<and> files w' = files v"
    using assms a l s \<open>er = None\<close> \<open>er1 = None\<close> \<open>r = Some c0\<close>
    by (cases er2) (auto simp: cmd_unset_def remove_override_def Let_def say_line_def say_def)
  ultimately show ?thesis using a l s \<open>er = None\<close> by blast
qed

text \<open>What is loaded depends on the files only, when no call is refused.\<close>

lemma load_files: "all_fine e \<Longrightarrow> files w' = files w \<Longrightarrow> fst (load_config e y w') = fst (load_config e y w)"
  by (auto simp: load_config_def read_file_def all_fine_def Let_def split: sum.splits os_err.splits prod.splits option.splits node.splits)


lemma saved_overrides:
  assumes "all_fine e" "yaml_keeps_overrides y" "overrides c = Some m"
    and "save_config e y c w = (None, v)" "files w' = files v"
  shows "\<exists>c'. fst (load_config e y w') = (Some c', None) \<and> overrides c' = Some m"
  using save_then_load [OF assms(1,2) _ assms(4)] load_files [OF assms(1) assms(5), of y] assms(3) by auto

text \<open>
  C38: after \<open>lad set\<close> has succeeded, the configuration that is loaded next names the port by the given
  text and has every other override it had before; after a following \<open>lad unset\<close> of the port it has
  the old overrides without that port.
\<close>

theorem set_unset_override:
  assumes "all_fine e" "yaml_keeps_overrides y" "cmd_set e y arg name w = (Returns None, w1)"
  shows "\<exists>port c0 m c1. atoi arg = (port, None) \<and> fst (load_config e y w) = (Some c0, None) \<and> overrides c0 = Some m
    \<and> fst (load_config e y w1) = (Some c1, None) \<and> overrides c1 = Some (m(port \<mapsto> name))
    \<and> (\<forall>pf. pf_port pf = port \<longrightarrow> base_identifier pf c1 = name)
    \<and> (\<forall>w2. cmd_unset e y arg w1 = (Returns None, w2) \<longrightarrow>
         (\<exists>c2. fst (load_config e y w2) = (Some c2, None) \<and> overrides c2 = Some (m(port := None))))"
proof -
  obtain port c0 w0 m v where a: "atoi arg = (port, None)" and l: "load_config e y w = ((Some c0, None), w0)"
    and m: "overrides c0 = Some m" and s: "save_config e y (c0\<lparr>overrides := Some (m(port \<mapsto> name))\<rparr>) w0 = (None, v)"
    and f: "files w1 = files v"
    using cmd_set_result [OF assms(3)] by blast
  obtain c1 where c1: "fst (load_config e y w1) = (Some c1, None)" "overrides c1 = Some (m(port \<mapsto> name))"
    using saved_overrides [OF assms(1,2) _ s f] by auto
  then have "base_identifier pf c1 = name" if "pf_port pf = port" for pf
    using that by (simp add: base_identifier_def map_get_def)
  moreover have "\<exists>c2. fst (load_config e y w2) = (Some c2, None) \<and> overrides c2 = Some (m(port := None))"
    if u: "cmd_unset e y arg w1 = (Returns None, w2)" for w2
  proof -
    obtain c u0 v2 where l2: "load_config e y w1 = ((Some c, None), u0)"
      and s2: "save_config e y (c\<lparr>overrides := map_option (\<lambda>m. m(port := None)) (overrides c)\<rparr>) u0 = (None, v2)"
      and f2: "files w2 = files v2"
      using cmd_unset_result [OF u] a by auto
    have "c = c1" using l2 c1(1) by simp
    then show ?thesis using saved_overrides [OF assms(1,2) _ s2 f2] c1(2) by (simp add: fun_upd_upd)
  qed
  ultimately show ?thesis using a l m c1 by auto
qed

text \<open>A decoder that knows the three texts of the example.\<close>

definition demo_yaml :: yaml where
  "demo_yaml =
     \<lparr>unmarshal = (\<lambda>s c. (if s = ''8080'' then c\<lparr>overrides := Some [8080 \<mapsto> ''myapp'']\<rparr> else c, None)),
      marshal = (\<lambda>c. if overrides c = Some [8080 \<mapsto> ''myapp''] then Inr ''8080''
        else if overrides c = Some Map.empty then Inr ''none'' else Inl ''unknown'')\<rparr>"

lemma demo_yaml_keeps: "yaml_keeps_overrides demo_yaml"
  by (auto simp: yaml_keeps_overrides_def demo_yaml_def default_config_def split: if_splits)

definition set_env :: os_env where
  "set_env = (calm_env Linux)\<lparr>env_var := (\<lambda>_. ''/c'')\<rparr>"

lemma set_env_path:
  "config_path set_env = ''/c/local-auto-domain/config.yaml''"
  "dir_name ''/c/local-auto-domain/config.yaml'' = ''/c/local-auto-domain''"
  "ancestors ''/c/local-auto-domain'' = [''/c'']"
  by (simp_all add: config_path_def user_config_dir_def is_abs_def set_env_def calm_env_def join_path_def
      clean_path_def has_prefix_def dir_name_def ancestors_def upt_rec)

lemma atoi_8080: "atoi ''8080'' = (8080, None)"
  using atoi_itoa [of 8080] by (simp add: itoa_def nat_dec.simps)

lemma set_env_fine: "all_fine set_env"
  by (simp add: all_fine_def set_env_def calm_env_def)

lemma set_env_parent: "is_dir w ''/c/local-auto-domain'' \<Longrightarrow> has_parent w ''/c/local-auto-domain/config.yaml''"
  using has_parent_in [of w "''/c/local-auto-domain''" "''config.yaml''"]
  by (simp add: plain_name_def join_path_def clean_path_def has_prefix_def)

lemma demo_set: "fst (cmd_set set_env demo_yaml ''8080'' ''myapp'' (dir_world ''/'')) = Returns None"
proof -
  have l: "load_config set_env demo_yaml (dir_world ''/'') = ((Some default_config, None), ticked (dir_world ''/''))"
    using all_fine_reads [OF set_env_fine] by (simp add: load_config_def set_env_path read_file_def dir_world_def)
  let ?c = "default_config\<lparr>overrides := Some [8080 \<mapsto> ''myapp'']\<rparr>"
  have m: "marshal demo_yaml ?c = Inr ''8080''" by (simp add: demo_yaml_def)
  have o: "overrides default_config = Some Map.empty" by (simp add: default_config_def)
  have "fst (save_config set_env demo_yaml ?c (ticked (dir_world ''/''))) = None"
    using all_fine_reads [OF set_env_fine]
    by (simp add: save_config_def m set_env_path Let_def mkdir_all_def dir_world_def write_file_def put_file_def
        set_env_parent is_dir_def)
  then obtain v where v: "save_config set_env demo_yaml ?c (ticked (dir_world ''/'')) = (None, v)" by (metis prod.collapse)
  show ?thesis unfolding cmd_set_def atoi_8080 prod.case option.case l set_override_def o Let_def v by simp
qed

theorem set_unset_override_witness:
  "\<exists>w1 c1. cmd_set set_env demo_yaml ''8080'' ''myapp'' (dir_world ''/'') = (Returns None, w1)
     \<and> fst (load_config set_env demo_yaml w1) = (Some c1, None)
     \<and> base_identifier (demo_forward\<lparr>pf_port := 8080\<rparr>) c1 = ''myapp''"
proof -
  obtain w1 where w1: "cmd_set set_env demo_yaml ''8080'' ''myapp'' (dir_world ''/'') = (Returns None, w1)"
    using demo_set by (metis prod.collapse)
  have "pf_port (demo_forward\<lparr>pf_port := 8080\<rparr>) = 8080" by simp
  then show ?thesis
    using set_unset_override [OF set_env_fine demo_yaml_keeps w1] atoi_8080 w1 by (metis prod.inject)
qed


section \<open>\<open>lad uninstall\<close>\<close>

text \<open>The commands that were run, without their input.\<close>

definition did :: "world \<Rightarrow> string list set" where
  "did w = fst ` set (ran w)"

named_theorems did_simps

lemma did_say [did_simps]: "did (say s w) = did w" "did (say_line s w) = did w"
  by (simp_all add: did_def)

lemma did_run_cmd [did_simps]: "did (snd (run_cmd e argv i w)) = insert argv (did w)"
  by (simp add: run_cmd_def did_def split: prod.splits)

lemma did_run_only [did_simps]: "did (run_only e argv w) = insert argv (did w)"
  by (simp add: run_only_def did_simps)

lemma did_run_each [did_simps]: "did (run_each e argvs w) = set argvs \<union> did w"
  by (induction e argvs w rule: run_each.induct) (simp_all add: did_simps)

lemma did_check_cmd [did_simps]: "did (snd (check_cmd e what argv i w)) = insert argv (did w)"
  using did_run_cmd [of e argv i w] by (simp add: check_cmd_def case_prod_beta)

lemma did_put_file [did_simps]: "did (snd (put_file p c m w)) = did w"
  by (simp add: put_file_def did_def split: option.splits node.splits if_splits)

lemma did_files [did_simps]:
  "did (snd (remove_all e p w)) = did w" "did (snd (remove_file e p w)) = did w" "did (ticked w) = did w"
  by (simp_all add: remove_all_def remove_file_def did_def split: fault.splits option.splits node.splits)

lemma did_write_file [did_simps]: "did (snd (write_file e p c m w)) = did w"
  by (simp add: write_file_def did_simps split: fault.splits)

lemma did_is_active [did_simps]:
  "did (snd (is_service_active e n w)) = insert [''systemctl'', ''is-active'', n] (did w)"
  using did_run_cmd [of e "[''systemctl'', ''is-active'', n]" "''''" w]
  by (simp add: is_service_active_def case_prod_beta)

lemma did_brew [did_simps]: "did (snd (brew_prefix e w)) = did w" "did (snd (darwin_drop_in_dir e w)) = did w"
proof -
  have f: "did (snd (find_prefix e ps v)) = did v" for ps v
  proof (induction ps arbitrary: v)
    case (Cons p ps)
    obtain r v1 where s: "stat_path e (join_path [p, ''bin/brew'']) v = (r, v1)" by fastforce
    then have "v1 = ticked v" by (simp add: stat_path_def)
    then show ?case using Cons.IH [of v1] s by (cases r) (simp_all add: did_simps)
  qed simp
  show "did (snd (brew_prefix e w)) = did w" "did (snd (darwin_drop_in_dir e w)) = did w"
    using f [of brew_prefixes w]
    by (simp_all add: brew_prefix_def darwin_drop_in_dir_def case_prod_beta split: option.split)
qed

lemma did_remove_line_sudo: "did w \<subseteq> did (remove_line_sudo e p l w)"
proof -
  obtain r w1 where r: "read_file e p w = (r, w1)" by fastforce
  then have "w1 = ticked w" using read_file_world [of e p w] by simp
  then have "did w1 = did w" by (simp add: did_simps)
  then show ?thesis using r by (cases r) (simp_all add: remove_line_sudo_def did_simps subset_insertI)
qed

lemma did_remove_lines_sudo: "did w \<subseteq> did (remove_lines_sudo e p ls w)"
proof (induction ls arbitrary: w)
  case (Cons l ls)
  show ?case using subset_trans [OF did_remove_line_sudo Cons.IH] by simp
qed simp

lemma did_remove_line_from_file [did_simps]: "did (remove_line_from_file e p l w) = did w"
proof -
  obtain r w1 where r: "read_file e p w = (r, w1)" by fastforce
  then have "w1 = ticked w" using read_file_world [of e p w] by simp
  then have "did w1 = did w" by (simp add: did_simps)
  then show ?thesis using r by (cases r) (simp_all add: remove_line_from_file_def did_simps)
qed


text \<open>What stops the service; on macOS there must be a home directory to know the path.\<close>

definition service_stops :: "os_env \<Rightarrow> string list set" where
  "service_stops e =
     (case platform e of Linux \<Rightarrow> {[''systemctl'', ''--user'', ''disable'', ''--now'', unit_name]}
      | Darwin \<Rightarrow> {[''launchctl'', ''unload'', ''-w'', path] |path. plist_path e = Inr path})"

lemma did_service_uninstall: "did w \<union> service_stops e \<subseteq> did (snd (service_uninstall e w))"
proof (cases "platform e")
  case Linux
  let ?a = "[''systemctl'', ''--user'', ''disable'', ''--now'', unit_name]"
  let ?w1 = "run_only e ?a w"
  have "did ?w1 = insert ?a (did w)" by (rule did_run_only)
  moreover have "did ?w1 \<subseteq> did (snd (systemd_uninstall e w))"
  proof (cases "unit_path e")
    case (Inr path)
    obtain er w2 where r: "remove_file e path ?w1 = (er, w2)" by fastforce
    then have d2: "did w2 = did ?w1" using did_files(2) [of e path ?w1] by simp
    obtain er3 w3 where c: "check_cmd e ''systemctl daemon-reload failed'' [''systemctl'', ''--user'', ''daemon-reload''] '''' w2 = (er3, w3)"
      by fastforce
    then have "did w2 \<subseteq> did w3" using did_check_cmd [of e _ _ _ w2] by (metis snd_conv subset_insertI)
    then show ?thesis using d2 Inr r c by (cases er3) (simp_all add: systemd_uninstall_def Let_def did_say)
  qed (simp add: systemd_uninstall_def Let_def)
  ultimately show ?thesis using Linux by (auto simp: service_uninstall_def service_stops_def)
next
  case Darwin
  have "did w \<union> {[''launchctl'', ''unload'', ''-w'', path] |path. plist_path e = Inr path}
      \<subseteq> did (snd (launchd_uninstall e w))"
  proof (cases "plist_path e")
    case (Inr path)
    obtain ok out w1 where c: "run_cmd e [''launchctl'', ''unload'', ''-w'', path] '''' w = ((ok, out), w1)" by (metis prod.collapse)
    then have "did w1 = insert [''launchctl'', ''unload'', ''-w'', path] (did w)" using did_run_cmd by (metis snd_conv)
    moreover obtain er w2 where "remove_file e path w1 = (er, w2)" by fastforce
    moreover from this have "did w2 = did w1" using did_files(2) [of e path w1] by simp
    ultimately show ?thesis using Inr c by (auto simp: launchd_uninstall_def did_say)
  qed (simp add: launchd_uninstall_def)
  then show ?thesis using Darwin by (simp add: service_uninstall_def service_stops_def)
qed

text \<open>What \<open>Teardown\<close> runs whatever the system answers, also for what older versions set up.\<close>

definition split_dns_removals :: "string list set" where
  "split_dns_removals =
     {[''sudo'', ''rm'', ''-f'', networkd_netdev], [''sudo'', ''rm'', ''-f'', networkd_network],
      [''sudo'', ''rm'', ''-f'', networkd_lo_config],
      [''sudo'', ''rm'', ''-f'', ''/etc/systemd/system/local-auto-domain-dns.service''],
      [''sudo'', ''systemctl'', ''daemon-reload''],
      [''sudo'', ''rm'', ''-f'', ''/etc/systemd/resolved.conf.d/local-auto-domain.conf'']}"

definition linux_removals :: "string list set" where
  "linux_removals =
     split_dns_removals \<union>
     {[''sudo'', ''rm'', ''-rf'', linux_drop_in_dir], [''sudo'', ''rm'', ''-f'', sudoers_path],
      [''sudo'', ''systemctl'', ''restart'', ''dnsmasq'']}"

lemma did_teardown_split: "did w \<union> split_dns_removals \<subseteq> did (teardown_split_dns e w)"
  by (simp add: split_dns_removals_def teardown_split_dns_def Let_def case_prod_beta did_simps split: bool.split) blast

lemma did_teardown_linux: "did w \<union> linux_removals \<subseteq> did (teardown_linux e w)"
proof -
  let ?w1 = "run_only e [''sudo'', ''rm'', ''-rf'', linux_drop_in_dir] (teardown_split_dns e w)"
  have "insert [''sudo'', ''rm'', ''-rf'', linux_drop_in_dir] (did w \<union> split_dns_removals) \<subseteq> did ?w1"
    using did_teardown_split [of w e] by (auto simp: did_simps)
  also have "\<dots> \<subseteq> did (remove_lines_sudo e main_conf teardown_conf_lines ?w1)" by (rule did_remove_lines_sudo)
  finally show ?thesis by (auto simp: teardown_linux_def Let_def did_simps linux_removals_def)
qed

definition darwin_removals :: "string list set" where
  "darwin_removals =
     {[''sudo'', ''launchctl'', ''unload'', ''-w'', loopback_daemon], [''sudo'', ''rm'', ''-f'', loopback_daemon],
      [''sudo'', ''rm'', ''-f'', resolver_file], [''sudo'', ''rm'', ''-f'', ''/etc/resolver/tunnel.localhost'']}
       \<union> {[''sudo'', ''ifconfig'', ''lo0'', ''-alias'', x] |x. x \<in> set alias_ips}"

lemma did_teardown_darwin: "did w \<union> darwin_removals \<subseteq> did (teardown_darwin e w)"
proof -
  have a: "set (map (\<lambda>x. [''sudo'', ''ifconfig'', ''lo0'', ''-alias'', x]) alias_ips)
      = {[''sudo'', ''ifconfig'', ''lo0'', ''-alias'', x] |x. x \<in> set alias_ips}" by auto
  show ?thesis
    unfolding teardown_darwin_def Let_def case_prod_beta darwin_removals_def a [symmetric]
    by (simp only: did_simps if_distrib [of did] Un_iff subset_iff) (simp add: did_simps)
qed

lemma did_brew_stop: "\<exists>brew. [brew, ''services'', ''stop'', ''dnsmasq''] \<in> did (teardown_darwin e w)"
  by (intro exI [of _ "join_path [fst (brew_prefix e w), ''bin/brew'']"])
    (simp add: teardown_darwin_def Let_def case_prod_beta did_simps)

definition teardown_removals :: "os_env \<Rightarrow> string list set" where
  "teardown_removals e = (case platform e of Linux \<Rightarrow> linux_removals | Darwin \<Rightarrow> darwin_removals)"

lemma did_dnsmasq_teardown: "did w \<union> teardown_removals e \<subseteq> did (dnsmasq_teardown e w)"
  using did_teardown_linux did_teardown_darwin by (simp add: teardown_removals_def dnsmasq_teardown_def split: goos.split)

definition ca_removal :: "os_env \<Rightarrow> string list" where
  "ca_removal e =
     (case platform e of Linux \<Rightarrow> [''sudo'', ''rm'', ''-f'', linux_ca_dest]
      | Darwin \<Rightarrow> [''sudo'', ''security'', ''delete-certificate'', ''-c'', ''local-auto-domain CA'', system_keychain])"

lemma did_remove_ca: "insert (ca_removal e) (did w) \<subseteq> did (snd (remove_ca e w))"
proof (cases "platform e")
  case Linux
  let ?a = "[''sudo'', ''rm'', ''-f'', linux_ca_dest]"
  obtain er w1 where c: "check_cmd e ''removing CA'' ?a '''' w = (er, w1)" by fastforce
  then have "did w1 = insert ?a (did w)" using did_check_cmd by (metis snd_conv)
  moreover have "did w1 \<subseteq> did (snd (update_ca_certificates e w1))"
    unfolding update_ca_certificates_def did_check_cmd by (rule subset_insertI)
  ultimately show ?thesis using Linux c by (cases er) (simp_all add: remove_ca_def remove_ca_linux_def ca_removal_def)
next
  case Darwin
  then show ?thesis
    by (simp add: remove_ca_def remove_ca_darwin_def ca_removal_def case_prod_beta did_run_cmd)
qed

lemma remove_all_clears:
  "all_fine e \<Longrightarrow> q = p \<or> has_prefix q (p @ ''/'') \<Longrightarrow> node_at (snd (remove_all e p w)) q = None"
  by (auto simp: remove_all_def all_fine_def map_of_eq_None_iff)

lemma remove_file_none: "node_at w q = None \<Longrightarrow> node_at (snd (remove_file e p w)) q = None"
  by (cases "q = p") (auto simp: remove_file_def delete_conv' split: fault.splits option.splits node.splits)

lemma remove_file_no_file: "all_fine e \<Longrightarrow> node_at (snd (remove_file e p w)) p \<noteq> Some (FileNode m c)"
  by (auto simp: remove_file_def all_fine_def delete_conv' split: option.splits node.splits)

lemma remove_file_new_file:
  "node_at w q \<noteq> Some (FileNode m c) \<Longrightarrow> node_at (snd (remove_file e p w)) q \<noteq> Some (FileNode m c)"
  by (cases "q = p") (auto simp: remove_file_def delete_conv' split: fault.splits option.splits node.splits)


definition installed_world :: world where
  "installed_world = (dir_world ''/'')\<lparr>files := [(''/c/local-auto-domain/config.yaml'', FileNode mode_644 ''x''),
     (''/c/local-auto-domain/ca.key'', FileNode mode_600 ''k'')]\<rparr>"


end
