(* ===== verification/Aliases.thy ===== *)
theory Aliases
  imports Cli_Laws
begin

text \<open>
  The aliases that \<open>lad setup\<close> creates on macOS against the addresses the allocator hands out.
\<close>

section \<open>The first addresses\<close>

text \<open>Allocations one after the other, from a new allocator.\<close>

primrec hand_out :: "nat \<Rightarrow> (pool_error + ip) list \<times> allocator" where
  "hand_out 0 = ([], new_allocator)"
| "hand_out (Suc n) =
     (case hand_out n of (rs, a) \<Rightarrow> case allocate a of (r, a') \<Rightarrow> (rs @ [r], a'))"

definition pool_ip :: "nat \<Rightarrow> ip" where
  "pool_ip i = [127, 0, 1, of_nat i]"

lemma unat_small: "i < 256 \<Longrightarrow> unat (of_nat i :: 8 word) = i"
  by (simp add: unat_of_nat take_bit_nat_eq_self)

lemma allocate_first_free:
  assumes "n < 254" and used: "\<And>i. used a i = (if 1 \<le> unat i \<and> unat i \<le> n then Some True else None)"
  shows "allocate a = (Inr (pool_ip (Suc n)), a\<lparr>used := (used a)(of_nat (Suc n) \<mapsto> True)\<rparr>)"
proof -
  let ?k = "of_nat (Suc n) :: 8 word"
  have k: "unat ?k = Suc n" using assms(1) by (intro unat_small) simp
  have one: "unat (1 :: 8 word) = 1" by simp
  have free: "used a ?k = None" unfolding used k by simp
  have range: "1 \<le> ?k" "?k < 255" using assms(1) by (simp_all add: word_le_nat_alt word_less_nat_alt k del: of_nat_Suc)
  obtain r a' where al: "allocate a = (r, a')" by fastforce
  show ?thesis
  proof (cases r)
    case (Inl er)
    then show ?thesis using allocate_Inl [of a er a'] al range free by auto
  next
    case (Inr x)
    obtain m where m: "x = [127, 0, 1, m]" "1 \<le> m" "m < 255" "used a m \<noteq> Some True"
      "\<forall>j. 1 \<le> j \<and> j < m \<longrightarrow> used a j = Some True" "a' = a\<lparr>used := (used a)(m \<mapsto> True)\<rparr>"
      using allocate_Inr al Inr by metis
    have "n < unat m" using m(2,4) used [of m] by (cases "unat m \<le> n") (auto simp: word_le_nat_alt)
    moreover have "\<not> ?k < m" using m(5) range(1) free by auto
    then have "unat m \<le> Suc n" using k by (simp add: word_less_nat_alt del: of_nat_Suc)
    ultimately have "m = ?k" using k by (simp add: word_unat_eq_iff del: of_nat_Suc)
    then show ?thesis using al Inr m(1,6) by (simp add: pool_ip_def del: of_nat_Suc)
  qed
qed

lemma hand_out_first:
  "n \<le> 254 \<Longrightarrow> fst (hand_out n) = map (Inr \<circ> pool_ip) [1..<Suc n]
     \<and> (\<forall>i. used (snd (hand_out n)) i = (if 1 \<le> unat i \<and> unat i \<le> n then Some True else None))"
proof (induction n)
  case 0
  show ?case by (simp add: new_allocator_def)
next
  case (Suc n)
  obtain rs a where h: "hand_out n = (rs, a)" by fastforce
  with Suc have rs: "rs = map (Inr \<circ> pool_ip) [1..<Suc n]"
    and a: "used a i = (if 1 \<le> unat i \<and> unat i \<le> n then Some True else None)" for i by simp_all
  have al: "allocate a = (Inr (pool_ip (Suc n)), a\<lparr>used := (used a)(of_nat (Suc n) \<mapsto> True)\<rparr>)"
    using Suc.prems a by (intro allocate_first_free) simp_all
  have k: "unat (of_nat (Suc n) :: 8 word) = Suc n" using Suc.prems by (intro unat_small) simp
  have "i = of_nat (Suc n) \<longleftrightarrow> unat i = Suc n" for i :: "8 word"
    unfolding word_unat_eq_iff k ..
  then show ?case using h rs a by (auto simp: al simp del: of_nat_Suc)
qed

section \<open>The aliases\<close>

lemma alias_pool: "i < 256 \<Longrightarrow> ip4_string (pool_ip i) = alias_ip i"
  by (simp add: ip4_string_def pool_ip_def alias_ip_def unat_small nat_dec.simps)

lemma alias_ip_inj: "alias_ip i = alias_ip j \<longleftrightarrow> i = j"
  by (auto simp: alias_ip_def dest: nat_dec_inj)

lemma did_setup_aliases:
  "[''sudo'', ''ifconfig'', ''lo0'', ''alias'', x] \<in> did (snd (setup_loopback_aliases e w))
    \<longleftrightarrow> x \<in> set alias_ips \<or> [''sudo'', ''ifconfig'', ''lo0'', ''alias'', x] \<in> did w"
proof -
  define w2 where "w2 = run_each e (map (\<lambda>ip. [''sudo'', ''ifconfig'', ''lo0'', ''alias'', ip]) alias_ips)
    (say_line (''Creating '' @ nat_dec alias_count @ '' loopback aliases 127.0.1.1'' @ en_dash
            @ alias_ip alias_count @ '' (requires sudo)...'') w)"
  have w2: "[''sudo'', ''ifconfig'', ''lo0'', ''alias'', x] \<in> did w2
      \<longleftrightarrow> x \<in> set alias_ips \<or> [''sudo'', ''ifconfig'', ''lo0'', ''alias'', x] \<in> did w"
    by (auto simp: w2_def did_run_each did_say)
  obtain er w3 where c: "check_cmd e ''installing LaunchDaemon'' [''sudo'', ''tee'', loopback_daemon] loopback_plist w2 = (er, w3)"
    by fastforce
  then have "did w3 = insert [''sudo'', ''tee'', loopback_daemon] (did w2)" using did_check_cmd by (metis snd_conv)
  then show ?thesis
    unfolding setup_loopback_aliases_def Let_def w2_def [symmetric] c
    by (cases er) (simp_all add: did_say did_run_only w2)
qed

text \<open>
  C40: on macOS the alias step of the setup tries to create the alias of each of the first hundred
  addresses a new allocator hands out, and of none of the later ones, whatever commands fail; and the
  teardown tries to remove each of these hundred.
\<close>

theorem aliases_first_addresses:
  assumes "i < n" "n \<le> 254"
  shows "\<exists>x. fst (hand_out n) ! i = Inr x
    \<and> ([''sudo'', ''ifconfig'', ''lo0'', ''alias'', ip4_string x] \<in> did (snd (setup_loopback_aliases e w))
        \<longleftrightarrow> i < alias_count \<or> [''sudo'', ''ifconfig'', ''lo0'', ''alias'', ip4_string x] \<in> did w)
    \<and> (i < alias_count \<longrightarrow>
         [''sudo'', ''ifconfig'', ''lo0'', ''-alias'', ip4_string x] \<in> did (teardown_darwin e w'))"
proof -
  have h: "fst (hand_out n) ! i = Inr (pool_ip (Suc i))"
    using hand_out_first [OF assms(2)] assms(1) by (simp del: upt_Suc)
  have s: "ip4_string (pool_ip (Suc i)) = alias_ip (Suc i)" using assms by (intro alias_pool) simp
  have "alias_ip (Suc i) \<in> set alias_ips \<longleftrightarrow> i < alias_count"
    by (auto simp: alias_ips_def alias_ip_inj image_iff)
  then show ?thesis
    using h s did_setup_aliases did_teardown_darwin [of w' e] by (auto simp: darwin_removals_def)
qed

theorem aliases_first_addresses_witness:
  "(\<exists>x. fst (hand_out 101) ! 99 = Inr x
      \<and> [''sudo'', ''ifconfig'', ''lo0'', ''alias'', ip4_string x]
          \<in> did (snd (setup_loopback_aliases (calm_env Darwin) (dir_world ''/r''))))
    \<and> (\<exists>x. fst (hand_out 101) ! 100 = Inr x
      \<and> [''sudo'', ''ifconfig'', ''lo0'', ''alias'', ip4_string x]
          \<notin> did (snd (setup_loopback_aliases (calm_env Darwin) (dir_world ''/r''))))"
proof -
  have "did (dir_world ''/r'') = {}" by (simp add: did_def dir_world_def)
  then show ?thesis
    using aliases_first_addresses [of 99 101 "calm_env Darwin" "dir_world ''/r''"]
      aliases_first_addresses [of 100 101 "calm_env Darwin" "dir_world ''/r''"]
    by (simp add: alias_count_def) blast
qed

end
