(* ===== verification/Cli_Panics.thy ===== *)
theory Cli_Panics
  imports Cli_Laws
begin

text \<open>
  The panics of the program: which runs of \<open>lad\<close>, of all its commands, do not end with a result or an
  error of their own.
\<close>

section \<open>The commands\<close>

lemma load_config_some: "load_config e y w \<noteq> ((None, None), w')"
  by (auto simp: load_config_def Let_def split: prod.splits sum.splits os_err.splits)

lemma make_cert_returns:
  assumes "\<forall>t. rand_serial c t \<noteq> None"
  shows "fst (make_cert e c dir w) \<noteq> Panics"
proof -
  have n: "rand_serial c t = None \<longleftrightarrow> False" for t using assms by simp
  show ?thesis by (simp add: make_cert_def Let_def n split: prod.split sum.split option.split)
qed

lemma ensure_cert_returns: "\<forall>t. rand_serial c t \<noteq> None \<Longrightarrow> fst (ensure_cert e c dir w) \<noteq> Panics"
  using make_cert_returns by (auto simp: ensure_cert_def split: prod.splits sum.splits option.splits)

lemma cmd_setup_returns: "\<forall>t. rand_serial c t \<noteq> None \<Longrightarrow> fst (cmd_setup e c w) \<noteq> Panics"
  using ensure_cert_returns [of c e "data_dir e"]
  by (auto simp: cmd_setup_def Let_def split: prod.splits sum.splits option.splits outcome.splits)
    (metis fst_conv)

lemma cmd_unset_returns: "fst (cmd_unset e y arg w) \<noteq> Panics"
  using load_config_some by (auto simp: cmd_unset_def split: prod.splits option.splits)

lemma cmd_set_panics:
  "fst (cmd_set e y arg name w) = Panics \<longleftrightarrow>
     (\<exists>port cfg w1. atoi arg = (port, None) \<and> load_config e y w = ((Some cfg, None), w1) \<and> overrides cfg = None)"
  using load_config_some
  by (auto simp: cmd_set_def set_override_def Let_def split: prod.splits option.splits outcome.splits)

lemma daemon_run_panics:
  "fst (daemon_run e evs (fresh_daemon e c cfg v) w) = Panics \<longleftrightarrow>
     poll_interval cfg \<le> 0 \<and> fst (fst (server_start e (d_srv (fresh_daemon e c cfg v)) w)) = None"
proof (cases "poll_interval cfg \<le> 0")
  case True
  then show ?thesis by (auto simp: daemon_run_def new_daemon_fields split: prod.splits option.splits)
next
  case False
  obtain r w' where run: "daemon_run e evs (fresh_daemon e c cfg v) w = (r, w')" by fastforce
  have "dir_name (sock_path (d_srv (fresh_daemon e c cfg v))) \<noteq> sock_path (d_srv (fresh_daemon e c cfg v))"
    using socket_not_dir by (simp add: new_daemon_fields new_server_def)
  from daemon_run_result [OF fresh_daemon_inv _ this run] False have "r \<noteq> Panics" by (auto simp: new_daemon_fields)
  with False run show ?thesis by simp
qed

lemma cmd_daemon_panics:
  "fst (cmd_daemon e y c evs w) = Panics \<longleftrightarrow>
     (\<exists>cfg w1. load_config e y w = ((Some cfg, None), w1) \<and> poll_interval cfg \<le> 0
       \<and> (case new_daemon e c cfg w1 of (d, w2) \<Rightarrow> fst (fst (server_start e (d_srv d) w2)) = None))"
proof -
  obtain r w1 where l: "load_config e y w = (r, w1)" by fastforce
  show ?thesis
  proof (cases "\<exists>cfg. r = (Some cfg, None)")
    case True
    then obtain cfg where r: "r = (Some cfg, None)" by blast
    obtain d w2 where d: "new_daemon e c cfg w1 = (d, w2)" by fastforce
    obtain o' w3 where o: "daemon_run e evs d w2 = (o', w3)" by fastforce
    have "fst (cmd_daemon e y c evs w) = Panics \<longleftrightarrow> o' = Panics"
      by (auto simp: cmd_daemon_def l r d o split: outcome.splits prod.splits run_status.splits option.splits)
    then show ?thesis using daemon_run_panics [of e evs c cfg w1 w2] l r d o by simp
  next
    case False
    then show ?thesis using load_config_some [of e y w] l
      by (cases r; cases "fst r"; cases "snd r") (auto simp: cmd_daemon_def)
  qed
qed

section \<open>The program\<close>

text \<open>
  C10: the panics of \<open>lad\<close>. As long as the random source works, a run of the program panics in exactly two
  situations, whichever calls fail: \<open>lad daemon\<close> with a poll interval that is not positive, once its
  server has started; and \<open>lad set\<close> with a valid port and a configuration file whose overrides decode to
  a nil map. Every other run of every command ends with a result or an error.
\<close>

theorem lad_panics:
  assumes "\<forall>t. rand_serial (lib_crypto l) t \<noteq> None"
  shows "fst (lad_main e l p argv w) = 2 \<longleftrightarrow>
      lib_cobra l argv = Inr (Some RunDaemon)
        \<and> (\<exists>cfg w1. load_config e (lib_yaml l) w = ((Some cfg, None), w1) \<and> poll_interval cfg \<le> 0
             \<and> (case new_daemon e (lib_crypto l) cfg w1 of (d, w2) \<Rightarrow> fst (fst (server_start e (d_srv d) w2)) = None))
    \<or> (\<exists>arg name port cfg w1. lib_cobra l argv = Inr (Some (RunSet arg name)) \<and> atoi arg = (port, None)
        \<and> load_config e (lib_yaml l) w = ((Some cfg, None), w1) \<and> overrides cfg = None)"
proof -
  have main: "fst (lad_main e l p argv w) = 2 \<longleftrightarrow>
      (\<exists>cmd. lib_cobra l argv = Inr (Some cmd) \<and> fst (run_command e l p cmd w) = Panics)"
    by (auto simp: lad_main_def split: sum.splits option.splits prod.splits outcome.splits)
  have cmds: "fst (run_command e l p cmd w) = Panics \<longleftrightarrow>
      cmd = RunDaemon \<and> fst (cmd_daemon e (lib_yaml l) (lib_crypto l) (loop_events p) w) = Panics
      \<or> (\<exists>arg name. cmd = RunSet arg name \<and> fst (cmd_set e (lib_yaml l) arg name w) = Panics)" for cmd
    using cmd_setup_returns [OF assms, of e w] cmd_unset_returns [of e "lib_yaml l" _ w]
    by (cases cmd) (auto split: prod.splits outcome.splits)
  have split: "(\<exists>cmd. X = Inr (Some cmd) \<and> (cmd = RunDaemon \<and> P \<or> (\<exists>a n. cmd = RunSet a n \<and> Q a n))) \<longleftrightarrow>
      X = Inr (Some RunDaemon) \<and> P \<or> (\<exists>a n. X = Inr (Some (RunSet a n)) \<and> Q a n)" for X :: "string + command option" and P Q
    by blast
  show ?thesis unfolding main cmds split cmd_daemon_panics cmd_set_panics by simp
qed

text \<open>The witness: the file says \<open>overrides:\<close> and nothing more.\<close>

definition nil_libraries :: libraries where
  "nil_libraries =
     \<lparr>lib_yaml = \<lparr>unmarshal = (\<lambda>s cfg. (cfg\<lparr>overrides := None\<rparr>, None)), marshal = (\<lambda>_. Inr ''overrides: {}'')\<rparr>,
      lib_crypto = demo_crypto, lib_json = \<lparr>encode_entries = (\<lambda>_. ''[]''), decode_entries = (\<lambda>_. ([], None))\<rparr>,
      lib_http = (\<lambda>_ _ _. Inl []),
      lib_cobra = (\<lambda>argv. Inr (Some (RunSet (argv ! 1) (argv ! 2))))\<rparr>"

definition nil_world :: world where
  "nil_world = (dir_world ''/'')\<lparr>files := [(''/c/local-auto-domain/config.yaml'', FileNode mode_644 ''overrides:'')]\<rparr>"

lemma nil_load:
  "load_config set_env (lib_yaml nil_libraries)
      nil_world
    = ((Some (default_config\<lparr>overrides := None\<rparr>), None),
       ticked nil_world)"
  using all_fine_reads [OF set_env_fine]
  by (simp add: load_config_def set_env_path read_file_def nil_world_def nil_libraries_def)

theorem lad_panics_witness:
  "fst (lad_main set_env nil_libraries \<lparr>executable_path = None, loop_events = [], linked_version = [] \<rparr> [''set'', ''8080'', ''web'']
      nil_world) = 2"
proof -
  have r: "\<forall>t. rand_serial (lib_crypto nil_libraries) t \<noteq> None" by (simp add: nil_libraries_def demo_crypto_def)
  have cobra: "lib_cobra nil_libraries [''set'', ''8080'', ''web''] = Inr (Some (RunSet ''8080'' ''web''))"
    by (simp add: nil_libraries_def)
  have "overrides (default_config\<lparr>overrides := None\<rparr>) = None" by simp
  with cobra atoi_8080 nil_load show ?thesis unfolding lad_panics [OF r] by blast
qed

end
