(* ===== verification/Daemon_Types.thy ===== *)
theory Daemon_Types
  imports Daemon_Names
begin

text \<open>
  The type of what the daemon serves: which values the fields of an \<open>Entry\<close> can have, for every output
  of the scanner's commands.
\<close>

section \<open>Types\<close>

text \<open>A forward is of \<open>ssh\<close> and leads to a host, or it is of \<open>kubectl\<close> and leads to a resource.\<close>

definition forward_typed :: "port_forward \<Rightarrow> bool" where
  "forward_typed pf \<longleftrightarrow> 0 < pf_port pf \<and> 0 \<le> remote_port pf
     \<and> (tool pf = ''ssh'' \<and> resource pf = '''' \<or> tool pf = ''kubectl'' \<and> remote_host pf = '''')"

definition entry_typed :: "entry \<Rightarrow> bool" where
  "entry_typed en \<longleftrightarrow> 0 < e_port en \<and> 0 \<le> e_remote_port en
     \<and> (e_tool en = ''ssh'' \<and> e_resource en = '''' \<or> e_tool en = ''kubectl'' \<and> e_remote_host en = '''')
     \<and> (\<exists>k. e_ip en = ip4_string [127, 0, 1, k] \<and> 1 \<le> k \<and> k < 255)
     \<and> valid_hostname (trim_space (e_domain en))
     \<and> (e_tls en \<longrightarrow> e_remote_port en = 443 \<or> e_remote_port en = 8443)"

section \<open>Every step keeps them\<close>

lemma scannable_typed: "scannable e pf \<Longrightarrow> forward_typed pf"
  unfolding scannable_def
proof (elim exE conjE)
  fix v pfs v' assume s: "scan_ports e v = (Inr pfs, v')" "pf \<in> set pfs"
  show "forward_typed pf"
    using any_scan.scan_port [OF s] any_scan.scan_remote_port_nonneg [OF s] any_scan.scan_tool [OF s] any_scan.scan_info [OF s]
    by (auto simp: forward_typed_def parse_remote_info_def split: prod.splits)
qed

lemma dns_add_valid: "dns_add e m port name ip w = (None, w') \<Longrightarrow> valid_hostname (trim_space name)"
  by (simp add: dns_add_def Let_def split: if_splits)

lemma added_typed:
  assumes "forward_typed pf" "alloc_wf (d_alloc d)" "allocate (d_alloc d) = (Inr x, a1)"
    and "dns_add e m port name ip w = (None, w')"
  shows "entry_typed (make_entry d pf name x now)"
  using assms(1) allocate_Inr [OF assms(3)] dns_add_valid [OF assms(4)]
  by (auto simp: entry_typed_def forward_typed_def make_entry_def use_tls_def service_name_https)

definition entries_typed :: "daemon \<Rightarrow> bool" where
  "entries_typed d \<longleftrightarrow> (\<forall>(port, ae) \<in> set (active d). entry_typed (ae_entry ae))"

interpretation lad_types: daemon_property "\<lambda>e d w. entries_typed d"
proof
  fix others e d w pf d' w'
  assume inv: "daemon_inv others d w" and t: "entries_typed d" and sc: "scannable e pf"
    and new: "map_of (active d) (pf_port pf) = None" and add: "daemon_add e pf d w = (d', w')"
  from inv have "alloc_wf (d_alloc d)" by (simp add: daemon_inv_def)
  from this add show "entries_typed d'"
  proof (cases rule: daemon_add_cases)
    case (added x a1 er w1 w2 r p w3 now)
    note en = added_typed [OF scannable_typed [OF sc] \<open>alloc_wf (d_alloc d)\<close> added(1,3)]
    have "active d' = active d @ [(pf_port pf, added_entry d pf (name_for e d pf) x now r p)]"
      using added by (simp add: AList_update_new [OF map_of_absent [OF new]])
    with t en show ?thesis by (auto simp: entries_typed_def added_entry_def)
  qed (use t in simp_all)
next
  fix others e d w port ae d' w'
  assume inv: "daemon_inv others d w" and t: "entries_typed d"
    and ae: "map_of (active d) port = Some ae" and rem: "daemon_remove e port d w = (Returns d', w')"
  from daemon_remove_inv [OF inv ae rem] have "active d' = AList.delete port (active d)" by auto
  with t show "entries_typed d'" by (auto simp: entries_typed_def AList.delete_eq)
qed

text \<open>
  C8: whatever the system's commands print and whichever calls fail, at every moment of a run every entry
  that the store serves has its type: a positive local port under which it is stored, a remote port that
  is not negative, either the tool \<open>ssh\<close> and no resource or the tool \<open>kubectl\<close> and no remote host, a host
  address of 127.0.1.0/24, a valid host name, and TLS only for the two HTTPS ports.
\<close>

theorem daemon_run_typed:
  assumes "daemon_steps e (fresh_daemon e c cfg v, w) (d', w')" and "entries (d_store d') port = Some en"
  shows "e_port en = port \<and> entry_typed en"
proof -
  have "entries_typed (fresh_daemon e c cfg v)" by (simp add: entries_typed_def new_daemon_fields)
  then have t: "entries_typed d'" using lad_types.steps_keep [OF assms(1) fresh_daemon_inv] by blast
  have "daemon_inv (mset (bound w)) d' w'" using steps_inv [OF assms(1) fresh_daemon_inv] by blast
  then have "entries (d_store d') = (\<lambda>port. map_option ae_entry (map_of (active d') port))"
    and ok: "list_all (entry_ok (d_cfg d') (d_cert d')) (active d')" by (simp_all add: daemon_inv_def)
  then obtain ae where "en = ae_entry ae" "(port, ae) \<in> set (active d')"
    using assms(2) map_of_SomeD by fastforce
  then show ?thesis using t ok by (auto simp: entries_typed_def list_all_iff Let_def)
qed

theorem daemon_run_typed_witness:
  "\<exists>d' w' en. run_loop demo_env [TimerTick] demo_daemon demo_files = (Returns (RunWaiting, d'), w')
     \<and> entries (d_store d') 15432 = Some en \<and> entry_typed en"
proof -
  obtain d' w' where p: "daemon_poll demo_env demo_daemon demo_files = (Returns d', w')" "ports_of d' = {15432}"
    using demo_poll by blast
  then have run: "run_loop demo_env [TimerTick] demo_daemon demo_files = (Returns (RunWaiting, d'), w')"
    unfolding run_loop.simps by simp
  have "dom (entries (d_store d')) = ports_of d'"
    using run_loop_inv [OF fresh_daemon_inv run] by (auto simp: daemon_inv_def dom_map_option dom_map_of_conv_image_fst)
  then obtain en where en: "entries (d_store d') 15432 = Some en" using p(2) by blast
  from run en daemon_run_typed [OF run_loop_steps [OF run] en] show ?thesis by blast
qed

end
