(* ===== verification/Domain_Spec.thy ===== *)
theory Domain_Spec
  imports Domain_Name
begin

text \<open>
  What the loop of \<open>sanitize\<close> in \<open>internal/domain/domain.go\<close> computes, said without a loop: the words of
  the text, joined by single dashes. A word is a maximal run of letters and digits, of any alphabet.
\<close>

function runs_of :: "('a \<Rightarrow> bool) \<Rightarrow> 'a list \<Rightarrow> 'a list list" where
  "runs_of P [] = []"
| "runs_of P (x # xs) =
     (if P x then (x # takeWhile P xs) # runs_of P (dropWhile P xs) else runs_of P xs)"
  by pat_completeness auto
termination by (relation "measure (\<lambda>(P, xs). length xs)") (simp_all add: length_dropWhile_le less_Suc_eq_le)

definition word_rune :: "unicode \<Rightarrow> nat \<Rightarrow> bool" where
  "word_rune u r \<longleftrightarrow> rune_letter u r \<or> rune_digit u r"

definition encode_runes :: "nat list \<Rightarrow> string" where
  "encode_runes rs = concat (map encode_rune rs)"

definition word_texts :: "unicode \<Rightarrow> nat list \<Rightarrow> string list" where
  "word_texts u rs = map encode_runes (runs_of (word_rune u) rs)"

definition dashed_words :: "unicode \<Rightarrow> string \<Rightarrow> string" where
  "dashed_words u s =
     (let t = join ''-'' (word_texts u (runes (to_lower u s)))
      in if 63 < length t then trim_right_byte CHR ''-'' (take 63 t) else t)"

section \<open>The bytes of a letter or digit\<close>

lemma of_char_Char_dash: "(of_char CHR ''-'' :: nat) = 45"
  by simp

lemma encode_rune_not_dash: "r \<noteq> 45 \<Longrightarrow> CHR ''-'' \<notin> set (encode_rune r) \<and> encode_rune r \<noteq> []"
proof -
  assume r: "r \<noteq> 45"
  have c: "CHR ''-'' = char_of n \<longleftrightarrow> n mod 256 = 45" for n :: nat
    by (metis (no_types, lifting) char_of_char of_char_of of_char_Char_dash)
  have "r < 0x800 \<Longrightarrow> r div 64 < 32" "r < 0x10000 \<Longrightarrow> r div 4096 < 16" "r \<le> 0x10FFFF \<Longrightarrow> r div 262144 < 5"
    by (simp_all add: less_mult_imp_div_less)
  moreover have "r mod 64 < 64" "r div 64 mod 64 < 64" "r div 4096 mod 64 < 64" by simp_all
  ultimately show ?thesis using r by (auto simp: encode_rune_def c)
qed

lemma word_rune_not_dash: "word_rune u r \<Longrightarrow> r \<noteq> 45"
  by (auto simp: word_rune_def rune_letter_def rune_digit_def)

lemma trim_right_word:
  assumes "word_rune u r"
  shows "trim_right_byte CHR ''-'' (encode_rune r @ s) = encode_rune r @ trim_right_byte CHR ''-'' s"
proof -
  have e: "CHR ''-'' \<notin> set (encode_rune r)" "encode_rune r \<noteq> []"
    using encode_rune_not_dash [OF word_rune_not_dash [OF assms]] by auto
  then have "last (encode_rune r) \<noteq> CHR ''-''" by (metis last_in_set)
  then show ?thesis by (simp add: trim_right_byte_append trim_right_byte_id)
qed

lemma trim_right_Cons:
  "trim_right_byte c (a # s) =
     (if trim_right_byte c s = [] \<and> a = c then [] else a # trim_right_byte c s)"
  by (auto simp: trim_right_byte_def dropWhile_append)

section \<open>The loop\<close>

lemma sanitize_loop_Cons:
  "sanitize_loop u p (r # rs) =
     (if word_rune u r then encode_rune r @ sanitize_loop u r rs
      else if p \<noteq> 45 then CHR ''-'' # sanitize_loop u 45 rs else sanitize_loop u 45 rs)"
  by (simp add: word_rune_def)

lemma join_texts_empty: "join ''-'' (word_texts u rs) = [] \<longleftrightarrow> runs_of (word_rune u) rs = []"
proof (induction "word_rune u" rs rule: runs_of.induct)
  case (2 x xs)
  have "join ''-'' (t # ts) \<noteq> []" if "t \<noteq> []" for t ts using that by (cases ts) auto
  with 2 encode_rune_not_dash [OF word_rune_not_dash [of u x]] show ?case
    by (auto simp: word_texts_def encode_runes_def)
qed (simp add: word_texts_def)

lemma sanitize_loop_words:
  "trim_right_byte CHR ''-'' (sanitize_loop u 45 rs) = join ''-'' (word_texts u rs)
   \<and> (p \<noteq> 45 \<longrightarrow> trim_right_byte CHR ''-'' (sanitize_loop u p rs)
        = encode_runes (takeWhile (word_rune u) rs) @
          (if runs_of (word_rune u) (dropWhile (word_rune u) rs) = [] then []
           else ''-'' @ join ''-'' (word_texts u (dropWhile (word_rune u) rs))))"
proof (induction rs arbitrary: p)
  case Nil
  show ?case by (simp add: word_texts_def encode_runes_def trim_right_byte_def)
next
  case (Cons r rs)
  show ?case
  proof (cases "word_rune u r")
    case True
    let ?ws = "word_texts u (dropWhile (word_rune u) rs)" and ?w = "encode_runes (takeWhile (word_rune u) rs)"
    have "join ''-'' ((encode_rune r @ ?w) # ?ws)
        = encode_rune r @ ?w @ (if runs_of (word_rune u) (dropWhile (word_rune u) rs) = [] then [] else ''-'' @ join ''-'' ?ws)"
      by (cases ?ws) (auto simp: word_texts_def)
    moreover have "word_texts u (r # rs) = (encode_rune r @ ?w) # ?ws"
      using True by (simp add: word_texts_def encode_runes_def)
    ultimately show ?thesis
      using Cons.IH [of r] word_rune_not_dash [OF True] True
      by (simp add: sanitize_loop_Cons trim_right_word [OF True] encode_runes_def del: sanitize_loop.simps)
  next
    case False
    then have "word_texts u (r # rs) = word_texts u rs" by (simp add: word_texts_def)
    with False Cons.IH [of p] join_texts_empty [of u rs] show ?thesis
      by (simp add: sanitize_loop_Cons trim_right_Cons encode_runes_def del: sanitize_loop.simps)
  qed
qed

lemma sanitize_loop_start: "sanitize_loop u 45 rs = [] \<or> hd (sanitize_loop u 45 rs) \<noteq> CHR ''-''"
proof (induction rs)
  case (Cons r rs)
  show ?case
  proof (cases "word_rune u r")
    case True
    then have "CHR ''-'' \<notin> set (encode_rune r)" "encode_rune r \<noteq> []"
      using encode_rune_not_dash [OF word_rune_not_dash] by auto
    with True show ?thesis by (cases "encode_rune r") (auto simp: sanitize_loop_Cons simp del: sanitize_loop.simps)
  next
    case False
    with Cons show ?thesis by (simp add: sanitize_loop_Cons del: sanitize_loop.simps)
  qed
qed simp

text \<open>
  C19: the sanitizer is what its comment says, for every text and whatever the Unicode tables are. The
  loop over runes with its memory of the last one, the trimming and the cut are the same as: take the
  maximal runs of letters and digits of the lower-cased text, join them with single dashes, and if that
  is longer than 63 bytes, cut it there and take off a dash at the end.
\<close>

theorem sanitize_is_dashed_words: "sanitize u s = dashed_words u s"
proof -
  let ?t = "sanitize_loop u 45 (runes (to_lower u s))"
  have "dropWhile (\<lambda>x. x = CHR ''-'') ?t = ?t" using sanitize_loop_start by (intro dropWhile_none) auto
  then have "trim_byte CHR ''-'' ?t = join ''-'' (word_texts u (runes (to_lower u s)))"
    using sanitize_loop_words by (simp add: trim_byte_def)
  then show ?thesis by (simp add: sanitize_def dashed_words_def)
qed

end
