(* ===== verification/Proxy_Pipe.thy ===== *)
theory Proxy_Pipe
  imports Proxy "HOL-Library.Sublist"
begin

text \<open>
  The bytes of one piped connection of \<open>internal/proxy/proxy.go\<close>: the two calls of \<open>io.Copy\<close> in \<open>pipe\<close>,
  step by step, where \<open>Proxy\<close> sees only the ends of the copies.
\<close>

section \<open>A copy\<close>

text \<open>
  \<open>io.Copy\<close>: what the source has still to send, what was written, whether the copy has ended and
  whether by an error. A chunk is read and written; the copy ends at the end of the source, at an
  error of the read, or at an error of the write, which may have written a part of the chunk.
\<close>

record copying =
  unread :: string
  written :: string
  ended :: bool
  failed :: bool

definition new_copy :: "string \<Rightarrow> copying" where
  "new_copy bytes = \<lparr>unread = bytes, written = '''', ended = False, failed = False\<rparr>"

inductive copy_step :: "copying \<Rightarrow> copying \<Rightarrow> bool" where
  chunk: "\<not> ended c \<Longrightarrow> unread c = b @ rest \<Longrightarrow> b \<noteq> [] \<Longrightarrow>
    copy_step c (c\<lparr>unread := rest, written := written c @ b\<rparr>)"
| at_eof: "\<not> ended c \<Longrightarrow> unread c = [] \<Longrightarrow> copy_step c (c\<lparr>ended := True\<rparr>)"
| read_fails: "\<not> ended c \<Longrightarrow> copy_step c (c\<lparr>ended := True, failed := True\<rparr>)"
| write_fails: "\<not> ended c \<Longrightarrow> unread c = b @ lost @ rest \<Longrightarrow>
    copy_step c (c\<lparr>unread := rest, written := written c @ b, ended := True, failed := True\<rparr>)"

inductive_cases copy_stepE: "copy_step c c'"

definition copy_inv :: "string \<Rightarrow> copying \<Rightarrow> bool" where
  "copy_inv bytes c \<longleftrightarrow>
     (if failed c then prefix (written c) bytes else bytes = written c @ unread c)
     \<and> (failed c \<longrightarrow> ended c) \<and> (ended c \<and> \<not> failed c \<longrightarrow> unread c = [])"

lemma new_copy_inv: "copy_inv bytes (new_copy bytes)"
  by (simp add: copy_inv_def new_copy_def)

lemma copy_step_inv: "copy_step c c' \<Longrightarrow> copy_inv bytes c \<Longrightarrow> copy_inv bytes c'"
  by (induction rule: copy_step.induct) (auto simp: copy_inv_def)

lemma copy_inv_prefix: "copy_inv bytes c \<Longrightarrow> prefix (written c) bytes"
  by (auto simp: copy_inv_def split: if_splits)

lemma copy_inv_all: "copy_inv bytes c \<Longrightarrow> ended c \<Longrightarrow> \<not> failed c \<Longrightarrow> written c = bytes"
  by (simp add: copy_inv_def)

section \<open>A piped connection\<close>

text \<open>
  \<open>pipe\<close>: dial the upstream, run a copy in each direction, wait for both, and close both connections.
  The parameters are the bytes that the client and the upstream send until they close.
\<close>

datatype connection = Undialled string string | DialFailed | Copying copying copying | Closed copying copying

inductive connection_step :: "connection \<Rightarrow> connection \<Rightarrow> bool" where
  dials: "connection_step (Undialled x y) (Copying (new_copy x) (new_copy y))"
| dial_refused: "connection_step (Undialled x y) DialFailed"
| copies_up: "copy_step u u' \<Longrightarrow> connection_step (Copying u d) (Copying u' d)"
| copies_down: "copy_step d d' \<Longrightarrow> connection_step (Copying u d) (Copying u d')"
| closes: "ended u \<Longrightarrow> ended d \<Longrightarrow> connection_step (Copying u d) (Closed u d)"

abbreviation connection_steps :: "connection \<Rightarrow> connection \<Rightarrow> bool" where
  "connection_steps \<equiv> connection_step\<^sup>*\<^sup>*"

fun pipe_of :: "connection \<Rightarrow> pipe" where
  "pipe_of (Undialled x y) = Dialing"
| "pipe_of DialFailed = PipeEnded"
| "pipe_of (Copying u d) = Piping (ended u) (ended d)"
| "pipe_of (Closed u d) = PipeEnded"

fun copies_of :: "connection \<Rightarrow> (copying \<times> copying) option" where
  "copies_of (Copying u d) = Some (u, d)"
| "copies_of (Closed u d) = Some (u, d)"
| "copies_of c = None"

lemma copy_step_ended: "copy_step c c' \<Longrightarrow> \<not> ended c"
  by (induction rule: copy_step.induct) auto

text \<open>Each step of a connection is a step of its pipe in \<open>Proxy\<close>, or is not seen there.\<close>

lemma connection_step_pipe:
  "connection_step c c' \<Longrightarrow> pipe_of c' = pipe_of c \<or> pipe_step (pipe_of c) (pipe_of c')"
  by (induction rule: connection_step.induct) (auto simp: new_copy_def dest: copy_step_ended)

section \<open>What arrives\<close>

fun connection_inv :: "string \<Rightarrow> string \<Rightarrow> connection \<Rightarrow> bool" where
  "connection_inv x y (Undialled x' y') = (x' = x \<and> y' = y)"
| "connection_inv x y DialFailed = True"
| "connection_inv x y (Copying u d) = (copy_inv x u \<and> copy_inv y d)"
| "connection_inv x y (Closed u d) = (copy_inv x u \<and> copy_inv y d \<and> ended u \<and> ended d)"

lemma connection_step_inv: "connection_step c c' \<Longrightarrow> connection_inv x y c \<Longrightarrow> connection_inv x y c'"
  by (induction rule: connection_step.induct) (auto simp: new_copy_inv copy_step_inv)

lemma connection_steps_inv: "connection_steps c c' \<Longrightarrow> connection_inv x y c \<Longrightarrow> connection_inv x y c'"
  by (induction rule: rtranclp_induct) (auto intro: connection_step_inv)

text \<open>
  C30: the proxy is transparent. In every interleaving of the two copies of a connection, what the
  service has been sent is a beginning of what the client sent, and the other way round: no byte is
  added, changed, reordered or left out in the middle. Where a copy has ended without an error all
  bytes have arrived, and both connections are closed only after both copies have ended.
\<close>

theorem pipe_transparent:
  assumes "connection_steps (Undialled x y) c" and "copies_of c = Some (u, d)"
  shows "prefix (written u) x \<and> prefix (written d) y
    \<and> (ended u \<and> \<not> failed u \<longrightarrow> written u = x) \<and> (ended d \<and> \<not> failed d \<longrightarrow> written d = y)
    \<and> (pipe_of c = PipeEnded \<longrightarrow> ended u \<and> ended d)"
proof -
  have "connection_inv x y c" using connection_steps_inv [OF assms(1)] by simp
  then have "copy_inv x u" "copy_inv y d" "pipe_of c = PipeEnded \<longrightarrow> ended u \<and> ended d"
    using assms(2) by (cases c; auto)+
  then show ?thesis using copy_inv_prefix copy_inv_all by blast
qed

text \<open>The witness: the client sends \<open>GET\<close> in two chunks, the service answers nothing.\<close>

definition get_copied :: copying where
  "get_copied = \<lparr>unread = '''', written = ''GET'', ended = True, failed = False\<rparr>"

definition none_copied :: copying where
  "none_copied = \<lparr>unread = '''', written = '''', ended = True, failed = False\<rparr>"

lemma get_connection: "connection_steps (Undialled ''GET'' '''') (Closed get_copied none_copied)"
proof -
  let ?g = "new_copy ''GET''" and ?n = "new_copy ''''"
  let ?g1 = "?g\<lparr>unread := ''T'', written := ''GE''\<rparr>"
  let ?g2 = "?g1\<lparr>unread := '''', written := ''GET''\<rparr>"
  have g: "copy_step ?g ?g1" "copy_step ?g1 ?g2" "copy_step ?g2 get_copied"
    using chunk [of ?g "''GE''" "''T''"] chunk [of ?g1 "''T''" "''''"] at_eof [of ?g2]
    by (simp_all add: new_copy_def get_copied_def)
  have n: "copy_step ?n none_copied" using at_eof [of ?n] by (simp add: new_copy_def none_copied_def)
  have "ended get_copied" "ended none_copied" by (simp_all add: get_copied_def none_copied_def)
  note steps = dials copies_up [OF g(1), of ?n] copies_up [OF g(2), of ?n] copies_up [OF g(3), of ?n]
    copies_down [OF n, of get_copied] closes [OF this]
  show ?thesis by (rule converse_rtranclp_into_rtranclp steps rtranclp.rtrancl_refl)+
qed

theorem pipe_transparent_witness: "prefix (written get_copied) ''GET'' \<and> prefix (written none_copied) ''''"
  using pipe_transparent [OF get_connection] by simp

end
