(* ===== verification/Scanner_Finds.thy ===== *)
theory Scanner_Finds
  imports Scanner_Darwin
begin

text \<open>
  What the Linux scanner finds: from the lines of \<open>ss\<close> and the command lines in \<open>/proc\<close> that the
  tunnels of the user give rise to, exactly these tunnels are read back, in order.
\<close>

section \<open>Pieces of text\<close>

lemma contains_middle: "contains s sub \<Longrightarrow> contains (a @ s @ b) sub"
  unfolding contains_iff by (metis append.assoc)

lemma join_part: "x \<in> set xs \<Longrightarrow> \<exists>u v. join sep xs = u @ x @ v"
proof (induction sep xs rule: join.induct)
  case (3 sep y z zs)
  show ?case
  proof (cases "x = y")
    case True
    then show ?thesis by (intro exI [of _ "[]"] exI [of _ "sep @ join sep (z # zs)"]) simp
  next
    case False
    with 3 obtain u v where "join sep (z # zs) = u @ x @ v" by auto
    then show ?thesis by (intro exI [of _ "y @ sep @ u"] exI [of _ v]) simp
  qed
qed (auto intro: exI [of _ "[]"])

lemma index_of_pid: "CHR ''='' \<notin> set pre \<Longrightarrow> index_of (pre @ ''pid='' @ rest) ''pid='' = Some (length pre)"
proof (induction pre)
  case Nil
  show ?case by (simp add: has_prefix_def)
next
  case (Cons c pre)
  have "\<not> has_prefix ((c # pre) @ ''pid='' @ rest) ''pid=''"
  proof
    assume "has_prefix ((c # pre) @ ''pid='' @ rest) ''pid=''"
    then have "((c # pre) @ ''pid='' @ rest) ! 3 = CHR ''=''"
      by (cases pre; cases "tl pre"; cases "tl (tl pre)") (auto simp: has_prefix_def)
    with Cons.prems show False
      by (cases pre; cases "tl pre"; cases "tl (tl pre)") (auto simp: has_prefix_def)
  qed
  then show ?case using Cons by simp
qed

lemma index_any_digits: "list_all is_digit_c d \<Longrightarrow> index_any (d @ CHR '','' # rest) '',)'' = Some (length d)"
  by (induction d) (auto simp: class_defs)

lemma parse_pid_shown:
  assumes "CHR ''='' \<notin> set name" "0 \<le> p" "p < 2 ^ 63"
  shows "parse_pid_from_ss (''users:((\"'' @ name @ ''\",pid='' @ itoa p @ '',fd='' @ fd @ ''))'') = p"
proof -
  let ?pre = "''users:((\"'' @ name @ ''\",''" and ?rest = "itoa p @ '',fd='' @ fd @ ''))''"
  have i: "index_of (?pre @ ''pid='' @ ?rest) ''pid='' = Some (length ?pre)" using assms(1) by (intro index_of_pid) simp
  have a: "index_any ?rest '',)'' = Some (length (itoa p))"
    using index_any_digits [OF itoa_nat_digits [OF assms(2)], of "''fd='' @ fd @ ''))''"] by simp
  have "parse_pid_from_ss (?pre @ ''pid='' @ ?rest) = p"
    unfolding parse_pid_from_ss_def i option.case Let_def
    using a assms(2,3) by (simp add: atoi_itoa)
  then show ?thesis by simp
qed

lemma parse_port_shown: "0 \<le> n \<Longrightarrow> n < 2 ^ 63 \<Longrightarrow> parse_port_linux (addr @ '':'' @ itoa n) = n"
  using last_index_append [OF colon_not_itoa, of addr n] by (simp add: parse_port_linux_def atoi_itoa)

section \<open>Tunnels\<close>

text \<open>A tunnel: where it listens, its process as \<open>ss\<close> names it, its arguments, and where it leads.\<close>

record tunnel =
  t_addr :: string
  t_name :: string
  t_port :: int
  t_pid :: int
  t_args :: "string list"
  t_host :: string
  t_rport :: int
  t_resource :: string
  t_tool :: string

definition ssh_form :: "tunnel \<Rightarrow> bool" where
  "ssh_form t \<longleftrightarrow> t_tool t = ''ssh'' \<and> t_resource t = '''' \<and> 0 < t_rport t
     \<and> (\<exists>pre args post spec. t_args t = ''ssh'' # pre @ args @ post
          \<and> (\<forall>f \<in> set pre. \<not> has_prefix f ''-'' \<or> CHR ''L'' \<notin> set f)
          \<and> l_args spec args \<and> l_spec (t_port t) (t_host t) (t_rport t) spec \<and> CHR '':'' \<notin> set (t_host t))"

definition kubectl_form :: "tunnel \<Rightarrow> bool" where
  "kubectl_form t \<longleftrightarrow> t_tool t = ''kubectl'' \<and> t_host t = '''' \<and> 0 \<le> t_rport t
     \<and> (\<exists>pre kind post. t_args t = ''kubectl'' # pre
            @ [''port-forward'', kind @ ''/'' @ t_resource t, itoa (t_port t) @ '':'' @ itoa (t_rport t)] @ post
          \<and> ''port-forward'' \<notin> set pre \<and> list_all (\<lambda>f. CHR '':'' \<notin> set f) pre
          \<and> CHR '':'' \<notin> set (kind @ t_resource t) \<and> CHR ''/'' \<notin> set kind)
     \<and> \<not> contains (map lower_c (join '' '' (t_args t))) ''ssh''"

definition tunnel_ok :: "tunnel \<Rightarrow> bool" where
  "tunnel_ok t \<longleftrightarrow> is_loopback (t_addr t) \<and> 0 < t_port t \<and> t_port t < 2 ^ 63 \<and> 0 < t_pid t \<and> t_pid t < 2 ^ 63
     \<and> t_rport t < 2 ^ 63 \<and> list_all (\<lambda>a. plain_field a \<and> CHR 0x00 \<notin> set a) (t_args t)
     \<and> CHR ''='' \<notin> set (t_name t) \<and> (contains (t_name t) ''ssh'' \<or> contains (t_name t) ''kubectl'')
     \<and> (ssh_form t \<or> kubectl_form t)"

definition tunnel_forward :: "tunnel \<Rightarrow> port_forward" where
  "tunnel_forward t =
     \<lparr>pf_port = t_port t, remote_host = t_host t, remote_port = t_rport t, resource = t_resource t,
      pid = t_pid t, cmdline = join '' '' (t_args t), tool = t_tool t\<rparr>"

text \<open>How \<open>ss\<close> shows a tunnel, and the lines it may show beside: a header, short lines, sockets on
  other addresses and sockets of other processes.\<close>

definition ss_shows :: "string \<Rightarrow> tunnel \<Rightarrow> bool" where
  "ss_shows line t \<longleftrightarrow> \<not> has_prefix line ''State''
     \<and> (\<exists>st q1 q2 peer fd. string_fields line = [st, q1, q2, t_addr t @ '':'' @ itoa (t_port t), peer,
          ''users:((\"'' @ t_name t @ ''\",pid='' @ itoa (t_pid t) @ '',fd='' @ fd @ ''))''])"

definition other_line :: "string \<Rightarrow> bool" where
  "other_line line \<longleftrightarrow>
     has_prefix line ''State'' \<or> length (string_fields line) < 6 \<or> \<not> is_loopback (string_fields line ! 3)
     \<or> \<not> contains (string_fields line ! 5) ''ssh'' \<and> \<not> contains (string_fields line ! 5) ''kubectl''"

text \<open>The command line in \<open>/proc\<close>: every argument is ended by a zero byte.\<close>

definition proc_text :: "string list \<Rightarrow> string" where
  "proc_text args = concat (map (\<lambda>a. a @ [CHR 0x00]) args)"

definition runs :: "os_env \<Rightarrow> tunnel \<Rightarrow> bool" where
  "runs e t \<longleftrightarrow> (\<forall>v. proc_file e v (join_path [''/proc'', itoa (t_pid t), ''cmdline'']) = Some (proc_text (t_args t)))"

text \<open>
  Another process, which may well be called \<open>ssh\<close> or \<open>kubectl\<close> and listen on a loopback address: no argument
  of it has a dash, letters and an \<open>L\<close>, unless it is no kind of \<open>ssh\<close>, and it is no \<open>kubectl\<close> with
  \<open>port-forward\<close>; or its command line cannot be read.
\<close>

definition l_flagged :: "string \<Rightarrow> bool" where
  "l_flagged a \<longleftrightarrow> (\<exists>x m b. a = x @ ''-'' @ m @ ''L'' @ b \<and> list_all is_letter_c m)"

definition idle_args :: "string list \<Rightarrow> bool" where
  "idle_args args \<longleftrightarrow> args \<noteq> [] \<and> list_all (\<lambda>a. plain_field a \<and> CHR 0x00 \<notin> set a) args
     \<and> (let low = map lower_c (join '' '' args) in
          (\<not> list_ex l_flagged args \<or> \<not> contains low ''ssh'')
          \<and> (\<not> contains low ''kubectl'' \<or> \<not> contains low ''port-forward''))"

definition bystander :: "os_env \<Rightarrow> string \<Rightarrow> bool" where
  "bystander e line \<longleftrightarrow>
     (\<exists>st q1 q2 addr peer name p fd args. string_fields line =
          [st, q1, q2, addr, peer, ''users:((\"'' @ name @ ''\",pid='' @ itoa p @ '',fd='' @ fd @ ''))'']
        \<and> CHR ''='' \<notin> set name \<and> 0 < p \<and> p < 2 ^ 63 \<and> idle_args args
        \<and> (\<forall>v. proc_file e v (join_path [''/proc'', itoa p, ''cmdline'']) \<in> {None, Some (proc_text args)}))"

section \<open>Lines\<close>

lemma is_loopback_append: "is_loopback a \<Longrightarrow> is_loopback (a @ b)"
  by (auto simp: is_loopback_def has_prefix_iff)

lemma ss_candidate_shown:
  assumes "tunnel_ok t" "ss_shows line t"
  shows "ss_candidate line = Some (t_pid t, t_port t)"
proof -
  obtain st q1 q2 peer fd where f: "string_fields line = [st, q1, q2, t_addr t @ '':'' @ itoa (t_port t), peer,
      ''users:((\"'' @ t_name t @ ''\",pid='' @ itoa (t_pid t) @ '',fd='' @ fd @ ''))'']"
    and h: "\<not> has_prefix line ''State''" using assms(2) by (auto simp: ss_shows_def)
  let ?proc = "''users:((\"'' @ t_name t @ ''\",pid='' @ itoa (t_pid t) @ '',fd='' @ fd @ ''))''"
  have c: "contains ?proc ''ssh'' \<or> contains ?proc ''kubectl''"
    using assms(1) contains_middle [of "t_name t" _ "''users:((\"''"] by (auto simp: tunnel_ok_def)
  have l: "is_loopback (t_addr t @ '':'' @ itoa (t_port t))"
    using assms(1) by (intro is_loopback_append) (simp add: tunnel_ok_def)
  have p: "parse_port_linux (t_addr t @ '':'' @ itoa (t_port t)) = t_port t"
    using assms(1) by (intro parse_port_shown) (auto simp: tunnel_ok_def)
  have q: "parse_pid_from_ss ?proc = t_pid t" using assms(1) by (intro parse_pid_shown) (auto simp: tunnel_ok_def)
  have pos: "0 < t_port t" "0 < t_pid t" using assms(1) by (simp_all add: tunnel_ok_def)
  have n: "string_fields line ! 3 = t_addr t @ '':'' @ itoa (t_port t)" "string_fields line ! 5 = ?proc"
    "length (string_fields line) = 6" unfolding f by simp_all
  show ?thesis unfolding ss_candidate_def Let_def n using h c l p q pos by auto
qed

lemma ss_candidate_other: "other_line line \<Longrightarrow> ss_candidate line = None"
  by (auto simp: other_line_def ss_candidate_def Let_def)

lemma split_on_lines:
  "list_all (\<lambda>l. CHR 0x0A \<notin> set l) ls \<Longrightarrow> split_on CHR 0x0A (concat (map (\<lambda>l. l @ [CHR 0x0A]) ls)) = ls @ ['''']"
  by (induction ls) (simp_all add: split_on_append_sep)

definition plain_line :: "string \<Rightarrow> bool" where
  "plain_line l \<longleftrightarrow> CHR 0x0A \<notin> set l \<and> length l < max_token \<and> (l = [] \<or> last l \<noteq> CHR 0x0D)"

lemma scan_lines_text:
  assumes "list_all plain_line ls"
  shows "scan_lines (concat (map (\<lambda>l. l @ [CHR 0x0A]) ls)) = ls"
proof -
  have "list_all (\<lambda>l. CHR 0x0A \<notin> set l) ls" using assms by (simp add: list_all_iff plain_line_def)
  note s = split_on_lines [OF this]
  have t: "takeWhile (\<lambda>l. length l < max_token) ls = ls"
    using assms by (simp add: takeWhile_eq_all_conv list_all_iff plain_line_def)
  have "map drop_cr ls = ls"
    using assms by (intro map_idI) (auto simp: list_all_iff plain_line_def drop_cr_def)
  then show ?thesis by (simp add: scan_lines_def s t Let_def)
qed

section \<open>Command lines\<close>

lemma join_plain:
  assumes "list_all plain_field xs" "xs \<noteq> []"
  shows "all_ascii (join '' '' xs) \<and> join '' '' xs \<noteq> [] \<and> \<not> is_space_c (hd (join '' '' xs))
    \<and> \<not> is_space_c (last (join '' '' xs))"
  using assms
proof (induction xs rule: induct_list012)
  case (2 x)
  then show ?case by (cases x) (auto simp: plain_field_def list_all_iff)
next
  case (3 x y zs)
  then have j: "all_ascii (join '' '' (y # zs))" "join '' '' (y # zs) \<noteq> []" "\<not> is_space_c (last (join '' '' (y # zs)))"
    by simp_all
  have x: "all_ascii x" "x \<noteq> []" "\<not> is_space_c (hd x)"
    using 3(3) by (cases x; auto simp: plain_field_def list_all_iff)+
  have "join '' '' (x # y # zs) = x @ '' '' @ join '' '' (y # zs)" by simp
  moreover have "all_ascii '' ''" by (simp add: ascii_def)
  ultimately show ?case using j x by simp
qed simp

lemma trim_one_space:
  assumes "all_ascii s" "s \<noteq> []" "\<not> is_space_c (hd s)" "\<not> is_space_c (last s)"
  shows "trim_space (s @ '' '') = s"
proof -
  obtain c r where s: "s = c # r" using assms(2) by (cases s) auto
  obtain d q where r: "rev s = d # q" using assms(2) by (cases "rev s") auto
  have d: "\<not> is_space_c d" using assms(4) r by (metis hd_rev list.sel(1))
  have "dropWhile is_space_c (s @ '' '') = s @ '' ''" using assms(3) s by simp
  moreover have "dropWhile is_space_c (rev (s @ '' '')) = rev s" using r d by (simp add: is_space_c_def)
  moreover have "all_ascii (s @ '' '')" using assms(1) by (simp add: ascii_def)
  ultimately show ?thesis by (simp add: trim_space_ascii)
qed

lemma concat_ended: "xs \<noteq> [] \<Longrightarrow> concat (map (\<lambda>a. a @ '' '') xs) = join '' '' xs @ '' ''"
  by (induction xs rule: induct_list012) auto

lemma proc_cmdline:
  assumes ok: "list_all (\<lambda>a. plain_field a \<and> CHR 0x00 \<notin> set a) args" and "args \<noteq> []"
  shows "trim_space (replace_byte CHR 0x00 CHR '' '' (proc_text args)) = join '' '' args"
proof -
  have r: "replace_byte CHR 0x00 CHR '' '' (concat (map (\<lambda>a. a @ [CHR 0x00]) xs)) = concat (map (\<lambda>a. a @ '' '') xs)"
    if "list_all (\<lambda>a. plain_field a \<and> CHR 0x00 \<notin> set a) xs" for xs
    using that by (induction xs) (auto simp: replace_byte_def intro!: map_idI)
  have "list_all plain_field args" using ok by (simp add: list_all_iff)
  from join_plain [OF this assms(2)] show ?thesis unfolding proc_text_def r [OF ok] concat_ended [OF assms(2)]
    by (intro trim_one_space) simp_all
qed

lemma lower_contains: "all_ascii s \<Longrightarrow> x \<in> set xs \<Longrightarrow> s = join '' '' xs \<Longrightarrow> map lower_c x = x \<Longrightarrow> contains (to_lower u s) x"
proof -
  assume a: "all_ascii s" and x: "x \<in> set xs" and s: "s = join '' '' xs" and l: "map lower_c x = x"
  obtain p q where "s = p @ x @ q" using join_part [OF x] s by blast
  then have "map lower_c s = map lower_c p @ x @ map lower_c q" using l by simp
  then show ?thesis unfolding contains_iff to_lower_ascii [OF a] by blast
qed

lemma l_args_flag: "l_args spec args \<Longrightarrow> \<exists>m r. hd args = ''-'' @ m @ ''L'' @ r \<and> list_all is_letter_c m \<and> args \<noteq> []"
proof -
  assume "l_args spec args"
  then consider "args = [''-L'', spec]" | "args = [''-L'' @ spec]"
    | m where "args = [''-'' @ m, spec]" "list_all is_letter_c m" "CHR ''L'' \<in> set m"
    unfolding l_args_def by blast
  then show ?thesis
  proof cases
    case 3
    then obtain a b where "m = a @ CHR ''L'' # b" by (meson split_list)
    with 3 show ?thesis by (intro exI [of _ a] exI [of _ b]) simp
  qed (auto intro: exI [of _ "[]"])
qed

lemma ssh_classified:
  assumes "tunnel_ok t" "ssh_form t"
  shows "forward_of u (t_pid t) (t_port t) (join '' '' (t_args t)) ''ssh'' = tunnel_forward t
    \<and> classify_text u (join '' '' (t_args t)) = Some (join '' '' (t_args t), t_tool t)"
proof -
  obtain pre args post spec where a: "t_args t = ''ssh'' # pre @ args @ post"
      "\<forall>f \<in> set pre. \<not> has_prefix f ''-'' \<or> CHR ''L'' \<notin> set f"
      "l_args spec args" "l_spec (t_port t) (t_host t) (t_rport t) spec" "CHR '':'' \<notin> set (t_host t)"
    using assms(2) unfolding ssh_form_def by blast
  let ?cmd = "join '' '' (t_args t)"
  have pl: "list_all plain_field (t_args t)" using assms(1) by (simp add: tunnel_ok_def list_all_iff)
  have "parse_ssh_info u (join '' '' ((''ssh'' # pre) @ args @ post)) (t_port t) = (t_host t, t_rport t)"
    using a assms pl by (intro parse_ssh_args) (auto simp: tunnel_ok_def ssh_form_def has_prefix_def)
  then have fw: "forward_of u (t_pid t) (t_port t) ?cmd ''ssh'' = tunnel_forward t"
    using a(1) assms(2) by (simp add: forward_of_def parse_remote_info_def tunnel_forward_def ssh_form_def)
  have asc: "all_ascii ?cmd" using join_plain [OF pl] a(1) by simp
  have c: "contains (to_lower u ?cmd) ''ssh''"
    by (rule lower_contains [OF asc _ refl]) (simp_all add: a(1) lower_c_def is_upper_c_def)
  obtain m r where m: "hd args = ''-'' @ m @ ''L'' @ r" "list_all is_letter_c m" "args \<noteq> []"
    using l_args_flag [OF a(3)] by blast
  have "hd args \<in> set (t_args t)" using m(3) a(1) by simp
  then obtain x y where "?cmd = x @ hd args @ y" using join_part by metis
  then have "match_string ssh_l_re ?cmd" unfolding match_ssh_l_re using m
    by (intro exI [of _ x] exI [of _ m] exI [of _ "r @ y"]) simp
  then show ?thesis using c fw assms(2) by (simp add: classify_text_def classify_ssh_def ssh_form_def)
qed


lemma kubectl_classified:
  assumes "tunnel_ok t" "kubectl_form t"
  shows "forward_of u (t_pid t) (t_port t) (join '' '' (t_args t)) ''kubectl'' = tunnel_forward t
    \<and> classify_text u (join '' '' (t_args t)) = Some (join '' '' (t_args t), t_tool t)"
proof -
  let ?pair = "\<lambda>kind. [''port-forward'', kind @ ''/'' @ t_resource t, itoa (t_port t) @ '':'' @ itoa (t_rport t)]"
  obtain pre kind post where a: "t_args t = ''kubectl'' # pre @ ?pair kind @ post"
      "''port-forward'' \<notin> set pre" "list_all (\<lambda>f. CHR '':'' \<notin> set f) pre"
      "CHR '':'' \<notin> set (kind @ t_resource t)" "CHR ''/'' \<notin> set kind"
    using assms(2) unfolding kubectl_form_def by blast
  let ?cmd = "join '' '' (t_args t)"
  have pl: "list_all plain_field (t_args t)" using assms(1) by (simp add: tunnel_ok_def list_all_iff)
  have "parse_kubectl_info (join '' '' ((''kubectl'' # pre) @ ?pair kind @ post)) (t_port t) = (t_resource t, t_rport t)"
    using a assms pl by (intro parse_kubectl_args) (auto simp: tunnel_ok_def kubectl_form_def)
  then have fw: "forward_of u (t_pid t) (t_port t) ?cmd ''kubectl'' = tunnel_forward t"
    using a(1) assms(2) by (simp add: forward_of_def parse_remote_info_def tunnel_forward_def kubectl_form_def)
  have asc: "all_ascii ?cmd" using join_plain [OF pl] a(1) by simp
  have "contains (to_lower u ?cmd) ''kubectl''" "contains (to_lower u ?cmd) ''port-forward''"
    by (rule lower_contains [OF asc _ refl]; simp add: a(1) lower_c_def is_upper_c_def)+
  moreover have "\<not> classify_ssh u ?cmd"
    using assms(2) by (simp add: classify_ssh_def to_lower_ascii [OF asc] kubectl_form_def)
  ultimately show ?thesis using fw assms(2) by (simp add: classify_text_def classify_kubectl_def kubectl_form_def Let_def)
qed

lemma tunnel_classified:
  assumes "tunnel_ok t" "runs e t"
  shows "classify_cmdline_linux e (t_pid t) v = (Some (join '' '' (t_args t), t_tool t), ticked v)
    \<and> forward_of u (t_pid t) (t_port t) (join '' '' (t_args t)) (t_tool t) = tunnel_forward t"
proof -
  have "t_args t \<noteq> []" "list_all (\<lambda>a. plain_field a \<and> CHR 0x00 \<notin> set a) (t_args t)"
    using assms(1) by (auto simp: tunnel_ok_def ssh_form_def kubectl_form_def)
  note p = proc_cmdline [OF this(2,1)]
  have c: "forward_of w (t_pid t) (t_port t) (join '' '' (t_args t)) (t_tool t) = tunnel_forward t
      \<and> classify_text w (join '' '' (t_args t)) = Some (join '' '' (t_args t), t_tool t)" for w
  proof (cases "ssh_form t")
    case True
    then have tl: "t_tool t = ''ssh''" by (simp only: ssh_form_def)
    show ?thesis using ssh_classified [OF assms(1) True, of w] unfolding tl .
  next
    case False
    then have k: "kubectl_form t" using assms(1) by (simp add: tunnel_ok_def)
    then have tl: "t_tool t = ''kubectl''" by (simp only: kubectl_form_def)
    show ?thesis using kubectl_classified [OF assms(1) k, of w] unfolding tl .
  qed
  show ?thesis using assms(2) p c by (simp add: classify_cmdline_linux_def read_proc_def runs_def)
qed

section \<open>Bystanders\<close>

lemma word_in_append:
  assumes "x @ CHR '' '' # j = a @ p @ b" "CHR '' '' \<notin> set p" "p \<noteq> []"
  shows "(\<exists>b'. x = a @ p @ b') \<or> (\<exists>a'. j = a' @ p @ b)"
proof -
  from assms(1) consider us where "x = a @ us" "us @ CHR '' '' # j = p @ b"
    | us where "x @ us = a" "CHR '' '' # j = us @ p @ b" by (auto simp: append_eq_append_conv2)
  then show ?thesis
  proof cases
    case 1
    from 1(2) show ?thesis using 1(1) assms(2) by (auto simp: append_eq_append_conv2 Cons_eq_append_conv)
  next
    case 2
    from 2(2) show ?thesis using assms(2,3) by (cases us; cases p) auto
  qed
qed

lemma word_in_join:
  "join '' '' xs = a @ p @ b \<Longrightarrow> CHR '' '' \<notin> set p \<Longrightarrow> p \<noteq> [] \<Longrightarrow> \<exists>x \<in> set xs. \<exists>a' b'. x = a' @ p @ b'"
proof (induction xs arbitrary: a rule: induct_list012)
  case (3 x y zs)
  then have "x @ CHR '' '' # join '' '' (y # zs) = a @ p @ b" by simp
  from word_in_append [OF this 3(4,5)] show ?case
  proof
    assume "\<exists>a'. join '' '' (y # zs) = a' @ p @ b"
    with 3 show ?thesis by (metis list.set_intros(2))
  qed auto
qed auto

lemma idle_not_classified:
  assumes "idle_args args"
  shows "classify_text u (join '' '' args) = None"
proof -
  let ?cmd = "join '' '' args"
  have pl: "list_all plain_field args" using assms by (auto simp: idle_args_def list_all_iff)
  with assms have asc: "all_ascii ?cmd" using join_plain by (simp add: idle_args_def)
  have "list_ex l_flagged args" if m: "match_string ssh_l_re ?cmd"
  proof -
    obtain a s b where s: "?cmd = a @ (''-'' @ s @ ''L'') @ b" "list_all is_letter_c s"
      using m unfolding match_ssh_l_re by auto
    have "CHR '' '' \<notin> set (''-'' @ s @ ''L'')" using s(2) by (auto simp: list_all_iff class_defs)
    from word_in_join [OF s(1) this] obtain x a' b' where "x \<in> set args" "x = a' @ (''-'' @ s @ ''L'') @ b'" by auto
    with s(2) show ?thesis unfolding list_ex_iff l_flagged_def by (metis append.assoc)
  qed
  then show ?thesis
    using assms by (auto simp: classify_text_def classify_ssh_def classify_kubectl_def idle_args_def to_lower_ascii [OF asc] Let_def)
qed

text \<open>A line that gives no candidate, or one whose process is not taken for a tunnel.\<close>

definition ignored :: "os_env \<Rightarrow> string \<Rightarrow> bool" where
  "ignored e line \<longleftrightarrow>
     (\<forall>p port v. ss_candidate line = Some (p, port) \<longrightarrow> classify_cmdline_linux e p v = (None, ticked v))"

lemma other_line_ignored: "other_line line \<Longrightarrow> ignored e line"
  by (simp add: ignored_def ss_candidate_other)

lemma bystander_ignored:
  assumes "bystander e line"
  shows "ignored e line"
proof -
  obtain st q1 q2 addr peer name p fd args where f: "string_fields line =
        [st, q1, q2, addr, peer, ''users:((\"'' @ name @ ''\",pid='' @ itoa p @ '',fd='' @ fd @ ''))'']"
      and n: "CHR ''='' \<notin> set name" "0 < p" "p < 2 ^ 63" and a: "idle_args args"
      and pr: "\<And>v. proc_file e v (join_path [''/proc'', itoa p, ''cmdline'']) \<in> {None, Some (proc_text args)}"
    using assms unfolding bystander_def by blast
  let ?proc = "''users:((\"'' @ name @ ''\",pid='' @ itoa p @ '',fd='' @ fd @ ''))''"
  have q: "parse_pid_from_ss ?proc = p" using n by (intro parse_pid_shown) auto
  have "string_fields line ! 5 = ?proc" unfolding f by simp
  then have "p' = p" if "ss_candidate line = Some (p', port)" for p' port
    using that q unfolding ss_candidate_def Let_def by (simp split: if_splits)
  moreover have "trim_space (replace_byte CHR 0x00 CHR '' '' (proc_text args)) = join '' '' args"
    using a by (intro proc_cmdline) (auto simp: idle_args_def)
  then have "classify_cmdline_linux e p v = (None, ticked v)" for v
    using pr [of "tick v"] idle_not_classified [OF a] by (auto simp: classify_cmdline_linux_def read_proc_def)
  ultimately show ?thesis by (auto simp: ignored_def)
qed

section \<open>The scan\<close>

lemma resolve_rows:
  assumes "\<forall>(line, r) \<in> set rows. case r of None \<Rightarrow> ignored e line | Some t \<Rightarrow> tunnel_ok t \<and> ss_shows line t \<and> runs e t"
  shows "\<exists>w'. resolve_candidates (classify_cmdline_linux e) u (List.map_filter ss_candidate (map fst rows)) w
    = (map tunnel_forward (List.map_filter snd rows), w')"
  using assms
proof (induction rows arbitrary: w)
  case (Cons row rows)
  let ?cs = "List.map_filter ss_candidate (map fst rows)"
  obtain line r where row: "row = (line, r)" by (cases row)
  have IH: "\<exists>w'. resolve_candidates (classify_cmdline_linux e) u ?cs v = (map tunnel_forward (List.map_filter snd rows), w')" for v
    using Cons by simp
  show ?case
  proof (cases r)
    case None
    with Cons.prems row have ig: "ignored e line" by simp
    show ?thesis
    proof (cases "ss_candidate line")
      case None
      with IH [of w] row \<open>r = None\<close> show ?thesis by (simp add: map_filter_simps)
    next
      case (Some c)
      obtain p port where c: "c = (p, port)" by (cases c)
      have "classify_cmdline_linux e p w = (None, ticked w)" using ig Some c by (simp add: ignored_def)
      with IH [of "ticked w"] Some c row \<open>r = None\<close> show ?thesis by (simp add: map_filter_simps)
    qed
  next
    case (Some t)
    with Cons.prems row have t: "tunnel_ok t" "ss_shows line t" "runs e t" by simp_all
    obtain w' where "resolve_candidates (classify_cmdline_linux e) u ?cs (ticked w) = (map tunnel_forward (List.map_filter snd rows), w')"
      using IH by blast
    with Some row tunnel_classified [OF t(1,3), of w u] ss_candidate_shown [OF t(1,2)] show ?thesis
      by (simp add: map_filter_simps)
  qed
qed (simp add: map_filter_simps)

text \<open>
  C9: on Linux a scan finds the user's tunnels, all of them and nothing else. When each line that \<open>ss\<close>
  prints is either the line of a tunnel, started by one of the documented forms of \<open>ssh -L\<close> or by
  \<open>kubectl port-forward\<close> on a loopback address, or the line of something else, be it another socket of an
  \<open>ssh\<close> or \<open>kubectl\<close> process on a loopback address, the result is exactly the tunnels in their order, each
  with its port, host or resource, remote port and process.
\<close>

theorem scan_linux_finds:
  assumes "run_cmd e [''ss'', ''-tlnp''] '''' w = ((True, concat (map (\<lambda>(line, _). line @ [CHR 0x0A]) rows)), w1)"
    and "list_all plain_line (map fst rows)"
    and "\<forall>(line, r) \<in> set rows. case r of None \<Rightarrow> other_line line \<or> bystander e line
           | Some t \<Rightarrow> tunnel_ok t \<and> ss_shows line t \<and> runs e t"
  shows "\<exists>w'. scan_linux e w = (Inr (map tunnel_forward (List.map_filter snd rows)), w')"
proof -
  define out where "out = concat (map (\<lambda>(line, _). line @ [CHR 0x0A]) rows)"
  have "out = concat (map (\<lambda>l. l @ [CHR 0x0A]) (map fst rows))"
    unfolding out_def by (induction rows) auto
  then have lines: "scan_lines out = map fst rows" using scan_lines_text [OF assms(2)] by (simp only:)
  have "\<forall>(line, r) \<in> set rows. case r of None \<Rightarrow> ignored e line | Some t \<Rightarrow> tunnel_ok t \<and> ss_shows line t \<and> runs e t"
    using assms(3) other_line_ignored bystander_ignored by (fastforce split: option.splits)
  then obtain w' where "resolve_candidates (classify_cmdline_linux e) (unicode_tables e)
      (List.map_filter ss_candidate (map fst rows)) w1 = (map tunnel_forward (List.map_filter snd rows), w')"
    using resolve_rows by blast
  then show ?thesis using assms(1) [folded out_def] by (simp add: scan_linux_def lines)
qed

text \<open>
  The witness: the header of \<open>ss\<close>, a web server, an SSH tunnel, the socket on which an SSH server offers a
  display, and a kubectl tunnel.
\<close>

definition ssh_tunnel :: tunnel where
  "ssh_tunnel = \<lparr>t_addr = ''127.0.0.1'', t_name = ''ssh'', t_port = 15432, t_pid = 7,
     t_args = [''ssh'', ''-NL'', ''15432:db:5432'', ''h''], t_host = ''db'', t_rport = 5432, t_resource = '''',
     t_tool = ''ssh''\<rparr>"

definition pod_tunnel :: tunnel where
  "pod_tunnel = \<lparr>t_addr = ''127.0.0.1'', t_name = ''kubectl'', t_port = 8080, t_pid = 9,
     t_args = [''kubectl'', ''port-forward'', ''svc/api'', ''8080:80''], t_host = '''', t_rport = 80, t_resource = ''api'',
     t_tool = ''kubectl''\<rparr>"

definition ss_rows :: "(string \<times> tunnel option) list" where
  "ss_rows = [(''State  Recv-Q Send-Q'', None),
     (join '' '' [''LISTEN'', ''0'', ''128'', ''0.0.0.0:80'', ''*:*'', ''users:((\"nginx\",pid=3,fd=6))''], None),
     (join '' '' [''LISTEN'', ''0'', ''128'', ''127.0.0.1:15432'', ''*:*'', ''users:((\"ssh\",pid=7,fd=3))''], Some ssh_tunnel),
     (join '' '' [''LISTEN'', ''0'', ''128'', ''127.0.0.1:6010'', ''*:*'', ''users:((\"sshd\",pid=8,fd=3))''], None),
     (join '' '' [''LISTEN'', ''0'', ''128'', ''127.0.0.1:8080'', ''*:*'', ''users:((\"kubectl\",pid=9,fd=3))''], Some pod_tunnel)]"

definition ss_env :: os_env where
  "ss_env = (calm_env Linux)\<lparr>
     shell := \<lambda>_ argv _ f. (True, concat (map (\<lambda>(line, _). line @ [CHR 0x0A]) ss_rows), f),
     proc_file := \<lambda>_ p. map_option proc_text
       (if p = ''/proc/7/cmdline'' then Some (t_args ssh_tunnel)
        else if p = ''/proc/8/cmdline'' then Some [''sshd:'', ''u@pts/0'']
        else if p = ''/proc/9/cmdline'' then Some (t_args pod_tunnel) else None)\<rparr>"

lemma ss_rows_fields:
  "string_fields (join '' '' [''LISTEN'', ''0'', ''128'', ''0.0.0.0:80'', ''*:*'', ''users:((\"nginx\",pid=3,fd=6))''])
    = [''LISTEN'', ''0'', ''128'', ''0.0.0.0:80'', ''*:*'', ''users:((\"nginx\",pid=3,fd=6))'']"
  "string_fields (join '' '' [''LISTEN'', ''0'', ''128'', ''127.0.0.1:15432'', ''*:*'', ''users:((\"ssh\",pid=7,fd=3))''])
    = [''LISTEN'', ''0'', ''128'', ''127.0.0.1:15432'', ''*:*'', ''users:((\"ssh\",pid=7,fd=3))'']"
  "string_fields (join '' '' [''LISTEN'', ''0'', ''128'', ''127.0.0.1:6010'', ''*:*'', ''users:((\"sshd\",pid=8,fd=3))''])
    = [''LISTEN'', ''0'', ''128'', ''127.0.0.1:6010'', ''*:*'', ''users:((\"sshd\",pid=8,fd=3))'']"
  "string_fields (join '' '' [''LISTEN'', ''0'', ''128'', ''127.0.0.1:8080'', ''*:*'', ''users:((\"kubectl\",pid=9,fd=3))''])
    = [''LISTEN'', ''0'', ''128'', ''127.0.0.1:8080'', ''*:*'', ''users:((\"kubectl\",pid=9,fd=3))'']"
  by (rule fields_join; simp add: plain_field_def class_defs)+

lemma demo_itoa:
  "itoa 15432 = ''15432''" "itoa 5432 = ''5432''" "itoa 8080 = ''8080''" "itoa 80 = ''80''" "itoa 7 = ''7''" "itoa 8 = ''8''"
  "itoa 9 = ''9''"
  by (simp_all add: itoa_def nat_dec.simps)

lemma ssh_tunnel_ok: "tunnel_ok ssh_tunnel"
proof -
  have l: "l_spec 15432 ''db'' 5432 ''15432:db:5432''" by (simp add: l_spec_def demo_itoa)
  have "l_args ''15432:db:5432'' [''-NL'', ''15432:db:5432'']"
    unfolding l_args_def by (intro disjI2 exI [of _ "''NL''"]) (simp add: class_defs)
  with l have "ssh_form ssh_tunnel" unfolding ssh_form_def
    by (intro conjI exI [of _ "[]"] exI [of _ "[''-NL'', ''15432:db:5432'']"] exI [of _ "[''h'']"]
        exI [of _ "''15432:db:5432''"]) (simp_all add: ssh_tunnel_def)
  then show ?thesis
    by (simp add: tunnel_ok_def) (simp add: ssh_tunnel_def is_loopback_def has_prefix_def plain_field_def class_defs
        contains_def)
qed

lemma pod_tunnel_ok: "tunnel_ok pod_tunnel"
proof -
  have "kubectl_form pod_tunnel" unfolding kubectl_form_def
  proof (intro conjI)
    show "\<exists>pre kind post. t_args pod_tunnel = ''kubectl'' # pre @ [''port-forward'', kind @ ''/'' @ t_resource pod_tunnel,
        itoa (t_port pod_tunnel) @ '':'' @ itoa (t_rport pod_tunnel)] @ post
      \<and> ''port-forward'' \<notin> set pre \<and> list_all (\<lambda>f. CHR '':'' \<notin> set f) pre
      \<and> CHR '':'' \<notin> set (kind @ t_resource pod_tunnel) \<and> CHR ''/'' \<notin> set kind"
      by (intro exI [of _ "[]"] exI [of _ "''svc''"]) (simp add: pod_tunnel_def demo_itoa)
  qed (simp_all add: pod_tunnel_def contains_def lower_c_def is_upper_c_def has_prefix_def)
  then show ?thesis
    by (simp add: tunnel_ok_def) (simp add: pod_tunnel_def is_loopback_def has_prefix_def plain_field_def class_defs
        contains_def)
qed

lemma sshd_bystander:
  "bystander ss_env (join '' '' [''LISTEN'', ''0'', ''128'', ''127.0.0.1:6010'', ''*:*'', ''users:((\"sshd\",pid=8,fd=3))''])"
proof -
  have "\<not> l_flagged ''sshd:''" "\<not> l_flagged ''u@pts/0''" by (auto simp: l_flagged_def Cons_eq_append_conv)
  then have "idle_args [''sshd:'', ''u@pts/0'']"
    by (simp add: idle_args_def plain_field_def class_defs contains_def has_prefix_def lower_c_def is_upper_c_def Let_def)
  moreover have "join_path [''/proc'', ''8'', ''cmdline''] = ''/proc/8/cmdline''"
    by (simp add: join_path_def clean_path_def has_prefix_def)
  then have "proc_file ss_env v (join_path [''/proc'', itoa 8, ''cmdline'']) \<in> {None, Some (proc_text [''sshd:'', ''u@pts/0''])}" for v
    by (simp add: demo_itoa ss_env_def)
  moreover have "users = ''users:((\"'' @ ''sshd'' @ ''\",pid='' @ itoa 8 @ '',fd='' @ ''3'' @ ''))''"
    if "users = ''users:((\"sshd\",pid=8,fd=3))''" for users
    using that by (simp add: demo_itoa)
  moreover have "CHR ''='' \<notin> set ''sshd''" "(0::int) < 8" "(8::int) < 2 ^ 63" by simp_all
  ultimately show ?thesis unfolding bystander_def ss_rows_fields by blast
qed

lemma ss_rows_met: "\<forall>(line, r) \<in> set ss_rows. case r of None \<Rightarrow> other_line line \<or> bystander ss_env line
    | Some t \<Rightarrow> tunnel_ok t \<and> ss_shows line t \<and> runs ss_env t"
proof -
  have "runs ss_env ssh_tunnel" "runs ss_env pod_tunnel"
    by (simp_all add: runs_def ss_env_def join_path_def clean_path_def has_prefix_def)
      (simp_all add: ssh_tunnel_def pod_tunnel_def demo_itoa)
  moreover have "ss_shows (join '' '' [''LISTEN'', ''0'', ''128'', ''127.0.0.1:15432'', ''*:*'', ''users:((\"ssh\",pid=7,fd=3))'']) ssh_tunnel"
    "ss_shows (join '' '' [''LISTEN'', ''0'', ''128'', ''127.0.0.1:8080'', ''*:*'', ''users:((\"kubectl\",pid=9,fd=3))'']) pod_tunnel"
    unfolding ss_shows_def ss_rows_fields by (simp_all add: ssh_tunnel_def pod_tunnel_def demo_itoa has_prefix_def)
  moreover have "other_line (join '' '' [''LISTEN'', ''0'', ''128'', ''0.0.0.0:80'', ''*:*'', ''users:((\"nginx\",pid=3,fd=6))''])"
    unfolding other_line_def ss_rows_fields by (simp add: is_loopback_def has_prefix_def)
  moreover have "other_line ''State  Recv-Q Send-Q''" by (simp add: other_line_def has_prefix_def)
  ultimately show ?thesis using ssh_tunnel_ok pod_tunnel_ok sshd_bystander unfolding ss_rows_def by simp
qed

theorem scan_linux_finds_witness:
  "\<exists>w'. scan_linux ss_env (dir_world ''/r'') = (Inr [tunnel_forward ssh_tunnel, tunnel_forward pod_tunnel], w')"
proof -
  obtain w1 where run: "run_cmd ss_env [''ss'', ''-tlnp''] '''' (dir_world ''/r'')
      = ((True, concat (map (\<lambda>(line, _). line @ [CHR 0x0A]) ss_rows)), w1)"
    by (simp add: run_cmd_def ss_env_def)
  have plain: "list_all plain_line (map fst ss_rows)" by (simp add: ss_rows_def plain_line_def max_token_def)
  have found: "map tunnel_forward (List.map_filter snd ss_rows) = [tunnel_forward ssh_tunnel, tunnel_forward pod_tunnel]"
    by (simp add: ss_rows_def map_filter_simps)
  show ?thesis using scan_linux_finds [OF run plain ss_rows_met] unfolding found .
qed

end
