(* ===== verification/Spec2Isabelle.thy ===== *)
theory Spec2Isabelle
  imports Aliases Cli_Panics Daemon_Types Domain_Spec Proxy_Pipe Scanner_Finds
begin

text \<open>
  local-auto-domain (\<open>lad\<close>) gives every \<open>ssh -L\<close> and \<open>kubectl port-forward\<close> of the user a domain name.
  A daemon polls the listening sockets; for a new forward it takes a free loopback address, publishes
  a name for it through dnsmasq and starts a TCP proxy on it, and it takes all of that back when the
  forward is gone. The other commands set the system up, take it down, and ask the daemon for what it
  serves. This development models the Go program under \<open>cmd/\<close> and \<open>internal/\<close>, on Linux and on macOS.

  \<^bold>\<open>The model.\<close> A Go function is a HOL function; a function that touches the system takes the
  environment \<open>os_env\<close> and a \<open>world\<close> and returns its result with the new \<open>world\<close> (\<open>Os_World\<close>). The
  \<open>world\<close> is the files, the commands run, the addresses bound and the text printed. The environment
  decides everything else as a function of the number of calls so far: which calls fail and how (a
  failed write may leave a beginning of the text, a failed listing of a directory some of its names),
  what commands answer and do to the files, the clock, and the order in which a map is ranged over. A
  file can only be made in a directory that exists. A
  theorem for every \<open>os_env\<close> so holds for every sequence of faults. Errors are values, a nil map is
  \<open>None\<close>, and a panic is the value \<open>Panics\<close>. Bytes of addresses are 8-bit words; Go's \<open>int\<close> is \<open>int\<close>
  where the code only compares and prints it, with the range checks of \<open>strconv\<close> written out.

  \<^bold>\<open>The theories.\<close>
  \<^item> \<open>Lad_Base\<close>: the prelude, with lemmas on lists, maps and byte classes, and the collections of
    simplification rules. \<open>Go_Strings\<close>, \<open>Go_Strings_Facts\<close>, \<open>Go_Net\<close> and \<open>Go_Regexp\<close>: what the program
    uses of Go's \<open>strings\<close>, \<open>strconv\<close>, \<open>path/filepath\<close>, \<open>net\<close> and \<open>regexp\<close>.
  \<^item> \<open>Config\<close>: \<open>internal/config\<close>, with the YAML codec as a parameter.
  \<^item> \<open>Address_Pool\<close>, \<open>Ipalloc\<close>, \<open>Netutil\<close>: \<open>internal/ipalloc\<close> as an instance of the locale
    \<open>address_pool\<close>, the contract the daemon relies on, and \<open>internal/netutil\<close>.
  \<^item> \<open>Scanner_Parse\<close>, \<open>Scanner_Linux\<close>, \<open>Scanner_Darwin\<close>: \<open>internal/scanner\<close>; both scanners are
    instances of the locale \<open>port_scanner\<close> of \<open>Scanner_Interface\<close>. The command lines the documents
    describe are read back exactly, and \<open>Scanner_Finds\<close> shows that a scan on Linux finds exactly the
    tunnels among the lines of \<open>ss\<close>, also when other \<open>ssh\<close> and \<open>kubectl\<close> processes listen.
  \<^item> \<open>Domain_Name\<close>: \<open>internal/domain\<close>; a generated label is a DNS label and differs from the active
    ones unless the texts are cut to 63 bytes, and what is left of the collision suffix then is said
    exactly. \<open>Domain_Spec\<close>: the sanitizer without its loop, for every text, as its words joined by dashes.
  \<^item> \<open>Dnsmasq_Manager\<close>: \<open>internal/dnsmasq/manager*.go\<close>. \<open>Dnsmasq_View\<close> has the abstract view, a map
    from ports to lines, and shows that the manager is a \<open>fallible_store\<close> (\<open>Key_Store\<close>) whose hosts file
    is the rendered view. \<open>Dnsmasq_Laws\<close>, \<open>Dnsmasq_Hosts\<close> and \<open>Dnsmasq_Clear\<close> have the properties of \<open>Add\<close>
    and \<open>Remove\<close>, the safety of the hosts file under every fault, and \<open>RemoveAll\<close>. \<open>Dnsmasq_Dirs\<close>: \<open>DropInDir\<close>.
  \<^item> \<open>Ipc\<close>: \<open>internal/ipc\<close>; the store is a \<open>key_store\<close>, the server's multiplexer is \<open>serve_request\<close>, and the
    client asks through a \<open>transport\<close>, a parameter that stands for the HTTP library; \<open>connected\<close> is what
    is relied on. \<open>Tlscert\<close>: \<open>internal/tlscert/tlscert.go\<close>.
  \<^item> \<open>Proxy\<close>: \<open>internal/proxy\<close>, once as operations on the bound addresses, which the daemon calls, and
    once as the step relation \<open>run_step\<close> of its goroutines: the accept loop, the pipes and the callers of
    \<open>Stop\<close>, in every interleaving. \<open>Proxy_Pipe\<close>: the bytes the two copies of a connection move.
  \<^item> \<open>Daemon\<close>: \<open>internal/daemon\<close>. \<open>Daemon_Invariant\<close>: the active map, the allocator, the store and the
    bound addresses agree in every reachable state. \<open>Daemon_Steps\<close>: scans and the calls of \<open>add\<close> and
    \<open>remove\<close> as the steps of the daemon, every run as a sequence of them, and the locale
    \<open>daemon_property\<close> for what they keep. \<open>Daemon_Life\<close>: what that gives for whole runs.
    \<open>Daemon_Published\<close>, \<open>Daemon_Converge\<close>, \<open>Daemon_Promises\<close>: the resolver's view follows the active map,
    and a poll reaches the scanned state. \<open>Daemon_Names\<close>: names are distinct. \<open>Daemon_Types\<close>: the values
    the fields of an entry can have. \<open>Daemon_Demo\<close> and \<open>Daemon_Demo_Step\<close>: the concrete system the
    examples run on.
  \<^item> \<open>Setup_Lines\<close>, \<open>Setup_Linux\<close>, \<open>Setup_Linux_Laws\<close>, \<open>Setup_Darwin\<close>: \<open>Setup\<close> and \<open>Teardown\<close> of
    \<open>internal/dnsmasq\<close>; \<open>Install\<close>: \<open>internal/tlscert/install_*.go\<close> and \<open>internal/service\<close>.
  \<^item> \<open>Cli\<close>: the commands of \<open>cmd/local-auto-domain/main.go\<close> and \<open>main\<close>, as \<open>lad_main\<close>; \<open>Cli_Laws\<close> and
    \<open>Aliases\<close>: what they promise; \<open>Cli_Panics\<close>: which runs of the whole program panic. This theory has
    the property that crosses all of the daemon, the transport and the command line.

  \<^bold>\<open>Bounds.\<close> There is no fuel: every loop of the program is structural recursion or has a measure. A
  run of the daemon is given by the finite list of events its \<open>select\<close> receives, ticks and the end of
  the context; a theorem for every list is a theorem for every run up to any point. A theorem over
  \<open>daemon_steps\<close> holds between any two calls of \<open>add\<close> and \<open>remove\<close>, also in the middle of a poll, which
  is when a request of the socket can be answered.

  \<^bold>\<open>Hypotheses.\<close> \<open>healthy_env\<close>: no call is refused, commands change no files, dnsmasq can be
  signalled. \<open>shell_quiet\<close>: commands change no files of the model. \<open>tee_works\<close>: a \<open>tee\<close> under
  \<open>sudo\<close> that succeeds has written the file it was told to and no other; \<open>tee_allowed\<close>: it succeeds.
  \<open>crypto_ok\<close>: decoding and verifying undo encoding and signing; in \<open>Cli_Panics\<close> the random source
  works. \<open>yaml_keeps_overrides\<close> and the equations on \<open>decode_entries\<close>: the codec reads
  back what it wrote. \<open>connected\<close>: a client that dials the socket gets the server's answer. Each of them
  has an instance in the examples.

  \<^bold>\<open>Not modelled.\<close> Cobra's parsing of the command line, the HTTP transport, JSON, YAML and the
  cryptography, which are parameters; the lines that are logged; the text of an error at the end of a
  printed warning and the texts that wrap an error; TLS records; the mutexes of the allocator, of the
  store and of the manager, which make each operation atomic.
\<close>

section \<open>From the scan to the table\<close>

text \<open>
  C5: whenever \<open>lad list\<close> asks a daemon, be it in the middle of a poll, before or after any \<open>add\<close> or
  \<open>remove\<close>, and whichever calls failed before, it is told exactly the forwards that are active at that
  moment, and shows them by rising local port, whatever order the daemon ranges over its map in.
\<close>

theorem list_shows_active:
  assumes "daemon_steps e (fresh_daemon e c cfg v, w) (d', w')"
    and "iteration_of (entries (d_store d')) order"
    and "decode_entries j (encode_entries j (store_all (d_store d') order)) = (store_all (d_store d') order, None)"
    and "connected tr (d_srv d') (serve_request j (d_store d') order)"
  shows "\<exists>ens. cmd_list e j tr u = (None, listing e ens (ticked u))
    \<and> map e_port ens = sorted_list_of_set (ports_of d')
    \<and> set ens = (ae_entry \<circ> snd) ` set (active d')"
proof -
  have inv: "daemon_inv (mset (bound w)) d' w'" and same: "same_setup (fresh_daemon e c cfg v) d'"
    using steps_inv [OF assms(1) fresh_daemon_inv] by auto
  have srv: "sock_path (d_srv d') = socket_path e"
    using same by (simp add: same_setup_def new_daemon_fields new_server_def)
  from inv have dis: "distinct (map fst (active d'))"
    and st: "entries (d_store d') = (\<lambda>port. map_option ae_entry (map_of (active d') port))"
    and ok: "list_all (entry_ok (d_cfg d') (d_cert d')) (active d')" by (simp_all add: daemon_inv_def)
  have dom: "dom (entries (d_store d')) = ports_of d'" unfolding st by (simp add: dom_map_option dom_map_of_conv_image_fst)
  have "e_port en = p" if "entries (d_store d') p = Some en" for p en
    using that ok unfolding st by (auto simp: list_all_iff Let_def dest!: map_of_SomeD)
  then have wf: "store_wf (d_store d')" unfolding store_wf_def dom by simp
  have "Map.ran (entries (d_store d')) = (ae_entry \<circ> snd) ` set (active d')"
    unfolding st ran_map_option image_comp [symmetric] ran_distinct [OF dis] ..
  then show ?thesis
    using cmd_list_sorted [OF assms(4) srv assms(3)] sorted_entries [OF wf assms(2)] store_all_set [OF assms(2)] dom
    by (intro exI [of _ "sort_key e_port (store_all (d_store d') order)"]) simp
qed

text \<open>A codec that knows one list of entries.\<close>

definition one_json :: "entry list \<Rightarrow> json" where
  "one_json ens = \<lparr>encode_entries = (\<lambda>_. ''[]''), decode_entries = (\<lambda>_. (ens, None))\<rparr>"

theorem list_shows_active_witness:
  "\<exists>d' w' j tr ens. run_loop demo_env [TimerTick] demo_daemon demo_files = (Returns (RunWaiting, d'), w')
     \<and> map e_port ens = [15432]
     \<and> cmd_list demo_env j tr w' = (None, listing demo_env ens (ticked w'))"
proof -
  obtain d' w' where p: "daemon_poll demo_env demo_daemon demo_files = (Returns d', w')" "ports_of d' = {15432}"
    using demo_poll by blast
  have run: "run_loop demo_env [TimerTick] demo_daemon demo_files = (Returns (RunWaiting, d'), w')"
    unfolding run_loop.simps p(1) by simp
  let ?es = "store_all (d_store d') [15432]"
  let ?tr = "local_transport (d_srv d') (serve_request (one_json ?es) (d_store d') [15432])"
  have "dom (entries (d_store d')) = ports_of d'"
    using run_loop_inv [OF fresh_daemon_inv run] by (auto simp: daemon_inv_def dom_map_option dom_map_of_conv_image_fst)
  then have it: "iteration_of (entries (d_store d')) [15432]" by (simp add: iteration_of_def p(2))
  have dec: "decode_entries (one_json ?es) (encode_entries (one_json ?es) ?es) = (?es, None)" by (simp add: one_json_def)
  obtain ens where ens: "cmd_list demo_env (one_json ?es) ?tr w' = (None, listing demo_env ens (ticked w'))"
      "map e_port ens = sorted_list_of_set (ports_of d')"
    using list_shows_active [OF run_loop_steps [OF run] it dec local_transport_connected] by blast
  have one: "map e_port ens = [15432]" unfolding ens(2) p(2) by simp
  show ?thesis by (intro exI conjI) (fact run, fact one, fact ens(1))
qed

end
